(* ===== verification/Prelude.thy ===== *)
theory Prelude
  imports Main
begin

text \<open>
  Shared vocabulary of the development.

  Go functions that return \<open>(value, error)\<close> become values of the sum type
  \<open>('e, 'a) result\<close>: \<open>Inl\<close> is the error, \<open>Inr\<close> the value. Go strings and byte
  slices are both lists of bytes, so both are HOL strings (\<open>char list\<close>); an instant is an
  \<open>int\<close>, the nanoseconds since Go's zero time, so that the zero time is \<open>0\<close>.

  The collections \<open>result_simps\<close>, \<open>plain_intros\<close> and \<open>path_facts\<close> gather the
  facts that the component proofs share.
\<close>

named_theorems result_simps
named_theorems plain_intros
named_theorems path_facts

type_synonym ('e, 'a) result = "'e + 'a"
type_synonym bytes = string
type_synonym time = int
type_synonym duration = int

section \<open>Results\<close>

fun result_bind :: "('e, 'a) result \<Rightarrow> ('a \<Rightarrow> ('e, 'b) result) \<Rightarrow> ('e, 'b) result" where
  "result_bind (Inl e) f = Inl e"
| "result_bind (Inr a) f = f a"

fun is_ok :: "('e, 'a) result \<Rightarrow> bool" where
  "is_ok (Inl _) = False"
| "is_ok (Inr _) = True"

lemma is_ok_iff: "is_ok r \<longleftrightarrow> (\<exists>a. r = Inr a)"
  by (cases r) auto

lemma result_bind_Inr_iff [result_simps]:
  "result_bind r f = Inr b \<longleftrightarrow> (\<exists>a. r = Inr a \<and> f a = Inr b)"
  by (cases r) auto

lemma result_bind_Inl_iff [result_simps]:
  "result_bind r f = Inl e \<longleftrightarrow> r = Inl e \<or> (\<exists>a. r = Inr a \<and> f a = Inl e)"
  by (cases r) auto

section \<open>Time\<close>

text \<open>
  \<open>Time.Sub\<close> saturates at the bounds of a signed 64-bit \<open>Duration\<close>; durations are
  nanoseconds.
\<close>

definition max_duration :: duration where
  "max_duration = 2 ^ 63 - 1"

definition min_duration :: duration where
  "min_duration = - (2 ^ 63)"

definition time_sub :: "time \<Rightarrow> time \<Rightarrow> duration" where
  "time_sub t u = max min_duration (min max_duration (t - u))"

definition is_zero_time :: "time \<Rightarrow> bool" where
  "is_zero_time t \<longleftrightarrow> t = 0"

definition seconds :: "int \<Rightarrow> duration" where
  "seconds n = n * 1000000000"

definition minutes :: "int \<Rightarrow> duration" where
  "minutes n = seconds (60 * n)"

lemma time_sub_exact:
  "min_duration \<le> t - u \<Longrightarrow> t - u \<le> max_duration \<Longrightarrow> time_sub t u = t - u"
  by (simp add: time_sub_def)

lemma time_sub_less_iff:
  assumes "min_duration < d" "d \<le> max_duration"
  shows "time_sub t u < d \<longleftrightarrow> t - u < d"
  using assms by (auto simp: time_sub_def min_duration_def max_duration_def)

lemma time_sub_greater_iff:
  assumes "min_duration \<le> d" "d < max_duration"
  shows "time_sub t u > d \<longleftrightarrow> t - u > d"
  using assms by (auto simp: time_sub_def min_duration_def max_duration_def)

end
