(* ===== verification/Go_Strings.thy ===== *)
theory Go_Strings
  imports Prelude
begin

text \<open>
  The parts of Go's \<open>strings\<close> package that the program calls, on byte strings.

  White space is Go's \<open>unicode.IsSpace\<close>, recognised on the UTF-8 bytes, in both directions.
  Case mapping is exact on ASCII, and on the four non-ASCII runes whose case mapping reaches
  ASCII (U+0130 and U+212A for \<open>ToLower\<close>, U+017F and U+212A for \<open>EqualFold\<close>), which is
  all a comparison with an ASCII literal can see; other non-ASCII bytes are left as they are.
\<close>

abbreviation byte_of :: "char \<Rightarrow> nat" where
  "byte_of \<equiv> of_char"

section \<open>White space and trimming\<close>

definition ascii_space :: "char \<Rightarrow> bool" where
  "ascii_space c \<longleftrightarrow> c = CHR '' '' \<or> (9 \<le> byte_of c \<and> byte_of c \<le> 13)"

definition two_byte_space :: "char \<Rightarrow> char \<Rightarrow> bool" where
  "two_byte_space a b \<longleftrightarrow> a = CHR 0xC2 \<and> (b = CHR 0x85 \<or> b = CHR 0xA0)"

definition three_byte_space :: "char \<Rightarrow> char \<Rightarrow> char \<Rightarrow> bool" where
  "three_byte_space a b c \<longleftrightarrow>
     a = CHR 0xE1 \<and> b = CHR 0x9A \<and> c = CHR 0x80
   \<or> a = CHR 0xE2 \<and> b = CHR 0x80 \<and>
       (128 \<le> byte_of c \<and> byte_of c \<le> 138 \<or> c = CHR 0xA8 \<or> c = CHR 0xA9 \<or> c = CHR 0xAF)
   \<or> a = CHR 0xE2 \<and> b = CHR 0x81 \<and> c = CHR 0x9F
   \<or> a = CHR 0xE3 \<and> b = CHR 0x80 \<and> c = CHR 0x80"

text \<open>The byte length of the white-space rune a string starts with; \<open>0\<close> if there is none.\<close>

fun space_width :: "bytes \<Rightarrow> nat" where
  "space_width [] = 0"
| "space_width (a # s) =
     (if ascii_space a then 1
      else case s of
        [] \<Rightarrow> 0
      | b # t \<Rightarrow>
          if two_byte_space a b then 2
          else (case t of [] \<Rightarrow> 0 | c # _ \<Rightarrow> if three_byte_space a b c then 3 else 0))"

text \<open>The same at the end of a string, on the reversed string.\<close>

fun space_width_rev :: "bytes \<Rightarrow> nat" where
  "space_width_rev [] = 0"
| "space_width_rev (c # s) =
     (if ascii_space c then 1
      else case s of
        [] \<Rightarrow> 0
      | b # t \<Rightarrow>
          if two_byte_space b c then 2
          else (case t of [] \<Rightarrow> 0 | a # _ \<Rightarrow> if three_byte_space a b c then 3 else 0))"

function trim_left :: "bytes \<Rightarrow> bytes" where
  "trim_left s = (if s = [] \<or> space_width s = 0 then s else trim_left (drop (space_width s) s))"
  by pat_completeness auto
termination
  by (relation "measure length") auto

function trim_left_rev :: "bytes \<Rightarrow> bytes" where
  "trim_left_rev s =
     (if s = [] \<or> space_width_rev s = 0 then s else trim_left_rev (drop (space_width_rev s) s))"
  by pat_completeness auto
termination
  by (relation "measure length") auto

declare trim_left.simps [simp del] trim_left_rev.simps [simp del]

definition trim_right :: "bytes \<Rightarrow> bytes" where
  "trim_right s = rev (trim_left_rev (rev s))"

definition trim_space :: "bytes \<Rightarrow> bytes" where
  "trim_space s = trim_right (trim_left s)"

text \<open>\<open>strings.Fields\<close>: the maximal runs of runes that are not white space.\<close>

function text_fields_from :: "bytes \<Rightarrow> bytes \<Rightarrow> bytes list" where
  "text_fields_from acc s =
     (if s = [] then (if acc = [] then [] else [rev acc])
      else if space_width s = 0 then text_fields_from (hd s # acc) (tl s)
      else (if acc = [] then [] else [rev acc]) @ text_fields_from [] (drop (space_width s) s))"
  by pat_completeness auto
termination
  by (relation "measure (\<lambda>(acc, s). length s)") auto

declare text_fields_from.simps [simp del]

definition text_fields :: "bytes \<Rightarrow> bytes list" where
  "text_fields s = text_fields_from [] s"

section \<open>Splitting and joining\<close>

fun split :: "char \<Rightarrow> bytes \<Rightarrow> bytes list" where
  "split c [] = [[]]"
| "split c (x # s) =
     (if x = c then [] # split c s
      else case split c s of [] \<Rightarrow> [[x]] | p # ps \<Rightarrow> (x # p) # ps)"

fun join :: "bytes \<Rightarrow> bytes list \<Rightarrow> bytes" where
  "join sep [] = []"
| "join sep [p] = p"
| "join sep (p # q # ps) = p @ sep @ join sep (q # ps)"

definition has_prefix :: "bytes \<Rightarrow> bytes \<Rightarrow> bool" where
  "has_prefix s p \<longleftrightarrow> take (length p) s = p"

definition has_suffix :: "bytes \<Rightarrow> bytes \<Rightarrow> bool" where
  "has_suffix s p \<longleftrightarrow> has_prefix (rev s) (rev p)"

definition trim_prefix :: "bytes \<Rightarrow> bytes \<Rightarrow> bytes" where
  "trim_prefix s p = (if has_prefix s p then drop (length p) s else s)"

definition trim_suffix :: "bytes \<Rightarrow> bytes \<Rightarrow> bytes" where
  "trim_suffix s p = (if has_suffix s p then take (length s - length p) s else s)"

fun contains :: "bytes \<Rightarrow> bytes \<Rightarrow> bool" where
  "contains [] p = (p = [])"
| "contains (x # s) p = (has_prefix (x # s) p \<or> contains s p)"

text \<open>\<open>strings.TrimRight\<close> with a cut set of ASCII characters.\<close>

definition trim_right_set :: "char list \<Rightarrow> bytes \<Rightarrow> bytes" where
  "trim_right_set cs s = rev (dropWhile (\<lambda>c. c \<in> set cs) (rev s))"

section \<open>Case mapping\<close>

definition lower_char :: "char \<Rightarrow> char" where
  "lower_char c = (if 65 \<le> byte_of c \<and> byte_of c \<le> 90 then char_of (byte_of c + 32) else c)"

definition upper_char :: "char \<Rightarrow> char" where
  "upper_char c = (if 97 \<le> byte_of c \<and> byte_of c \<le> 122 then char_of (byte_of c - 32) else c)"

function to_lower :: "bytes \<Rightarrow> bytes" where
  "to_lower [] = []"
| "to_lower (a # s) =
     (if a = CHR 0xC4 \<and> has_prefix s [CHR 0xB0] then CHR ''i'' # to_lower (drop 1 s)
      else if a = CHR 0xE2 \<and> has_prefix s [CHR 0x84, CHR 0xAA] then CHR ''k'' # to_lower (drop 2 s)
      else lower_char a # to_lower s)"
  by pat_completeness auto
termination
  by (relation "measure length") auto

definition to_upper :: "bytes \<Rightarrow> bytes" where
  "to_upper s = map upper_char s"

function fold_case :: "bytes \<Rightarrow> bytes" where
  "fold_case [] = []"
| "fold_case (a # s) =
     (if a = CHR 0xC5 \<and> has_prefix s [CHR 0xBF] then CHR ''s'' # fold_case (drop 1 s)
      else if a = CHR 0xE2 \<and> has_prefix s [CHR 0x84, CHR 0xAA] then CHR ''k'' # fold_case (drop 2 s)
      else lower_char a # fold_case s)"
  by pat_completeness auto
termination
  by (relation "measure length") auto

definition equal_fold :: "bytes \<Rightarrow> bytes \<Rightarrow> bool" where
  "equal_fold s t \<longleftrightarrow> fold_case s = fold_case t"

section \<open>Plain text: ASCII without white space\<close>

text \<open>
  Everything the program prints into a sysfs attribute is plain; trimming leaves plain text
  alone and removes a trailing newline after it.
\<close>

definition plain_char :: "char \<Rightarrow> bool" where
  "plain_char c \<longleftrightarrow> 33 \<le> byte_of c \<and> byte_of c < 127"

definition plain :: "bytes \<Rightarrow> bool" where
  "plain s \<longleftrightarrow> list_all plain_char s"

lemma plain_Nil [plain_intros, simp]: "plain []"
  by (simp add: plain_def)

lemma plain_Cons [simp]: "plain (c # s) \<longleftrightarrow> plain_char c \<and> plain s"
  by (simp add: plain_def)

lemma plain_append [simp]: "plain (s @ t) \<longleftrightarrow> plain s \<and> plain t"
  by (simp add: plain_def)

lemma plain_rev [simp]: "plain (rev s) \<longleftrightarrow> plain s"
  by (simp add: plain_def list_all_iff)

lemma plain_char_not_space:
  assumes "plain_char c"
  shows "\<not> ascii_space c" "\<not> two_byte_space c d" "\<not> two_byte_space d c"
    "\<not> three_byte_space c d e" "\<not> three_byte_space d e c"
  using assms
  by (auto simp: plain_char_def ascii_space_def two_byte_space_def three_byte_space_def)

lemma space_width_plain [simp]: "plain_char c \<Longrightarrow> space_width (c # s) = 0"
  by (auto simp: plain_char_not_space split: list.splits)

lemma space_width_rev_plain [simp]: "plain_char c \<Longrightarrow> space_width_rev (c # s) = 0"
  by (auto simp: plain_char_not_space split: list.splits)

lemma space_width_newline [simp]:
  "space_width (CHR 0x0A # s) = 1" "space_width_rev (CHR 0x0A # s) = 1"
  "space_width (CHR '' '' # s) = 1" "space_width_rev (CHR '' '' # s) = 1"
  by (simp_all add: ascii_space_def)

declare space_width.simps(2) [simp del] space_width_rev.simps(2) [simp del]

lemma trim_left_plain [simp]: "plain_char c \<Longrightarrow> trim_left (c # s) = c # s"
  by (subst trim_left.simps) simp

lemma trim_left_Nil [simp]: "trim_left [] = []"
  by (subst trim_left.simps) simp

lemma trim_left_plain_all [simp]: "plain s \<Longrightarrow> trim_left s = s"
  by (cases s) auto

lemma trim_left_rev_Nil [simp]: "trim_left_rev [] = []"
  by (subst trim_left_rev.simps) simp

lemma trim_left_rev_plain [simp]: "plain_char c \<Longrightarrow> trim_left_rev (c # s) = c # s"
  by (subst trim_left_rev.simps) simp

lemma trim_left_rev_newline [simp]: "trim_left_rev (CHR 0x0A # s) = trim_left_rev s"
  by (subst trim_left_rev.simps) simp

lemma trim_right_plain_end: "plain_char c \<Longrightarrow> trim_right (s @ [c]) = s @ [c]"
  by (simp add: trim_right_def)

lemma trim_space_plain [simp]:
  assumes "plain s" shows "trim_space s = s"
proof (cases s rule: rev_cases)
  case Nil
  then show ?thesis by (simp add: trim_space_def trim_right_def)
next
  case (snoc t c)
  then show ?thesis using assms trim_left_plain_all [OF assms]
    by (simp add: trim_space_def trim_right_plain_end)
qed

lemma trim_space_plain_newline [simp]:
  assumes "plain s" "s \<noteq> []" shows "trim_space (s @ [CHR 0x0A]) = s"
proof -
  obtain t c where s: "s = t @ [c]" and c: "plain_char c"
    using assms by (cases s rule: rev_cases) auto
  have "trim_left (s @ [CHR 0x0A]) = s @ [CHR 0x0A]"
    using assms by (cases s) auto
  with c show ?thesis by (simp add: trim_space_def trim_right_def s)
qed

section \<open>Laws of split and join\<close>

lemma split_not_Nil [simp]: "split c s \<noteq> []"
  by (induction s) (auto split: list.splits)

lemma length_split: "length (split c s) = Suc (count_list s c)"
  by (induction s) (auto split: list.splits)

lemma split_no_sep [simp]: "c \<notin> set s \<Longrightarrow> split c s = [s]"
  by (induction s) auto

lemma split_append_sep [simp]:
  "c \<notin> set p \<Longrightarrow> split c (p @ c # s) = p # split c s"
  by (induction p) auto

lemma split_parts_no_sep: "p \<in> set (split c s) \<Longrightarrow> c \<notin> set p"
  by (induction s arbitrary: p) (auto split: list.splits if_splits)

lemma split_join:
  assumes "ps \<noteq> []" "\<forall>p\<in>set ps. c \<notin> set p"
  shows "split c (join [c] ps) = ps"
  using assms by (induction "[c]" ps rule: join.induct) auto

lemma join_split: "join [c] (split c s) = s"
proof (induction s)
  case (Cons x s)
  obtain p ps where ps: "split c s = p # ps" by (meson split_not_Nil neq_Nil_conv)
  with Cons show ?case by (cases ps) auto
qed simp

lemma plain_join [plain_intros]:
  "plain sep \<Longrightarrow> \<forall>p\<in>set ps. plain p \<Longrightarrow> plain (join sep ps)"
  by (induction sep ps rule: join.induct) auto

lemma join_Cons2 [simp]: "ps \<noteq> [] \<Longrightarrow> join sep (p # ps) = p @ sep @ join sep ps"
  by (cases ps) auto

lemma set_join: "set (join sep ps) \<subseteq> (\<Union>p\<in>set ps. set p) \<union> set sep"
  by (induction sep ps rule: join.induct) auto

section \<open>Prefixes and suffixes\<close>

lemma has_prefix_simps [simp]:
  "has_prefix s []"
  "\<not> has_prefix [] (d # p)"
  "has_prefix (c # s) (d # p) \<longleftrightarrow> c = d \<and> has_prefix s p"
  by (auto simp: has_prefix_def)

lemma has_prefix_iff: "has_prefix s p \<longleftrightarrow> (\<exists>t. s = p @ t)"
  unfolding has_prefix_def by (metis append_eq_conv_conj append_take_drop_id)

lemma has_suffix_iff: "has_suffix s p \<longleftrightarrow> (\<exists>t. s = t @ p)"
  unfolding has_suffix_def has_prefix_iff
  by (metis rev_append rev_rev_ident)

lemma trim_suffix_append [simp]: "trim_suffix (s @ p) p = s"
proof -
  have "has_suffix (s @ p) p" by (auto simp: has_suffix_iff)
  then show ?thesis by (simp add: trim_suffix_def)
qed

lemma trim_prefix_append [simp]: "trim_prefix (p @ s) p = s"
  by (simp add: trim_prefix_def has_prefix_def)

section \<open>Laws of the case mappings\<close>

definition ascii :: "bytes \<Rightarrow> bool" where
  "ascii s \<longleftrightarrow> list_all (\<lambda>c. byte_of c < 128) s"

lemma byte_of_char_of [simp]: "n < 256 \<Longrightarrow> byte_of (char_of n) = n"
  by simp

lemma to_lower_ascii: "ascii s \<Longrightarrow> to_lower s = map lower_char s"
  by (induction s) (auto simp: ascii_def)

lemma lower_char_idem [simp]: "lower_char (lower_char c) = lower_char c"
  by (simp add: lower_char_def)

lemma lower_char_ascii: "byte_of c < 128 \<Longrightarrow> byte_of (lower_char c) < 128"
  by (simp add: lower_char_def)

lemma to_lower_idem_ascii:
  assumes "ascii s" shows "to_lower (to_lower s) = to_lower s"
proof -
  have "ascii (map lower_char s)"
    using assms by (auto simp: ascii_def list_all_iff lower_char_ascii)
  with assms show ?thesis by (simp add: to_lower_ascii)
qed

lemma to_lower_fixed: "c \<in> set (to_lower s) \<Longrightarrow> lower_char c = c"
  by (induction s rule: to_lower.induct) (auto simp: lower_char_def split: if_splits)

lemma to_lower_idem:
  assumes "ascii (to_lower s)" shows "to_lower (to_lower s) = to_lower s"
  using assms by (simp add: to_lower_ascii to_lower_fixed map_idI)

lemma length_to_lower_ascii: "ascii s \<Longrightarrow> length (to_lower s) = length s"
  by (simp add: to_lower_ascii)

lemma equal_fold_refl [simp]: "equal_fold s s"
  by (simp add: equal_fold_def)

lemma equal_fold_sym: "equal_fold s t \<longleftrightarrow> equal_fold t s"
  by (auto simp: equal_fold_def)

lemma equal_fold_trans: "equal_fold s t \<Longrightarrow> equal_fold t u \<Longrightarrow> equal_fold s u"
  by (simp add: equal_fold_def)

section \<open>Fields\<close>

lemma text_fields_from_plain: "plain s \<Longrightarrow> text_fields_from acc s = (if acc = [] \<and> s = [] then [] else [rev acc @ s])"
proof (induction s arbitrary: acc)
  case Nil
  then show ?case by (simp add: text_fields_from.simps)
next
  case (Cons c s)
  then show ?case by (subst text_fields_from.simps) simp
qed

lemma text_fields_from_plain_space:
  "plain p \<Longrightarrow> text_fields_from acc (p @ CHR '' '' # s) =
     (if acc = [] \<and> p = [] then [] else [rev acc @ p]) @ text_fields_from [] s"
proof (induction p arbitrary: acc)
  case Nil
  then show ?case by (subst text_fields_from.simps) simp
next
  case (Cons c p)
  then show ?case by (subst text_fields_from.simps) simp
qed

lemma text_fields_join_space:
  assumes "\<forall>p\<in>set ps. plain p \<and> p \<noteq> []"
  shows "text_fields (join '' '' ps) = ps"
  unfolding text_fields_def using assms
proof (induction "'' ''" ps rule: join.induct)
  case 1
  then show ?case by (simp add: text_fields_from.simps)
next
  case (2 p)
  then show ?case by (simp add: text_fields_from_plain)
next
  case (3 p q ps)
  then show ?case by (simp add: text_fields_from_plain_space)
qed

end
