(* ===== verification/Profiles.thy ===== *)
theory Profiles
  imports Go_Strings
begin

text \<open>
  The platform profiles of \<open>internal/sysfs/controller.go\<close>: the table of options, the label of
  a value, and the options offered for the driver's choices on a power source.
\<close>

record profile_option =
  opt_value :: bytes
  opt_label :: bytes
  opt_description :: bytes

definition profile_options :: "profile_option list" where
  "profile_options =
     [\<lparr>opt_value = ''low-power'', opt_label = ''Eco'',
       opt_description = ''Prioritizes energy efficiency and battery life.''\<rparr>,
      \<lparr>opt_value = ''quiet'', opt_label = ''Silent'',
       opt_description = ''Minimizes noise and prioritizes low power.''\<rparr>,
      \<lparr>opt_value = ''balanced'', opt_label = ''Balanced'',
       opt_description = ''Balances performance and noise for everyday tasks.''\<rparr>,
      \<lparr>opt_value = ''balanced-performance'', opt_label = ''Performance'',
       opt_description = ''Maximizes speed for demanding workloads.''\<rparr>,
      \<lparr>opt_value = ''performance'', opt_label = ''Turbo'',
       opt_description = ''Unleashes peak power with the loudest cooling.''\<rparr>]"

fun find_option :: "bytes \<Rightarrow> profile_option list \<Rightarrow> profile_option" where
  "find_option v [] = \<lparr>opt_value = v, opt_label = v, opt_description = []\<rparr>"
| "find_option v (opt # opts) = (if opt_value opt = v then opt else find_option v opts)"

definition profile_for_value :: "bytes \<Rightarrow> profile_option" where
  "profile_for_value v = find_option v profile_options"

definition permitted_profiles :: "bytes \<Rightarrow> bytes list" where
  "permitted_profiles power_source =
     (if power_source = ''battery'' then [''low-power'', ''balanced'']
      else if power_source = ''ac'' then
        [''quiet'', ''balanced'', ''balanced-performance'', ''performance'']
      else [''balanced''])"

definition available_profiles :: "bytes list \<Rightarrow> bytes \<Rightarrow> profile_option list" where
  "available_profiles choices power_source =
     filter (\<lambda>opt. opt_value opt \<in> set choices \<and> opt_value opt \<in> set (permitted_profiles power_source))
       profile_options"

section \<open>Laws\<close>

lemma find_option_value [simp]: "opt_value (find_option v opts) = v"
  by (induction opts) auto

lemma profile_for_value_value [simp]: "opt_value (profile_for_value v) = v"
  by (simp add: profile_for_value_def)

lemma distinct_profile_values: "distinct (map opt_value profile_options)"
  by (simp add: profile_options_def)

lemma distinct_available: "distinct (map opt_value (available_profiles choices source))"
  unfolding available_profiles_def by (rule distinct_map_filter [OF distinct_profile_values])

lemma available_order:
  "map opt_value (available_profiles choices source) =
     filter (\<lambda>v. v \<in> set choices \<inter> set (permitted_profiles source)) (map opt_value profile_options)"
  by (simp add: available_profiles_def filter_map comp_def)

lemma permitted_known: "set (permitted_profiles source) \<subseteq> set (map opt_value profile_options)"
  by (simp add: permitted_profiles_def profile_options_def)

lemma available_values:
  "opt_value ` set (available_profiles choices source) = set choices \<inter> set (permitted_profiles source)"
proof -
  have "opt_value ` set (available_profiles choices source) =
      {v \<in> set (map opt_value profile_options). v \<in> set choices \<inter> set (permitted_profiles source)}"
    by (simp only: set_map [symmetric] available_order set_filter)
  then show ?thesis using permitted_known [of source] by blast
qed

lemma available_iff:
  "(\<exists>opt\<in>set (available_profiles choices source). opt_value opt = v) \<longleftrightarrow>
     v \<in> set choices \<and> v \<in> set (permitted_profiles source)"
  using available_values [of choices source] by (metis Int_iff image_iff)

lemma permitted_cases:
  "v \<in> set (permitted_profiles source) \<Longrightarrow>
     v = ''balanced'' \<or> source = ''ac'' \<or> (source = ''battery'' \<and> v = ''low-power'')"
  by (auto simp: permitted_profiles_def split: if_splits)

end
