(* ===== verification/Go_Path.thy ===== *)
theory Go_Path
  imports Go_Strings
begin

text \<open>
  Go's \<open>path\<close> package (and \<open>path/filepath\<close>, which is the same on Unix): \<open>Clean\<close> and
  \<open>Join\<close>. \<open>Clean\<close> is modelled on the slash-separated elements, with a stack of the elements
  kept so far; \<open>path_elems\<close> is that stack for a whole path.
\<close>

abbreviation slash :: char where
  "slash \<equiv> CHR ''/''"

definition dotdot :: bytes where
  "dotdot = ''..''"

definition rooted :: "bytes \<Rightarrow> bool" where
  "rooted p \<longleftrightarrow> has_prefix p [slash]"

text \<open>
  Elements are pushed on a reversed stack: empty ones and \<open>.\<close> are dropped; \<open>..\<close> removes
  the element before it, is dropped at the root, and is kept at the start of a relative path.
\<close>

fun clean_elems :: "bool \<Rightarrow> bytes list \<Rightarrow> bytes list \<Rightarrow> bytes list" where
  "clean_elems r out [] = rev out"
| "clean_elems r out (e # es) =
     (if e = [] \<or> e = ''.'' then clean_elems r out es
      else if e = dotdot then
        (if out \<noteq> [] \<and> hd out \<noteq> dotdot then clean_elems r (tl out) es
         else if r then clean_elems r out es
         else clean_elems r (dotdot # out) es)
      else clean_elems r (e # out) es)"

definition path_elems :: "bytes \<Rightarrow> bytes list" where
  "path_elems p = clean_elems (rooted p) [] (split slash p)"

definition render :: "bool \<Rightarrow> bytes list \<Rightarrow> bytes" where
  "render r es = (if r then slash # join [slash] es else if es = [] then ''.'' else join [slash] es)"

definition path_clean :: "bytes \<Rightarrow> bytes" where
  "path_clean p = render (rooted p) (path_elems p)"

text \<open>\<open>Join\<close> starts at its first non-empty argument.\<close>

definition path_join :: "bytes list \<Rightarrow> bytes" where
  "path_join ps =
     (case dropWhile (\<lambda>p. p = []) ps of [] \<Rightarrow> [] | qs \<Rightarrow> path_clean (join [slash] qs))"

section \<open>What a clean path is made of\<close>

text \<open>An ordinary element: a name that neither disappears nor climbs.\<close>

definition plain_elem :: "bytes \<Rightarrow> bool" where
  "plain_elem e \<longleftrightarrow> e \<noteq> [] \<and> e \<noteq> ''.'' \<and> e \<noteq> dotdot \<and> slash \<notin> set e"

lemma clean_elems_plain:
  "\<forall>e\<in>set es. plain_elem e \<Longrightarrow> clean_elems r out es = rev out @ es"
  by (induction es arbitrary: out) (auto simp: plain_elem_def)

lemma clean_elems_append:
  "clean_elems r out (es @ fs) = clean_elems r (rev (clean_elems r out es)) fs"
  by (induction r out es rule: clean_elems.induct) auto

lemma clean_elems_rooted_plain:
  "\<lbrakk>\<forall>e\<in>set out. plain_elem e; \<forall>e\<in>set es. slash \<notin> set e\<rbrakk>
   \<Longrightarrow> e \<in> set (clean_elems True out es) \<Longrightarrow> plain_elem e"
proof (induction "True" out es rule: clean_elems.induct)
  case (2 out e es)
  then show ?case
    by (cases out) (auto simp: plain_elem_def split: if_splits)
qed auto

text \<open>
  In a relative path the climbing elements come first: once an ordinary element is on the
  stack, \<open>..\<close> only removes it.
\<close>

definition climbs_then_plain :: "bytes list \<Rightarrow> bool" where
  "climbs_then_plain es \<longleftrightarrow>
     (\<exists>n fs. es = replicate n dotdot @ fs \<and> (\<forall>e\<in>set fs. plain_elem e))"

lemma climbs_then_plain_snoc:
  assumes "climbs_then_plain es"
  shows "plain_elem e \<Longrightarrow> climbs_then_plain (es @ [e])"
    and "es \<noteq> [] \<Longrightarrow> climbs_then_plain (butlast es)"
    and "es = [] \<or> last es = dotdot \<Longrightarrow> climbs_then_plain (es @ [dotdot])"
proof -
  obtain n fs where es: "es = replicate n dotdot @ fs" and fs: "\<forall>e\<in>set fs. plain_elem e"
    using assms by (auto simp: climbs_then_plain_def)
  show "climbs_then_plain (es @ [e])" if "plain_elem e"
    unfolding climbs_then_plain_def
    by (rule exI [of _ n], rule exI [of _ "fs @ [e]"]) (use es fs that in auto)
  show "climbs_then_plain (butlast es)" if "es \<noteq> []"
  proof (cases "fs = []")
    case True
    with es that obtain m where "n = Suc m" by (cases n) auto
    with True es have "butlast es = replicate m dotdot @ []"
      by (simp add: replicate_append_same [symmetric])
    then show ?thesis unfolding climbs_then_plain_def by fastforce
  next
    case False
    with es have "butlast es = replicate n dotdot @ butlast fs" by (simp add: butlast_append)
    then show ?thesis unfolding climbs_then_plain_def
      using fs by (metis in_set_butlastD)
  qed
  show "climbs_then_plain (es @ [dotdot])" if "es = [] \<or> last es = dotdot"
  proof -
    have "fs = []"
      using that es fs by (cases fs rule: rev_cases) (auto simp: plain_elem_def)
    with es have "es @ [dotdot] = replicate (Suc n) dotdot @ []"
      by (simp add: replicate_append_same)
    then show ?thesis unfolding climbs_then_plain_def by fastforce
  qed
qed

lemma clean_elems_relative:
  assumes "climbs_then_plain (rev out)" "\<forall>e\<in>set es. slash \<notin> set e"
  shows "climbs_then_plain (clean_elems False out es)"
  using assms
proof (induction "False" out es rule: clean_elems.induct)
  case (1 out)
  then show ?case by simp
next
  case (2 out e es)
  have "climbs_then_plain (rev (tl out))" if "out \<noteq> []"
    using climbs_then_plain_snoc(2) [OF "2.prems"(1)] that by (simp add: butlast_rev)
  moreover have "climbs_then_plain (rev (dotdot # out))" if "out = [] \<or> hd out = dotdot"
    using climbs_then_plain_snoc(3) [OF "2.prems"(1)] that by (auto simp: last_rev)
  moreover have "climbs_then_plain (rev (e # out))" if "plain_elem e"
    using climbs_then_plain_snoc(1) [OF "2.prems"(1) that] by simp
  ultimately show ?case
    using 2 by (auto simp: plain_elem_def)
qed

definition clean_form :: "bool \<Rightarrow> bytes list \<Rightarrow> bool" where
  "clean_form r es \<longleftrightarrow> (if r then (\<forall>e\<in>set es. plain_elem e) else climbs_then_plain es)"

lemma clean_form_path_elems [path_facts]: "clean_form (rooted p) (path_elems p)"
proof (cases "rooted p")
  case True
  then show ?thesis
    using clean_elems_rooted_plain [of "[]" "split slash p"] split_parts_no_sep [of _ slash p]
    by (auto simp: clean_form_def path_elems_def)
next
  case False
  have "climbs_then_plain (clean_elems False [] (split slash p))"
    by (rule clean_elems_relative) (auto simp: climbs_then_plain_def dest: split_parts_no_sep)
  with False show ?thesis by (simp add: clean_form_def path_elems_def)
qed

lemma clean_form_no_slash: "clean_form r es \<Longrightarrow> e \<in> set es \<Longrightarrow> slash \<notin> set e \<and> e \<noteq> []"
proof -
  assume "clean_form r es" "e \<in> set es"
  then have "plain_elem e \<or> e = dotdot"
    by (fastforce simp: clean_form_def climbs_then_plain_def split: if_splits)
  then show ?thesis by (auto simp: plain_elem_def dotdot_def)
qed

lemma dotdot_neq [simp]: "dotdot \<noteq> []" "dotdot \<noteq> ''.''"
  by (simp_all add: dotdot_def)

lemma clean_elems_dotdots:
  "\<forall>e\<in>set out. e = dotdot \<Longrightarrow>
   clean_elems False out (replicate n dotdot @ fs) = clean_elems False (replicate n dotdot @ out) fs"
proof (induction n arbitrary: out)
  case (Suc n)
  then have "out = [] \<or> hd out = dotdot" by (cases out) auto
  moreover have "clean_elems False (dotdot # out) (replicate n dotdot @ fs) =
      clean_elems False (replicate n dotdot @ dotdot # out) fs"
    using Suc by simp
  ultimately show ?case by (auto simp: replicate_app_Cons_same)
qed simp

lemma clean_elems_clean_form: "clean_form r es \<Longrightarrow> clean_elems r [] es = es"
  using clean_elems_dotdots [of "[]"]
  by (auto simp: clean_form_def climbs_then_plain_def clean_elems_plain split: if_splits)

section \<open>Laws of Clean and Join\<close>

lemma rooted_simps [simp]: "\<not> rooted []" "rooted (c # s) \<longleftrightarrow> c = slash"
  by (simp_all add: rooted_def)

lemma rooted_render [simp]:
  assumes "clean_form r es" shows "rooted (render r es) = r"
proof (cases "r \<or> es = []")
  case True
  then show ?thesis by (auto simp: render_def)
next
  case False
  then obtain e fs where es: "es = e # fs" by (cases es) auto
  then have "slash \<notin> set e \<and> e \<noteq> []" using clean_form_no_slash [OF assms] by simp
  then obtain c t where "e = c # t" "c \<noteq> slash" by (cases e) auto
  with False es show ?thesis by (cases fs) (auto simp: render_def)
qed

lemma path_elems_render [simp]:
  assumes "clean_form r es" shows "path_elems (render r es) = es"
proof -
  have drop_Nil: "clean_elems r [] ([] # fs) = clean_elems r [] fs" for fs by simp
  have sp: "split slash (join [slash] es) = es" if "es \<noteq> []"
    using that clean_form_no_slash [OF assms] by (intro split_join) auto
  have "clean_elems r [] (split slash (render r es)) = es"
    using clean_elems_clean_form [OF assms]
    by (cases "es = []") (auto simp: render_def sp)
  then show ?thesis by (simp add: path_elems_def assms)
qed

lemma path_elems_clean [simp, path_facts]: "path_elems (path_clean p) = path_elems p"
  by (simp add: path_clean_def path_facts)

lemma rooted_clean [simp, path_facts]: "rooted (path_clean p) = rooted p"
  by (simp add: path_clean_def path_facts)

lemma path_clean_idem: "path_clean (path_clean p) = path_clean p"
proof -
  have "path_clean (path_clean p) = render (rooted (path_clean p)) (path_elems (path_clean p))"
    by (rule path_clean_def)
  also have "\<dots> = render (rooted p) (path_elems p)"
    by (simp only: path_elems_clean rooted_clean)
  also have "\<dots> = path_clean p" by (simp only: path_clean_def)
  finally show ?thesis .
qed

lemma path_elems_append_slash:
  assumes "p \<noteq> []"
  shows "path_elems (p @ slash # q) = clean_elems (rooted p) (rev (path_elems p)) (split slash q)"
proof -
  have "split slash (p @ slash # q) = split slash p @ split slash q" for p
    by (induction p) (auto split: list.splits simp: neq_Nil_conv)
  moreover have "rooted (p @ slash # q) = rooted p" using assms by (cases p) auto
  ultimately show ?thesis by (simp add: path_elems_def clean_elems_append)
qed

lemma path_join_two: "p \<noteq> [] \<Longrightarrow> path_join [p, q] = path_clean (p @ slash # q)"
  by (simp add: path_join_def)

lemma path_elems_join_two:
  "p \<noteq> [] \<Longrightarrow>
   path_elems (path_join [p, q]) = clean_elems (rooted p) (rev (path_elems p)) (split slash q)"
  by (simp add: path_join_two path_elems_append_slash)

text \<open>Joining an ordinary name to a directory appends it, so different names give different paths.\<close>

lemma path_elems_join_name:
  "p \<noteq> [] \<Longrightarrow> plain_elem e \<Longrightarrow> path_elems (path_join [p, e]) = path_elems p @ [e]"
  by (simp add: path_elems_join_two plain_elem_def)

lemma path_join_name_inject:
  assumes "p \<noteq> []" "plain_elem e" "plain_elem f"
  shows "path_join [p, e] = path_join [p, f] \<longleftrightarrow> e = f"
  by (metis assms last_snoc path_elems_join_name)


text \<open>Joining a clean relative path that does not climb to a directory appends its names.\<close>

lemma clean_elems_render:
  assumes "\<forall>e\<in>set names. plain_elem e"
  shows "clean_elems r out (split slash (render False names)) = rev out @ names"
proof (cases "names = []")
  case False
  with assms have "split slash (join [slash] names) = names"
    by (intro split_join) (auto simp: plain_elem_def)
  with assms False show ?thesis by (simp add: render_def clean_elems_plain)
qed (simp add: render_def)

lemma render_relative_not_Nil [simp]:
  assumes "\<forall>e\<in>set names. plain_elem e"
  shows "render False names \<noteq> []" "\<not> rooted (render False names)"
proof -
  have "clean_form False names"
    using assms by (auto simp: clean_form_def climbs_then_plain_def intro: exI [of _ 0])
  then show "\<not> rooted (render False names)" by simp
  show "render False names \<noteq> []"
    using assms by (cases names; cases "tl names") (auto simp: render_def plain_elem_def)
qed

lemma path_join_names:
  assumes "\<forall>e\<in>set names. plain_elem e"
  shows "path_elems (path_join [root, render False names]) = path_elems root @ names"
    and "rooted (path_join [root, render False names]) = rooted root"
proof -
  have "path_elems (path_join [root, render False names]) = path_elems root @ names \<and>
      rooted (path_join [root, render False names]) = rooted root"
  proof (cases "root = []")
    case True
    with assms show ?thesis
      by (simp add: path_join_def) (simp add: path_elems_def clean_elems_render)
  next
    case False
    moreover from False have "rooted (root @ slash # render False names) = rooted root"
      by (cases root) auto
    ultimately show ?thesis
      using assms by (simp add: path_elems_append_slash clean_elems_render path_join_two)
  qed
  then show "path_elems (path_join [root, render False names]) = path_elems root @ names"
    "rooted (path_join [root, render False names]) = rooted root" by auto
qed

end
