(* ===== verification/Sysfs_FS.thy ===== *)
theory Sysfs_FS
  imports Go_Path "HOL-Library.List_Lexorder" "HOL-Library.Char_ord"
begin

text \<open>
  The file-system interface of \<open>internal/sysfs/fs.go\<close> as a record of operations over an
  abstract world \<open>'w\<close>, its implementation \<open>OSFileSystem\<close> over the operations of package
  \<open>os\<close> (a parameter: they are the kernel), and the in-memory implementation that the
  repository's tests use. Reading does not change the world; writing returns the new one, also
  when it fails.
\<close>

datatype fs_error = Path_Escapes | Not_Exist | Os_Error bytes

record dir_entry =
  entry_name :: bytes
  entry_is_dir :: bool
  entry_is_symlink :: bool

record 'w fs_ops =
  fs_read :: "'w \<Rightarrow> bytes \<Rightarrow> (fs_error, bytes) result"
  fs_write :: "'w \<Rightarrow> bytes \<Rightarrow> bytes \<Rightarrow> fs_error option \<times> 'w"
  fs_readdir :: "'w \<Rightarrow> bytes \<Rightarrow> (fs_error, dir_entry list) result"
  fs_stat :: "'w \<Rightarrow> bytes \<Rightarrow> (fs_error, unit) result"

section \<open>OSFileSystem\<close>

text \<open>
  \<open>os_open\<close> is \<open>os.OpenFile\<close> with \<open>O_WRONLY|O_TRUNC\<close> and \<open>os_write\<close> the write on the
  open file; both may change the world and fail.
\<close>

record 'w os_ops =
  os_read_file :: "'w \<Rightarrow> bytes \<Rightarrow> (fs_error, bytes) result"
  os_open :: "'w \<Rightarrow> bytes \<Rightarrow> fs_error option \<times> 'w"
  os_write :: "'w \<Rightarrow> bytes \<Rightarrow> bytes \<Rightarrow> fs_error option \<times> 'w"
  os_read_dir :: "'w \<Rightarrow> bytes \<Rightarrow> (fs_error, dir_entry list) result"
  os_stat :: "'w \<Rightarrow> bytes \<Rightarrow> (fs_error, unit) result"

definition strip_separators :: "bytes \<Rightarrow> bytes" where
  "strip_separators p = dropWhile (\<lambda>c. c = slash \<or> c = CHR 0x5C) p"

definition resolve :: "bytes \<Rightarrow> bytes \<Rightarrow> (fs_error, bytes) result" where
  "resolve root relative =
     (let cleaned = path_clean (strip_separators relative)
      in if cleaned = ''.'' \<or> cleaned = [] then Inr (path_clean root)
         else if cleaned = dotdot \<or> has_prefix cleaned (dotdot @ [slash]) then Inl Path_Escapes
         else Inr (path_join [root, cleaned]))"

definition os_fs_write ::
  "bytes \<Rightarrow> 'w os_ops \<Rightarrow> 'w \<Rightarrow> bytes \<Rightarrow> bytes \<Rightarrow> fs_error option \<times> 'w" where
  "os_fs_write root os w p d =
     (case resolve root p of
        Inl e \<Rightarrow> (Some e, w)
      | Inr q \<Rightarrow>
          (case os_open os w q of
             (Some e, w') \<Rightarrow> (Some e, w')
           | (None, w') \<Rightarrow> os_write os w' q d))"

definition os_file_system :: "bytes \<Rightarrow> 'w os_ops \<Rightarrow> 'w fs_ops" where
  "os_file_system root os =
     \<lparr>fs_read = (\<lambda>w p. result_bind (resolve root p) (os_read_file os w)),
      fs_write = os_fs_write root os,
      fs_readdir = (\<lambda>w p. result_bind (resolve root p) (os_read_dir os w)),
      fs_stat = (\<lambda>w p. result_bind (resolve root p) (os_stat os w))\<rparr>"

section \<open>Confinement to the root\<close>

text \<open>A path lies below a root when its clean form is the root's followed by ordinary names.\<close>

definition below :: "bytes \<Rightarrow> bytes \<Rightarrow> bool" where
  "below root p \<longleftrightarrow>
     rooted p = rooted root \<and>
     (\<exists>names. path_elems p = path_elems root @ names \<and> (\<forall>e\<in>set names. plain_elem e))"

lemma strip_separators_not_rooted: "\<not> rooted (strip_separators p)"
  unfolding strip_separators_def by (induction p) auto

lemma climbs_render:
  assumes "climbs_then_plain es" "es \<noteq> []" "hd es = dotdot"
  shows "render False es = dotdot \<or> has_prefix (render False es) (dotdot @ [slash])"
  using assms by (cases es; cases "tl es") (auto simp: render_def has_prefix_iff)

lemma climbs_then_plain_hd:
  "climbs_then_plain es \<Longrightarrow> es = [] \<or> hd es \<noteq> dotdot \<Longrightarrow> \<forall>e\<in>set es. plain_elem e"
proof -
  assume "climbs_then_plain es" and hd: "es = [] \<or> hd es \<noteq> dotdot"
  then obtain n fs where es: "es = replicate n dotdot @ fs" "\<forall>e\<in>set fs. plain_elem e"
    by (auto simp: climbs_then_plain_def)
  with hd have "n = 0" by (cases n) auto
  with es show ?thesis by simp
qed

lemma resolve_below:
  assumes "resolve root rel = Inr p" shows "below root p"
proof -
  let ?s = "strip_separators rel" and ?c = "path_clean (strip_separators rel)"
  have form: "climbs_then_plain (path_elems ?s)"
    using clean_form_path_elems [of ?s] by (simp add: clean_form_def strip_separators_not_rooted)
  have c: "?c = render False (path_elems ?s)"
    by (simp add: path_clean_def strip_separators_not_rooted)
  consider "p = path_clean root"
    | "p = path_join [root, ?c]" "?c \<noteq> dotdot" "\<not> has_prefix ?c (dotdot @ [slash])"
    using assms by (auto simp: resolve_def Let_def split: if_splits)
  then show ?thesis
  proof cases
    case 1
    then show ?thesis by (simp add: below_def)
  next
    case 2
    have "path_elems ?s = [] \<or> hd (path_elems ?s) \<noteq> dotdot"
      using climbs_render [OF form] 2 unfolding c by blast
    with form have names: "\<forall>e\<in>set (path_elems ?s). plain_elem e"
      by (simp add: climbs_then_plain_hd)
    with 2 path_join_names [OF names, of root] show ?thesis
      unfolding c by (auto simp: below_def)
  qed
qed

lemma resolve_bind_cong:
  "(\<And>q. below root q \<Longrightarrow> f q = g q) \<Longrightarrow> result_bind (resolve root p) f = result_bind (resolve root p) g"
  using resolve_below [of root p] by (cases "resolve root p") auto

text \<open>
  Two kernels that agree below the root give the same file system: nothing outside the root
  is ever read, listed or written.
\<close>

lemma os_file_system_cong:
  assumes "\<And>w p. below root p \<Longrightarrow> os_read_file os1 w p = os_read_file os2 w p"
    and "\<And>w p. below root p \<Longrightarrow> os_open os1 w p = os_open os2 w p"
    and "\<And>w p d. below root p \<Longrightarrow> os_write os1 w p d = os_write os2 w p d"
    and "\<And>w p. below root p \<Longrightarrow> os_read_dir os1 w p = os_read_dir os2 w p"
    and "\<And>w p. below root p \<Longrightarrow> os_stat os1 w p = os_stat os2 w p"
  shows "os_file_system root os1 = os_file_system root os2"
proof -
  have "os_fs_write root os1 w p d = os_fs_write root os2 w p d" for w p d
    using assms(2,3) resolve_below [of root p]
    by (auto simp: os_fs_write_def split: sum.splits option.splits prod.splits)
  then show ?thesis
    unfolding os_file_system_def using assms(1,4,5)
    by (auto intro!: ext resolve_bind_cong)
qed

text \<open>A path of ordinary names is accepted and names the file of that path below the root.\<close>

lemma resolve_names:
  assumes "names \<noteq> []" "\<forall>e\<in>set names. plain_elem e" "hd (hd names) \<noteq> CHR 0x5C"
  shows "\<exists>p. resolve root (join [slash] names) = Inr p \<and> path_elems p = path_elems root @ names"
proof -
  let ?p = "join [slash] names"
  have p: "?p = render False names" using assms(1) by (simp add: render_def)
  have form: "clean_form False names"
    using assms(2) by (auto simp: clean_form_def climbs_then_plain_def intro: exI [of _ 0])
  have rel: "\<not> rooted ?p" "path_elems ?p = names" "?p \<noteq> []"
    using assms(2) form by (simp_all add: p)
  then have c: "path_clean ?p = ?p" by (simp add: path_clean_def p)
  obtain e es where e: "names = e # es" "e \<noteq> []" "e \<noteq> dotdot" "e \<noteq> ''.''"
    using assms(1,2) by (cases names) (auto simp: plain_elem_def)
  have sp: "split slash ?p = names"
    using assms(1,2) by (intro split_join) (auto simp: plain_elem_def)
  have "hd ?p = hd (hd names)" using e by (cases es) auto
  with assms(3) rel have strip: "strip_separators ?p = ?p"
    by (cases ?p) (auto simp: strip_separators_def)
  have "?p \<noteq> dotdot" "?p \<noteq> ''.''"
    using sp e by (auto simp: dotdot_def)
  moreover have "\<not> has_prefix ?p (dotdot @ [slash])"
    using sp e by (auto simp: has_prefix_iff dotdot_def)
  ultimately have "resolve root ?p = Inr (path_join [root, ?p])"
    using rel by (simp add: resolve_def strip c)
  with path_join_names(1) [OF assms(2), of root] show ?thesis by (simp add: p)
qed

section \<open>The in-memory file system of the tests\<close>

text \<open>
  The fixture \<open>mapFS\<close> of \<open>controller_test.go\<close> over \<open>fstest.MapFS\<close>: the world is an
  association list from paths to contents, directories are the proper prefixes of its paths,
  and a directory lists its children in order.
\<close>

type_synonym mem_world = "(bytes \<times> bytes) list"

definition mem_read :: "mem_world \<Rightarrow> bytes \<Rightarrow> (fs_error, bytes) result" where
  "mem_read w p = (case map_of w p of None \<Rightarrow> Inl Not_Exist | Some d \<Rightarrow> Inr d)"

definition mem_write :: "mem_world \<Rightarrow> bytes \<Rightarrow> bytes \<Rightarrow> fs_error option \<times> mem_world" where
  "mem_write w p d =
     (if p \<in> fst ` set w then (None, map (\<lambda>(q, c). (q, if q = p then d else c)) w)
      else (Some Not_Exist, w))"

definition mem_below :: "bytes list \<Rightarrow> bytes \<Rightarrow> bytes list list" where
  "mem_below paths dir =
     map (\<lambda>p. split slash (drop (Suc (length dir)) p))
       (filter (\<lambda>p. has_prefix p (dir @ [slash])) paths)"

definition mem_readdir :: "mem_world \<Rightarrow> bytes \<Rightarrow> (fs_error, dir_entry list) result" where
  "mem_readdir w dir =
     (let inside = mem_below (map fst w) dir;
          names = sort (remdups (map hd inside))
      in if names = [] then Inl Not_Exist
         else Inr (map (\<lambda>n. \<lparr>entry_name = n, entry_is_dir = (\<exists>es\<in>set inside. hd es = n \<and> tl es \<noteq> []),
                              entry_is_symlink = False\<rparr>) names))"

definition mem_stat :: "mem_world \<Rightarrow> bytes \<Rightarrow> (fs_error, unit) result" where
  "mem_stat w p =
     (if p \<in> fst ` set w \<or> mem_below (map fst w) p \<noteq> [] then Inr () else Inl Not_Exist)"

definition mem_fs :: "mem_world fs_ops" where
  "mem_fs = \<lparr>fs_read = mem_read, fs_write = mem_write, fs_readdir = mem_readdir, fs_stat = mem_stat\<rparr>"

section \<open>The contract of a storing file system\<close>

text \<open>
  What a client of the interface may count on when the device keeps what is written: a
  successful write is read back, with or without the newline that sysfs adds; no other
  attribute changes; a failed write changes nothing.
\<close>

locale store_fs =
  fixes ops :: "'w fs_ops"
  assumes write_stored: "fs_write ops w p d = (None, w') \<Longrightarrow>
      fs_read ops w' p = Inr d \<or> fs_read ops w' p = Inr (d @ [CHR 0x0A])"
    and write_other: "fs_write ops w p d = (None, w') \<Longrightarrow> q \<noteq> p \<Longrightarrow>
      fs_read ops w' q = fs_read ops w q"
    and write_tree: "fs_write ops w p d = (None, w') \<Longrightarrow>
      fs_readdir ops w' q = fs_readdir ops w q \<and> fs_stat ops w' q = fs_stat ops w q"
    and write_failed: "fs_write ops w p d = (Some e, w') \<Longrightarrow> w' = w"
begin

lemma write_overwrites:
  assumes "fs_write ops w p d = (None, w1)" "fs_write ops w1 p d' = (None, w2)"
  shows "fs_read ops w2 p = Inr d' \<or> fs_read ops w2 p = Inr (d' @ [CHR 0x0A])"
    and "q \<noteq> p \<Longrightarrow> fs_read ops w2 q = fs_read ops w q"
  using assms write_stored write_other by metis+

end

lemma map_of_update_values:
  "map_of (map (\<lambda>(q, c). (q, if q = p then d else c)) w) q =
     (if q = p then map_option (\<lambda>_. d) (map_of w q) else map_of w q)"
  by (induction w) auto

lemma fst_update_values: "map fst (map (\<lambda>(q, c). (q, if q = p then d else c)) w) = map fst w"
  by (induction w) auto

interpretation mem_store: store_fs mem_fs
proof unfold_locales
  fix w w' :: mem_world and p q d :: bytes and e :: fs_error
  {
    assume "fs_write mem_fs w p d = (None, w')"
    then have p: "p \<in> fst ` set w" and w': "w' = map (\<lambda>(q, c). (q, if q = p then d else c)) w"
      by (auto simp: mem_fs_def mem_write_def split: if_splits)
    from p have "map_of w p \<noteq> None" by (simp add: map_of_eq_None_iff)
    then show "fs_read mem_fs w' p = Inr d \<or> fs_read mem_fs w' p = Inr (d @ [CHR 0x0A])"
      by (auto simp: mem_fs_def mem_read_def w' map_of_update_values)
    show "fs_read mem_fs w' q = fs_read mem_fs w q" if "q \<noteq> p"
      using that by (simp add: mem_fs_def mem_read_def w' map_of_update_values)
    have "map fst w' = map fst w" unfolding w' by (rule fst_update_values)
    moreover from this have "fst ` set w' = fst ` set w" by (metis set_map)
    ultimately show "fs_readdir mem_fs w' q = fs_readdir mem_fs w q \<and>
        fs_stat mem_fs w' q = fs_stat mem_fs w q"
      by (simp add: mem_fs_def mem_readdir_def mem_stat_def)
  }
  show "w' = w" if "fs_write mem_fs w p d = (Some e, w')"
    using that by (simp add: mem_fs_def mem_write_def split: if_splits)
qed

end
