(* ===== verification/Go_Numbers.thy ===== *)
theory Go_Numbers
  imports Go_Strings
begin

text \<open>
  Decimal conversion as in Go's \<open>strconv\<close>: \<open>Itoa\<close> (and the \<open>%d\<close> verb), \<open>Atoi\<close>
  and \<open>ParseInt(_, 10, 64)\<close>. Go's \<open>int\<close> has 64 bits here, so parsing a value outside
  that range is an error, and every number that the program holds is in range.
\<close>

definition int64 :: "int \<Rightarrow> bool" where
  "int64 v \<longleftrightarrow> - (2 ^ 63) \<le> v \<and> v < 2 ^ 63"

section \<open>Printing\<close>

definition digit_char :: "nat \<Rightarrow> char" where
  "digit_char n = char_of (48 + n)"

fun nat_digits :: "nat \<Rightarrow> bytes" where
  "nat_digits n =
     (if n < 10 then [digit_char n] else nat_digits (n div 10) @ [digit_char (n mod 10)])"

declare nat_digits.simps [simp del]

definition itoa :: "int \<Rightarrow> bytes" where
  "itoa v = (if v < 0 then CHR ''-'' # nat_digits (nat (- v)) else nat_digits (nat v))"

section \<open>Parsing\<close>

definition digit_value :: "char \<Rightarrow> nat option" where
  "digit_value c =
     (if 48 \<le> byte_of c \<and> byte_of c \<le> 57 then Some (byte_of c - 48) else None)"

fun parse_digits :: "nat \<Rightarrow> bytes \<Rightarrow> nat option" where
  "parse_digits acc [] = Some acc"
| "parse_digits acc (c # s) =
     (case digit_value c of None \<Rightarrow> None | Some d \<Rightarrow> parse_digits (10 * acc + d) s)"

definition parse_nat :: "bytes \<Rightarrow> nat option" where
  "parse_nat s = (if s = [] then None else parse_digits 0 s)"

definition in_int64 :: "int \<Rightarrow> int option" where
  "in_int64 v = (if int64 v then Some v else None)"

definition atoi :: "bytes \<Rightarrow> int option" where
  "atoi s =
     (if has_prefix s ''-'' then
        (case parse_nat (tl s) of None \<Rightarrow> None | Some n \<Rightarrow> in_int64 (- int n))
      else
        (case parse_nat (if has_prefix s ''+'' then tl s else s) of
           None \<Rightarrow> None | Some n \<Rightarrow> in_int64 (int n)))"

text \<open>\<open>strconv.ParseBool\<close>, which accepts exactly these spellings.\<close>

definition parse_bool :: "bytes \<Rightarrow> bool option" where
  "parse_bool s =
     (if s \<in> {''1'', ''t'', ''T'', ''true'', ''TRUE'', ''True''} then Some True
      else if s \<in> {''0'', ''f'', ''F'', ''false'', ''FALSE'', ''False''} then Some False
      else None)"

section \<open>Laws\<close>

lemma digit_value_digit_char [simp]: "n < 10 \<Longrightarrow> digit_value (digit_char n) = Some n"
  by (simp add: digit_value_def digit_char_def)

lemma plain_digit_char [simp]: "n < 10 \<Longrightarrow> plain_char (digit_char n)"
  by (simp add: plain_char_def digit_char_def)

lemma byte_of_digit_char [simp]: "n < 10 \<Longrightarrow> byte_of (digit_char n) = 48 + n"
  by (simp add: digit_char_def)

lemma nat_digits_not_Nil [simp]: "nat_digits n \<noteq> []"
  by (subst nat_digits.simps) simp

lemma set_nat_digits: "c \<in> set (nat_digits n) \<Longrightarrow> 48 \<le> byte_of c \<and> byte_of c \<le> 57"
proof (induction n rule: nat_digits.induct)
  case (1 n)
  show ?case
  proof (cases "n < 10")
    case True
    with "1.prems" show ?thesis by (simp add: nat_digits.simps [of n])
  next
    case False
    with 1 show ?thesis by (auto simp: nat_digits.simps [of n])
  qed
qed

lemma plain_nat_digits [simp, plain_intros]: "plain (nat_digits n)"
  using set_nat_digits [of _ n] by (fastforce simp: plain_def list_all_iff plain_char_def)

lemma plain_itoa [simp, plain_intros]: "plain (itoa v)"
  by (simp add: itoa_def plain_char_def)

lemma itoa_not_Nil [simp]: "itoa v \<noteq> []"
  by (simp add: itoa_def)

lemma itoa_no_sep:
  assumes "byte_of c < 45 \<or> 57 < byte_of c" shows "c \<notin> set (itoa v)"
  using assms set_nat_digits [of c "nat v"] set_nat_digits [of c "nat (- v)"]
  by (auto simp: itoa_def)

lemma parse_digits_append:
  "parse_digits acc (s @ t) =
     (case parse_digits acc s of None \<Rightarrow> None | Some n \<Rightarrow> parse_digits n t)"
  by (induction acc s rule: parse_digits.induct) (auto split: option.splits)

lemma parse_digits_nat_digits [simp]: "parse_digits 0 (nat_digits n) = Some n"
proof (induction n rule: nat_digits.induct)
  case (1 n)
  show ?case
  proof (cases "n < 10")
    case True
    then show ?thesis by (simp add: nat_digits.simps [of n])
  next
    case False
    with 1 show ?thesis
      by (simp add: nat_digits.simps [of n] parse_digits_append)
  qed
qed

lemma parse_nat_nat_digits [simp]: "parse_nat (nat_digits n) = Some n"
  by (simp add: parse_nat_def)

lemma nat_digits_no_sign:
  "\<not> has_prefix (nat_digits n) ''-''" "\<not> has_prefix (nat_digits n) ''+''"
  using set_nat_digits [of "CHR ''-''" n] set_nat_digits [of "CHR ''+''" n]
  by (auto simp: has_prefix_iff)

lemma atoi_itoa: "int64 v \<Longrightarrow> atoi (itoa v) = Some v"
  by (auto simp: atoi_def itoa_def nat_digits_no_sign in_int64_def)

lemma atoi_int64: "atoi s = Some v \<Longrightarrow> int64 v"
  by (auto simp: atoi_def in_int64_def split: option.splits if_splits)

lemma atoi_Nil [simp]: "atoi [] = None"
  by (simp add: atoi_def parse_nat_def)

lemma itoa_inject: "int64 v \<Longrightarrow> int64 w \<Longrightarrow> itoa v = itoa w \<longleftrightarrow> v = w"
  by (metis atoi_itoa option.inject)

section \<open>Character classes\<close>

definition is_hex :: "char \<Rightarrow> bool" where
  "is_hex c \<longleftrightarrow>
     (48 \<le> byte_of c \<and> byte_of c \<le> 57) \<or> (97 \<le> byte_of c \<and> byte_of c \<le> 102)
     \<or> (65 \<le> byte_of c \<and> byte_of c \<le> 70)"

definition unhex :: "char \<Rightarrow> nat" where
  "unhex c =
     (if 48 \<le> byte_of c \<and> byte_of c \<le> 57 then byte_of c - 48
      else if 97 \<le> byte_of c \<and> byte_of c \<le> 102 then byte_of c - 87
      else byte_of c - 55)"

definition is_alpha :: "char \<Rightarrow> bool" where
  "is_alpha c \<longleftrightarrow> (97 \<le> byte_of c \<and> byte_of c \<le> 122) \<or> (65 \<le> byte_of c \<and> byte_of c \<le> 90)"

definition is_digit :: "char \<Rightarrow> bool" where
  "is_digit c \<longleftrightarrow> 48 \<le> byte_of c \<and> byte_of c \<le> 57"

end
