(* ===== verification/Codecs.thy ===== *)
theory Codecs
  imports Go_Numbers
begin

text \<open>
  The attribute codecs of \<open>internal/sysfs/codecs.go\<close>: fan speeds, the four-zone effect and
  the four-zone colours, each with its parser, its validator and its printer, in the order of
  the file. An error value carries what its message names.

  The locale \<open>setting_codec\<close> states what the three have in common; it is interpreted for each
  of them at the end, so that the controller can rely on one set of facts.
\<close>

datatype codec_error =
    Bad_Arity bytes
  | Not_An_Integer bytes
  | Out_Of_Range bytes int int
  | Bad_Direction
  | Bad_Rgb
  | Bad_Colour

section \<open>Ranges and hexadecimal colours\<close>

definition parse_range :: "bytes \<Rightarrow> int \<Rightarrow> int \<Rightarrow> bytes \<Rightarrow> (codec_error, int) result" where
  "parse_range raw min_value max_value label =
     (case atoi (trim_space raw) of
        None \<Rightarrow> Inl (Not_An_Integer label)
      | Some v \<Rightarrow>
          if v < min_value \<or> v > max_value then Inl (Out_Of_Range label min_value max_value)
          else Inr v)"

definition hex_char :: "char \<Rightarrow> bool" where
  "hex_char c \<longleftrightarrow>
     (48 \<le> byte_of c \<and> byte_of c \<le> 57)
     \<or> (97 \<le> byte_of c \<and> byte_of c \<le> 102) \<or> (65 \<le> byte_of c \<and> byte_of c \<le> 70)"

definition is_hex_color :: "bytes \<Rightarrow> bool" where
  "is_hex_color s \<longleftrightarrow> length s = 6 \<and> list_all hex_char s"

section \<open>Fan speeds\<close>

record fan_setting =
  fan_cpu :: int
  fan_gpu :: int

definition parse_fan_setting :: "bytes \<Rightarrow> (codec_error, fan_setting) result" where
  "parse_fan_setting raw =
     (case split CHR '','' (trim_space raw) of
        [p, q] \<Rightarrow>
          result_bind (parse_range p 0 100 ''CPU fan'') (\<lambda>cpu.
          result_bind (parse_range q 0 100 ''GPU fan'') (\<lambda>gpu.
          Inr \<lparr>fan_cpu = cpu, fan_gpu = gpu\<rparr>))
      | _ \<Rightarrow> Inl (Bad_Arity ''fan speed''))"

definition validate_fan :: "fan_setting \<Rightarrow> codec_error option" where
  "validate_fan f =
     (if fan_cpu f < 0 \<or> fan_cpu f > 100 then Some (Out_Of_Range ''CPU fan'' 0 100)
      else if fan_gpu f < 0 \<or> fan_gpu f > 100 then Some (Out_Of_Range ''GPU fan'' 0 100)
      else None)"

definition print_fan :: "fan_setting \<Rightarrow> bytes" where
  "print_fan f = itoa (fan_cpu f) @ '','' @ itoa (fan_gpu f)"

section \<open>Keyboard effects\<close>

record effect_setting =
  eff_mode :: int
  eff_speed :: int
  eff_brightness :: int
  eff_direction :: int
  eff_red :: int
  eff_green :: int
  eff_blue :: int

text \<open>
  The limits of the read side. The device reports direction \<open>0\<close> for modes without one, so
  reading accepts it; \<open>validate_effect\<close>, the write side, does not.
\<close>

definition effect_limits :: "(bytes \<times> int \<times> int) list" where
  "effect_limits =
     [(''mode'', 0, 7), (''speed'', 0, 9), (''brightness'', 0, 100), (''direction'', 0, 2),
      (''red'', 0, 255), (''green'', 0, 255), (''blue'', 0, 255)]"

text \<open>The loop over the parts: part \<open>i\<close> against limit \<open>i\<close>, stopping at the first error.\<close>

fun parse_parts :: "(bytes \<times> int \<times> int) list \<Rightarrow> bytes list \<Rightarrow> (codec_error, int list) result" where
  "parse_parts ((label, lo, hi) # limits) (part # parts) =
     result_bind (parse_range part lo hi label) (\<lambda>v.
     result_bind (parse_parts limits parts) (\<lambda>vs. Inr (v # vs)))"
| "parse_parts _ _ = Inr []"

fun effect_of_values :: "int list \<Rightarrow> effect_setting option" where
  "effect_of_values [m, s, b, d, r, g, bl] =
     Some \<lparr>eff_mode = m, eff_speed = s, eff_brightness = b, eff_direction = d,
           eff_red = r, eff_green = g, eff_blue = bl\<rparr>"
| "effect_of_values _ = None"

definition parse_effect_setting :: "bytes \<Rightarrow> (codec_error, effect_setting) result" where
  "parse_effect_setting raw =
     (let parts = split CHR '','' (trim_space raw)
      in if length parts \<noteq> 7 then Inl (Bad_Arity ''keyboard effect'')
         else result_bind (parse_parts effect_limits parts) (\<lambda>values.
                case effect_of_values values of
                  None \<Rightarrow> Inl (Bad_Arity ''keyboard effect'')
                | Some e \<Rightarrow> Inr e))"

definition validate_effect :: "effect_setting \<Rightarrow> codec_error option" where
  "validate_effect e =
     (if eff_mode e < 0 \<or> eff_mode e > 7 then Some (Out_Of_Range ''mode'' 0 7)
      else if eff_speed e < 0 \<or> eff_speed e > 9 then Some (Out_Of_Range ''speed'' 0 9)
      else if eff_brightness e < 0 \<or> eff_brightness e > 100
        then Some (Out_Of_Range ''brightness'' 0 100)
      else if eff_direction e < 1 \<or> eff_direction e > 2 then Some Bad_Direction
      else if eff_red e < 0 \<or> eff_red e > 255 \<or> eff_green e < 0 \<or> eff_green e > 255
        \<or> eff_blue e < 0 \<or> eff_blue e > 255 then Some Bad_Rgb
      else None)"

definition print_effect :: "effect_setting \<Rightarrow> bytes" where
  "print_effect e =
     itoa (eff_mode e) @ '','' @ itoa (eff_speed e) @ '','' @ itoa (eff_brightness e) @ '','' @
     itoa (eff_direction e) @ '','' @ itoa (eff_red e) @ '','' @ itoa (eff_green e) @ '','' @
     itoa (eff_blue e)"

section \<open>Keyboard zones\<close>

record zone_setting =
  zone1 :: bytes
  zone2 :: bytes
  zone3 :: bytes
  zone4 :: bytes
  zone_brightness :: int

definition zone_colors :: "zone_setting \<Rightarrow> bytes list" where
  "zone_colors z = [zone1 z, zone2 z, zone3 z, zone4 z]"

definition parse_zone_setting :: "bytes \<Rightarrow> (codec_error, zone_setting) result" where
  "parse_zone_setting raw =
     (case split CHR '','' (trim_space raw) of
        [p1, p2, p3, p4, p5] \<Rightarrow>
          (let z = \<lparr>zone1 = to_lower p1, zone2 = to_lower p2, zone3 = to_lower p3,
                    zone4 = to_lower p4, zone_brightness = 0\<rparr>
           in if \<exists>c\<in>set (zone_colors z). \<not> is_hex_color c then Inl Bad_Colour
              else result_bind (parse_range p5 0 100 ''brightness'')
                     (\<lambda>b. Inr (z\<lparr>zone_brightness := b\<rparr>)))
      | _ \<Rightarrow> Inl (Bad_Arity ''per-zone value''))"

definition validate_zone :: "zone_setting \<Rightarrow> codec_error option" where
  "validate_zone z =
     (if \<exists>c\<in>set (zone_colors z). \<not> is_hex_color c then Some Bad_Colour
      else if zone_brightness z < 0 \<or> zone_brightness z > 100
        then Some (Out_Of_Range ''brightness'' 0 100)
      else None)"

definition print_zone :: "zone_setting \<Rightarrow> bytes" where
  "print_zone z =
     to_lower (zone1 z) @ '','' @ to_lower (zone2 z) @ '','' @ to_lower (zone3 z) @ '','' @
     to_lower (zone4 z) @ '','' @ itoa (zone_brightness z)"

section \<open>The contract of a codec\<close>

text \<open>
  \<open>readable\<close> describes the values a parser returns, \<open>validate\<close> is the check before a
  write, and \<open>canon\<close> is the spelling the printer chooses (lower-case colours).
\<close>

locale setting_codec =
  fixes parse :: "bytes \<Rightarrow> (codec_error, 'a) result"
    and print_setting :: "'a \<Rightarrow> bytes"
    and validate :: "'a \<Rightarrow> codec_error option"
    and readable :: "'a \<Rightarrow> bool"
    and canon :: "'a \<Rightarrow> 'a"
  assumes parse_print: "readable x \<Longrightarrow> parse (print_setting x) = Inr (canon x)"
    and parse_newline: "plain s \<Longrightarrow> s \<noteq> [] \<Longrightarrow> parse (s @ [CHR 0x0A]) = parse s"
    and parse_readable: "parse s = Inr x \<Longrightarrow> readable x \<and> canon x = x"
    and print_plain: "readable x \<Longrightarrow> plain (print_setting x) \<and> print_setting x \<noteq> []"
    and print_canon: "readable x \<Longrightarrow> print_setting (canon x) = print_setting x"
    and validate_readable: "validate x = None \<Longrightarrow> readable x"
    and validate_canon: "validate x = None \<Longrightarrow> validate (canon x) = None"
begin

text \<open>What a device that stores the attribute verbatim reports back, with its newline.\<close>

lemma read_back:
  assumes "readable x"
  shows "parse (print_setting x @ [CHR 0x0A]) = Inr (canon x)"
  using assms print_plain by (simp add: parse_newline parse_print)

lemma parse_stable:
  assumes "parse s = Inr x"
  shows "parse (print_setting x) = Inr x"
  using parse_readable [OF assms] by (auto simp: parse_print)

lemma print_inj:
  assumes "readable x" "readable y" "print_setting x = print_setting y"
  shows "canon x = canon y"
  using assms by (metis parse_print Inr_inject)

lemma canon_idem:
  assumes "readable x" shows "canon (canon x) = canon x"
  using parse_readable [OF parse_print [OF assms]] by simp

lemma written_is_readable:
  assumes "validate x = None"
  shows "\<exists>y. parse (print_setting x) = Inr y \<and> validate y = None \<and> print_setting y = print_setting x"
  using assms validate_readable validate_canon parse_print print_canon by blast

end

section \<open>The three codecs keep the contract\<close>

lemma parse_range_Inr:
  "parse_range raw lo hi l = Inr v \<longleftrightarrow> atoi (trim_space raw) = Some v \<and> lo \<le> v \<and> v \<le> hi"
  by (auto simp: parse_range_def split: option.splits if_splits)

lemma parse_range_itoa:
  "lo \<le> v \<Longrightarrow> v \<le> hi \<Longrightarrow> - (2 ^ 63) \<le> lo \<Longrightarrow> hi < 2 ^ 63 \<Longrightarrow>
   parse_range (itoa v) lo hi l = Inr v"
  by (simp add: parse_range_Inr atoi_itoa int64_def)

lemma comma_not_in_itoa [simp]: "CHR '','' \<notin> set (itoa v)"
  by (rule itoa_no_sep) simp

lemma hex_char_plain: "hex_char c \<Longrightarrow> plain_char c"
  by (auto simp: hex_char_def plain_char_def)

lemma hex_char_lower [simp]: "hex_char c \<Longrightarrow> hex_char (lower_char c)"
  by (auto simp: hex_char_def lower_char_def)

lemma is_hex_color_ascii: "is_hex_color s \<Longrightarrow> ascii s"
  by (auto simp: is_hex_color_def ascii_def list_all_iff hex_char_def)

lemma is_hex_color_lower: "is_hex_color s \<Longrightarrow> is_hex_color (to_lower s)"
  by (auto simp: is_hex_color_ascii to_lower_ascii)
    (auto simp: is_hex_color_def list_all_iff)

lemma is_hex_color_plain: "is_hex_color s \<Longrightarrow> plain s"
  by (auto simp: is_hex_color_def plain_def list_all_iff hex_char_plain)

lemma is_hex_color_no_comma: "is_hex_color s \<Longrightarrow> CHR '','' \<notin> set s"
  by (auto simp: is_hex_color_def list_all_iff hex_char_def)

lemmas hex_color_facts =
  is_hex_color_lower is_hex_color_plain is_hex_color_no_comma is_hex_color_ascii to_lower_idem_ascii

definition readable_fan :: "fan_setting \<Rightarrow> bool" where
  "readable_fan f \<longleftrightarrow> 0 \<le> fan_cpu f \<and> fan_cpu f \<le> 100 \<and> 0 \<le> fan_gpu f \<and> fan_gpu f \<le> 100"

lemma validate_fan_iff: "validate_fan f = None \<longleftrightarrow> readable_fan f"
  by (auto simp: validate_fan_def readable_fan_def)

lemma parse_fan_print:
  "readable_fan f \<Longrightarrow> parse_fan_setting (print_fan f) = Inr f"
  by (simp add: readable_fan_def parse_fan_setting_def print_fan_def plain_char_def parse_range_itoa)

lemma parse_fan_readable: "parse_fan_setting s = Inr f \<Longrightarrow> readable_fan f"
  by (auto simp: parse_fan_setting_def readable_fan_def parse_range_Inr result_simps
      split: list.splits)

lemma plain_print_fan [simp]: "plain (print_fan f)" "print_fan f \<noteq> []"
  by (simp_all add: print_fan_def plain_char_def)

interpretation fan_codec: setting_codec parse_fan_setting print_fan validate_fan readable_fan "\<lambda>f. f"
proof unfold_locales
  show "parse_fan_setting (s @ [CHR 0x0A]) = parse_fan_setting s" if "plain s" "s \<noteq> []" for s
    using that by (simp add: parse_fan_setting_def)
qed (simp_all add: parse_fan_print parse_fan_readable validate_fan_iff)

definition readable_effect :: "effect_setting \<Rightarrow> bool" where
  "readable_effect e \<longleftrightarrow>
     0 \<le> eff_mode e \<and> eff_mode e \<le> 7 \<and> 0 \<le> eff_speed e \<and> eff_speed e \<le> 9 \<and>
     0 \<le> eff_brightness e \<and> eff_brightness e \<le> 100 \<and>
     0 \<le> eff_direction e \<and> eff_direction e \<le> 2 \<and>
     0 \<le> eff_red e \<and> eff_red e \<le> 255 \<and> 0 \<le> eff_green e \<and> eff_green e \<le> 255 \<and>
     0 \<le> eff_blue e \<and> eff_blue e \<le> 255"

lemma validate_effect_iff:
  "validate_effect e = None \<longleftrightarrow> readable_effect e \<and> eff_direction e \<noteq> 0"
  by (auto simp: validate_effect_def readable_effect_def)

lemma split_print_effect:
  "split CHR '','' (print_effect e) =
     map itoa [eff_mode e, eff_speed e, eff_brightness e, eff_direction e,
               eff_red e, eff_green e, eff_blue e]"
  by (simp add: print_effect_def)

lemma plain_print_effect [simp]: "plain (print_effect e)"
  by (simp add: print_effect_def plain_char_def)

lemma parse_effect_print:
  "readable_effect e \<Longrightarrow> parse_effect_setting (print_effect e) = Inr e"
  by (simp add: parse_effect_setting_def split_print_effect readable_effect_def effect_limits_def
      parse_range_itoa)

lemma length_parse_parts:
  "parse_parts limits parts = Inr vs \<Longrightarrow> length vs = min (length limits) (length parts)"
  by (induction limits parts arbitrary: vs rule: parse_parts.induct) (auto simp: result_simps)

lemma parse_effect_readable:
  assumes "parse_effect_setting s = Inr e" shows "readable_effect e"
proof -
  obtain a b c d f g h where p: "split CHR '','' (trim_space s) = [a, b, c, d, f, g, h]"
    using assms
    by (auto simp: parse_effect_setting_def Let_def eval_nat_numeral length_Suc_conv
        split: if_splits)
  with assms show ?thesis
    by (auto simp: parse_effect_setting_def effect_limits_def result_simps parse_range_Inr
        readable_effect_def)
qed

interpretation effect_codec:
  setting_codec parse_effect_setting print_effect validate_effect readable_effect "\<lambda>e. e"
proof unfold_locales
  show "parse_effect_setting (s @ [CHR 0x0A]) = parse_effect_setting s" if "plain s" "s \<noteq> []" for s
    using that by (simp add: parse_effect_setting_def)
  show "plain (print_effect e) \<and> print_effect e \<noteq> []" for e
    by simp (simp add: print_effect_def)
qed (simp_all add: parse_effect_print parse_effect_readable validate_effect_iff)

definition canon_zone :: "zone_setting \<Rightarrow> zone_setting" where
  "canon_zone z = z\<lparr>zone1 := to_lower (zone1 z), zone2 := to_lower (zone2 z),
                    zone3 := to_lower (zone3 z), zone4 := to_lower (zone4 z)\<rparr>"

definition readable_zone :: "zone_setting \<Rightarrow> bool" where
  "readable_zone z \<longleftrightarrow>
     list_all is_hex_color (zone_colors z) \<and> 0 \<le> zone_brightness z \<and> zone_brightness z \<le> 100"

lemma validate_zone_iff: "validate_zone z = None \<longleftrightarrow> readable_zone z"
  by (auto simp: validate_zone_def readable_zone_def list_all_iff)

lemma plain_print_zone: "readable_zone z \<Longrightarrow> plain (print_zone z)"
  by (simp add: readable_zone_def zone_colors_def print_zone_def hex_color_facts plain_char_def)

lemma split_print_zone:
  "readable_zone z \<Longrightarrow> split CHR '','' (print_zone z) =
     [to_lower (zone1 z), to_lower (zone2 z), to_lower (zone3 z), to_lower (zone4 z),
      itoa (zone_brightness z)]"
  by (simp add: readable_zone_def zone_colors_def print_zone_def hex_color_facts)

lemma parse_zone_print:
  assumes "readable_zone z"
  shows "parse_zone_setting (print_zone z) = Inr (canon_zone z)"
proof -
  note r = assms [unfolded readable_zone_def zone_colors_def]
  have "parse_range (itoa (zone_brightness z)) 0 100 ''brightness'' = Inr (zone_brightness z)"
    using r by (intro parse_range_itoa) auto
  then show ?thesis
    using r by (simp add: parse_zone_setting_def plain_print_zone [OF assms]
        split_print_zone [OF assms] zone_colors_def canon_zone_def hex_color_facts Let_def)
qed

lemma parse_zone_readable:
  assumes "parse_zone_setting s = Inr z" shows "readable_zone z \<and> canon_zone z = z"
proof -
  obtain a b c d b' where z: "zone1 z = to_lower a" "zone2 z = to_lower b" "zone3 z = to_lower c"
      "zone4 z = to_lower d" and r: "readable_zone z"
    using assms
    by (auto simp: parse_zone_setting_def zone_colors_def readable_zone_def result_simps Let_def
        parse_range_Inr split: list.splits if_splits)
  from z r show ?thesis
    by (simp add: canon_zone_def readable_zone_def zone_colors_def is_hex_color_ascii to_lower_idem)
qed

interpretation zone_codec:
  setting_codec parse_zone_setting print_zone validate_zone readable_zone canon_zone
proof unfold_locales
  show "print_zone (canon_zone z) = print_zone z" if "readable_zone z" for z
    using that
    by (simp add: print_zone_def canon_zone_def readable_zone_def zone_colors_def hex_color_facts)
  show "validate_zone (canon_zone z) = None" if "validate_zone z = None" for z
    using that by (simp add: validate_zone_iff readable_zone_def zone_colors_def canon_zone_def
        hex_color_facts)
  show "parse_zone_setting (s @ [CHR 0x0A]) = parse_zone_setting s" if "plain s" "s \<noteq> []" for s
    using that by (simp add: parse_zone_setting_def)
  show "plain (print_zone z) \<and> print_zone z \<noteq> []" if "readable_zone z" for z
    using that by (simp add: plain_print_zone) (simp add: print_zone_def)
qed (simp_all add: parse_zone_print parse_zone_readable validate_zone_iff)

end
