(* ===== verification/Sensors.thy ===== *)
theory Sensors
  imports Sysfs_FS Codecs Complex_Main
begin

text \<open>
  The reading side of \<open>internal/sysfs/controller.go\<close>: trimmed text, flags and optional
  integers of an attribute, the power source, and the resolution of hwmon inputs with its
  re-resolution when a cached path stops reading. A path that is empty means that the machine
  has no such sensor, as in the code.
\<close>

datatype ctl_error =
    ErrUnsupported
  | ErrConflict
  | ErrConfirmation
  | Fs_Failed fs_error
  | Invalid_Setting codec_error
  | Bad_Flag bytes bytes
  | Profile_Unavailable bytes
  | Usb_Not_Allowed

section \<open>Attributes as text\<close>

definition read_text :: "'w fs_ops \<Rightarrow> 'w \<Rightarrow> bytes \<Rightarrow> (ctl_error, bytes) result" where
  "read_text fs w file =
     (case fs_read fs w file of Inl e \<Rightarrow> Inl (Fs_Failed e) | Inr raw \<Rightarrow> Inr (trim_space raw))"

definition read_bool :: "'w fs_ops \<Rightarrow> 'w \<Rightarrow> bytes \<Rightarrow> (ctl_error, bool) result" where
  "read_bool fs w file =
     result_bind (read_text fs w file) (\<lambda>raw.
       if raw = ''0'' then Inr False
       else if raw = ''1'' then Inr True
       else Inl (Bad_Flag file raw))"

definition read_optional_int :: "'w fs_ops \<Rightarrow> 'w \<Rightarrow> bytes \<Rightarrow> int option" where
  "read_optional_int fs w file =
     (if file = [] then None
      else case read_text fs w file of Inl _ \<Rightarrow> None | Inr raw \<Rightarrow> atoi raw)"

text \<open>Millidegrees to degrees, as an exact quotient (the code's \<open>float64\<close> rounds it).\<close>

definition read_optional_temperature :: "'w fs_ops \<Rightarrow> 'w \<Rightarrow> bytes \<Rightarrow> rat option" where
  "read_optional_temperature fs w file =
     (case read_optional_int fs w file of None \<Rightarrow> None | Some v \<Rightarrow> Some (of_int v / 1000))"

section \<open>Power source\<close>

definition power_supply_dir :: bytes where
  "power_supply_dir = ''sys/class/power_supply''"

definition is_mains :: "'w fs_ops \<Rightarrow> 'w \<Rightarrow> dir_entry \<Rightarrow> bool" where
  "is_mains fs w entry \<longleftrightarrow>
     (let base = path_join [power_supply_dir, entry_name entry];
          supply_type = (case read_text fs w (path_join [base, ''type'']) of Inl _ \<Rightarrow> [] | Inr t \<Rightarrow> t)
      in supply_type = ''Mains'' \<or> has_prefix (to_upper (entry_name entry)) ''AC'')"

definition is_online :: "'w fs_ops \<Rightarrow> 'w \<Rightarrow> dir_entry \<Rightarrow> bool" where
  "is_online fs w entry \<longleftrightarrow>
     read_text fs w (path_join [path_join [power_supply_dir, entry_name entry], ''online'']) = Inr ''1''"

fun scan_supplies :: "'w fs_ops \<Rightarrow> 'w \<Rightarrow> bool \<Rightarrow> dir_entry list \<Rightarrow> bytes" where
  "scan_supplies fs w found_mains [] = (if found_mains then ''battery'' else ''unknown'')"
| "scan_supplies fs w found_mains (entry # entries) =
     (if \<not> is_mains fs w entry then scan_supplies fs w found_mains entries
      else if is_online fs w entry then ''ac''
      else scan_supplies fs w True entries)"

definition read_power_source :: "'w fs_ops \<Rightarrow> 'w \<Rightarrow> bytes" where
  "read_power_source fs w =
     (case fs_readdir fs w power_supply_dir of
        Inl _ \<Rightarrow> ''unknown''
      | Inr entries \<Rightarrow> scan_supplies fs w False entries)"

section \<open>Resolving hwmon inputs\<close>

record sensor_paths =
  cpu_temp :: bytes
  gpu_temp :: bytes
  cpu_fan :: bytes
  gpu_fan :: bytes

definition hwmon_dir :: bytes where
  "hwmon_dir = ''sys/class/hwmon''"

definition hwmon_directories :: "'w fs_ops \<Rightarrow> 'w \<Rightarrow> bytes list" where
  "hwmon_directories fs w =
     (case fs_readdir fs w hwmon_dir of
        Inl _ \<Rightarrow> []
      | Inr entries \<Rightarrow>
          sort (map (\<lambda>e. path_join [hwmon_dir, entry_name e])
            (filter (\<lambda>e. entry_is_dir e \<or> entry_is_symlink e) entries)))"

definition exists_file :: "'w fs_ops \<Rightarrow> 'w \<Rightarrow> bytes \<Rightarrow> bool" where
  "exists_file fs w file \<longleftrightarrow> is_ok (fs_stat fs w file)"

fun first_existing :: "'w fs_ops \<Rightarrow> 'w \<Rightarrow> bytes list \<Rightarrow> bytes" where
  "first_existing fs w [] = []"
| "first_existing fs w (candidate # candidates) =
     (if candidate = [] then first_existing fs w candidates
      else if exists_file fs w candidate then candidate
      else first_existing fs w candidates)"

definition label_matches :: "'w fs_ops \<Rightarrow> 'w \<Rightarrow> bytes \<Rightarrow> bytes \<Rightarrow> bytes \<Rightarrow> bytes \<Rightarrow> bool" where
  "label_matches fs w dir prefix target name \<longleftrightarrow>
     has_prefix name prefix \<and> has_suffix name ''_label'' \<and>
     (case read_text fs w (path_join [dir, name]) of
        Inl _ \<Rightarrow> False | Inr label \<Rightarrow> equal_fold label target)"

fun scan_labels :: "'w fs_ops \<Rightarrow> 'w \<Rightarrow> bytes \<Rightarrow> bytes \<Rightarrow> bytes \<Rightarrow> dir_entry list \<Rightarrow> bytes" where
  "scan_labels fs w dir prefix target [] = []"
| "scan_labels fs w dir prefix target (entry # entries) =
     (if label_matches fs w dir prefix target (entry_name entry)
      then path_join [dir, trim_suffix (entry_name entry) ''_label'' @ ''_input'']
      else scan_labels fs w dir prefix target entries)"

definition input_by_label :: "'w fs_ops \<Rightarrow> 'w \<Rightarrow> bytes \<Rightarrow> bytes \<Rightarrow> bytes \<Rightarrow> bytes" where
  "input_by_label fs w dir prefix target =
     (case fs_readdir fs w dir of
        Inl _ \<Rightarrow> []
      | Inr entries \<Rightarrow> scan_labels fs w dir prefix target entries)"

text \<open>
  The loop of \<open>resolveSensors\<close> over the hwmon directories; its state is the paths found so
  far, with the acer fallbacks beside them.
\<close>

record resolving = sensor_paths +
  acer_cpu_temp :: bytes
  acer_gpu_temp :: bytes

definition start_resolving :: resolving where
  "start_resolving = \<lparr>cpu_temp = [], gpu_temp = [], cpu_fan = [], gpu_fan = [],
                      acer_cpu_temp = [], acer_gpu_temp = []\<rparr>"

definition labelled_or :: "'w fs_ops \<Rightarrow> 'w \<Rightarrow> bytes \<Rightarrow> bytes \<Rightarrow> bytes \<Rightarrow> bytes \<Rightarrow> bytes" where
  "labelled_or fs w dir prefix target fallback =
     first_existing fs w [input_by_label fs w dir prefix target, path_join [dir, fallback]]"

definition resolve_dir :: "'w fs_ops \<Rightarrow> 'w \<Rightarrow> bytes \<Rightarrow> resolving \<Rightarrow> resolving" where
  "resolve_dir fs w dir st =
     (case read_text fs w (path_join [dir, ''name'']) of
        Inl _ \<Rightarrow> st
      | Inr name \<Rightarrow>
          if to_lower name = ''coretemp'' then
            st\<lparr>cpu_temp := labelled_or fs w dir ''temp'' ''Package id 0'' ''temp1_input''\<rparr>
          else if to_lower name = ''nvidia'' \<or> to_lower name = ''amdgpu'' then
            st\<lparr>gpu_temp := first_existing fs w [path_join [dir, ''temp1_input'']]\<rparr>
          else if to_lower name = ''acer'' then
            st\<lparr>acer_cpu_temp := labelled_or fs w dir ''temp'' ''CPU'' ''temp1_input'',
               acer_gpu_temp := labelled_or fs w dir ''temp'' ''GPU'' ''temp2_input'',
               cpu_fan := labelled_or fs w dir ''fan'' ''CPU Fan'' ''fan1_input'',
               gpu_fan := labelled_or fs w dir ''fan'' ''GPU Fan'' ''fan2_input''\<rparr>
          else st)"

fun resolve_dirs :: "'w fs_ops \<Rightarrow> 'w \<Rightarrow> bytes list \<Rightarrow> resolving \<Rightarrow> resolving" where
  "resolve_dirs fs w [] st = st"
| "resolve_dirs fs w (dir # dirs) st = resolve_dirs fs w dirs (resolve_dir fs w dir st)"

definition resolve_sensors :: "'w fs_ops \<Rightarrow> 'w \<Rightarrow> sensor_paths" where
  "resolve_sensors fs w =
     (let st = resolve_dirs fs w (hwmon_directories fs w) start_resolving
      in \<lparr>cpu_temp = (if cpu_temp st = [] then acer_cpu_temp st else cpu_temp st),
          gpu_temp = (if gpu_temp st = [] then acer_gpu_temp st else gpu_temp st),
          cpu_fan = cpu_fan st,
          gpu_fan = gpu_fan st\<rparr>)"

section \<open>Reading sensors, with one re-resolution\<close>

definition sensors_went_stale ::
  "'w fs_ops \<Rightarrow> 'w \<Rightarrow> sensor_paths \<Rightarrow> bytes \<Rightarrow> bool \<Rightarrow> bytes \<Rightarrow> bool \<Rightarrow> bool \<times> sensor_paths" where
  "sensors_went_stale fs w sensors first_path first_failed second_path second_failed =
     (if (first_path = [] \<or> \<not> first_failed) \<and> (second_path = [] \<or> \<not> second_failed)
      then (False, sensors)
      else (True, resolve_sensors fs w))"

definition read_fan_rpm ::
  "'w fs_ops \<Rightarrow> 'w \<Rightarrow> sensor_paths \<Rightarrow> (int option \<times> int option) \<times> sensor_paths" where
  "read_fan_rpm fs w sensors =
     (let cpu = read_optional_int fs w (cpu_fan sensors);
          gpu = read_optional_int fs w (gpu_fan sensors);
          (stale, sensors') =
            sensors_went_stale fs w sensors (cpu_fan sensors) (cpu = None) (gpu_fan sensors) (gpu = None)
      in if stale
         then ((read_optional_int fs w (cpu_fan sensors'), read_optional_int fs w (gpu_fan sensors')),
               sensors')
         else ((cpu, gpu), sensors'))"

definition read_temperatures ::
  "'w fs_ops \<Rightarrow> 'w \<Rightarrow> sensor_paths \<Rightarrow> (rat option \<times> rat option) \<times> sensor_paths" where
  "read_temperatures fs w sensors =
     (let cpu = read_optional_temperature fs w (cpu_temp sensors);
          gpu = read_optional_temperature fs w (gpu_temp sensors);
          (stale, sensors') =
            sensors_went_stale fs w sensors (cpu_temp sensors) (cpu = None) (gpu_temp sensors) (gpu = None)
      in if stale
         then ((read_optional_temperature fs w (cpu_temp sensors'),
                read_optional_temperature fs w (gpu_temp sensors')), sensors')
         else ((cpu, gpu), sensors'))"

section \<open>The power source, declaratively\<close>

lemma scan_supplies_eq:
  "scan_supplies fs w found entries =
     (if \<exists>e\<in>set entries. is_mains fs w e \<and> is_online fs w e then ''ac''
      else if found \<or> (\<exists>e\<in>set entries. is_mains fs w e) then ''battery''
      else ''unknown'')"
  by (induction fs w found entries rule: scan_supplies.induct) auto

lemma read_power_source_cases:
  "read_power_source fs w \<in> {''ac'', ''battery'', ''unknown''}"
  by (auto simp: read_power_source_def scan_supplies_eq split: sum.splits)

section \<open>Resolution, declaratively\<close>

text \<open>
  The loop keeps what the last directory of each kind gave: its result is the lookup of that
  directory, searched from the end.
\<close>

definition hwmon_named :: "'w fs_ops \<Rightarrow> 'w \<Rightarrow> bytes list \<Rightarrow> bytes \<Rightarrow> bool" where
  "hwmon_named fs w names dir \<longleftrightarrow>
     (case read_text fs w (path_join [dir, ''name'']) of
        Inl _ \<Rightarrow> False | Inr name \<Rightarrow> to_lower name \<in> set names)"

definition from_last :: "('d \<Rightarrow> bool) \<Rightarrow> ('d \<Rightarrow> bytes) \<Rightarrow> bytes \<Rightarrow> 'd list \<Rightarrow> bytes" where
  "from_last P f start dirs = (case find P (rev dirs) of None \<Rightarrow> start | Some d \<Rightarrow> f d)"

lemma from_last_Nil [simp]: "from_last P f x [] = x"
  by (simp add: from_last_def)

lemma find_append: "find P (xs @ ys) = (case find P xs of None \<Rightarrow> find P ys | Some x \<Rightarrow> Some x)"
  by (induction xs) auto

lemma from_last_Cons [simp]:
  "from_last P f x (d # ds) = from_last P f (if P d then f d else x) ds"
  by (simp add: from_last_def find_append split: option.splits)

lemma resolve_dir_fields:
  "cpu_temp (resolve_dir fs w d st) =
     (if hwmon_named fs w [''coretemp''] d
      then labelled_or fs w d ''temp'' ''Package id 0'' ''temp1_input'' else cpu_temp st)"
  "gpu_temp (resolve_dir fs w d st) =
     (if hwmon_named fs w [''nvidia'', ''amdgpu''] d
      then first_existing fs w [path_join [d, ''temp1_input'']] else gpu_temp st)"
  "acer_cpu_temp (resolve_dir fs w d st) =
     (if hwmon_named fs w [''acer''] d
      then labelled_or fs w d ''temp'' ''CPU'' ''temp1_input'' else acer_cpu_temp st)"
  "acer_gpu_temp (resolve_dir fs w d st) =
     (if hwmon_named fs w [''acer''] d
      then labelled_or fs w d ''temp'' ''GPU'' ''temp2_input'' else acer_gpu_temp st)"
  "cpu_fan (resolve_dir fs w d st) =
     (if hwmon_named fs w [''acer''] d
      then labelled_or fs w d ''fan'' ''CPU Fan'' ''fan1_input'' else cpu_fan st)"
  "gpu_fan (resolve_dir fs w d st) =
     (if hwmon_named fs w [''acer''] d
      then labelled_or fs w d ''fan'' ''GPU Fan'' ''fan2_input'' else gpu_fan st)"
  by (auto simp: resolve_dir_def hwmon_named_def split: sum.splits)

lemma resolve_dirs_fields:
  "cpu_temp (resolve_dirs fs w dirs st) =
     from_last (hwmon_named fs w [''coretemp''])
       (\<lambda>d. labelled_or fs w d ''temp'' ''Package id 0'' ''temp1_input'') (cpu_temp st) dirs"
  "gpu_temp (resolve_dirs fs w dirs st) =
     from_last (hwmon_named fs w [''nvidia'', ''amdgpu''])
       (\<lambda>d. first_existing fs w [path_join [d, ''temp1_input'']]) (gpu_temp st) dirs"
  "acer_cpu_temp (resolve_dirs fs w dirs st) =
     from_last (hwmon_named fs w [''acer''])
       (\<lambda>d. labelled_or fs w d ''temp'' ''CPU'' ''temp1_input'') (acer_cpu_temp st) dirs"
  "acer_gpu_temp (resolve_dirs fs w dirs st) =
     from_last (hwmon_named fs w [''acer''])
       (\<lambda>d. labelled_or fs w d ''temp'' ''GPU'' ''temp2_input'') (acer_gpu_temp st) dirs"
  "cpu_fan (resolve_dirs fs w dirs st) =
     from_last (hwmon_named fs w [''acer''])
       (\<lambda>d. labelled_or fs w d ''fan'' ''CPU Fan'' ''fan1_input'') (cpu_fan st) dirs"
  "gpu_fan (resolve_dirs fs w dirs st) =
     from_last (hwmon_named fs w [''acer''])
       (\<lambda>d. labelled_or fs w d ''fan'' ''GPU Fan'' ''fan2_input'') (gpu_fan st) dirs"
  by (induction dirs arbitrary: st) (simp_all add: resolve_dir_fields)

section \<open>Resolved paths exist\<close>

definition path_ok :: "'w fs_ops \<Rightarrow> 'w \<Rightarrow> bytes \<Rightarrow> bool" where
  "path_ok fs w p \<longleftrightarrow> p = [] \<or> exists_file fs w p"

lemma path_ok_Nil [simp]: "path_ok fs w []"
  by (simp add: path_ok_def)

lemma path_ok_first_existing [simp]: "path_ok fs w (first_existing fs w ps)"
  by (induction fs w ps rule: first_existing.induct) (auto simp: path_ok_def)

declare first_existing.simps(2) [simp del]

lemma path_ok_labelled_or [simp]: "path_ok fs w (labelled_or fs w d p t f)"
  by (simp add: labelled_or_def)

lemma path_ok_from_last [simp]:
  "(\<And>d. path_ok fs w (f d)) \<Longrightarrow> path_ok fs w x \<Longrightarrow> path_ok fs w (from_last P f x dirs)"
  by (simp add: from_last_def split: option.splits)

definition sensors_exist :: "'w fs_ops \<Rightarrow> 'w \<Rightarrow> sensor_paths \<Rightarrow> bool" where
  "sensors_exist fs w s \<longleftrightarrow>
     path_ok fs w (cpu_temp s) \<and> path_ok fs w (gpu_temp s) \<and>
     path_ok fs w (cpu_fan s) \<and> path_ok fs w (gpu_fan s)"

lemma sensors_exist_resolve: "sensors_exist fs w (resolve_sensors fs w)"
  by (simp add: sensors_exist_def resolve_sensors_def Let_def resolve_dirs_fields start_resolving_def)

section \<open>Labels before channel numbers\<close>

text \<open>
  What an input should be, without the loops of the code: the channels of a directory that carry a
  label, in the order of its entries; the input of the first of them if it exists, else the
  documented input if that exists, else none.
\<close>

definition carries_label :: "'w fs_ops \<Rightarrow> 'w \<Rightarrow> bytes \<Rightarrow> bytes \<Rightarrow> bytes \<Rightarrow> bool" where
  "carries_label fs w dir label channel \<longleftrightarrow>
     (\<exists>found. read_text fs w (path_join [dir, channel @ ''_label'']) = Inr found \<and> equal_fold found label)"

definition labelled_channels :: "'w fs_ops \<Rightarrow> 'w \<Rightarrow> bytes \<Rightarrow> bytes \<Rightarrow> bytes \<Rightarrow> bytes list" where
  "labelled_channels fs w dir kind label =
     (case fs_readdir fs w dir of
        Inl _ \<Rightarrow> []
      | Inr entries \<Rightarrow>
          filter (carries_label fs w dir label)
            (map (\<lambda>name. take (length name - 6) name)
              (filter (\<lambda>name. has_prefix name kind \<and> has_suffix name ''_label'') (map entry_name entries))))"

definition if_exists :: "'w fs_ops \<Rightarrow> 'w \<Rightarrow> bytes \<Rightarrow> bytes" where
  "if_exists fs w file = (if is_ok (fs_stat fs w file) then file else [])"

definition channel_input :: "'w fs_ops \<Rightarrow> 'w \<Rightarrow> bytes \<Rightarrow> bytes \<Rightarrow> bytes \<Rightarrow> bytes \<Rightarrow> bytes" where
  "channel_input fs w dir kind label documented =
     (case labelled_channels fs w dir kind label of
        channel # _ \<Rightarrow>
          if is_ok (fs_stat fs w (path_join [dir, channel @ ''_input''])) then path_join [dir, channel @ ''_input'']
          else if_exists fs w (path_join [dir, documented])
      | [] \<Rightarrow> if_exists fs w (path_join [dir, documented]))"

lemma hwmon_directories_sorted: "sorted (hwmon_directories fs w)"
  by (simp add: hwmon_directories_def split: sum.splits)

lemma hwmon_directories_set:
  "set (hwmon_directories fs w) = (case fs_readdir fs w ''sys/class/hwmon'' of
      Inl _ \<Rightarrow> {}
    | Inr entries \<Rightarrow>
        {path_join [''sys/class/hwmon'', entry_name e] |e. e \<in> set entries \<and> (entry_is_dir e \<or> entry_is_symlink e)})"
  by (auto simp: hwmon_directories_def hwmon_dir_def split: sum.splits)

lemma path_clean_not_Nil: "path_clean p \<noteq> []"
proof (cases "path_elems p")
  case (Cons e es)
  then have "e \<noteq> []" using clean_form_no_slash [OF clean_form_path_elems, of e p] by simp
  with Cons show ?thesis by (cases es) (simp_all add: path_clean_def render_def)
qed (simp add: path_clean_def render_def)

lemma path_join_not_Nil: "q \<noteq> [] \<Longrightarrow> path_join [p, q] \<noteq> []"
  by (simp add: path_join_def path_clean_not_Nil)

lemma label_matches_channel:
  "label_matches fs w dir kind label name \<longleftrightarrow>
     has_prefix name kind \<and> has_suffix name ''_label'' \<and> carries_label fs w dir label (take (length name - 6) name)"
proof (cases "has_suffix name ''_label''")
  case True
  then have "name = take (length name - 6) name @ ''_label''" by (auto simp: has_suffix_iff eval_nat_numeral)
  then show ?thesis by (auto simp: label_matches_def carries_label_def split: sum.splits)
qed (simp add: label_matches_def)

lemma scan_labels_channels:
  "scan_labels fs w dir kind label entries =
     (case filter (carries_label fs w dir label) (map (\<lambda>name. take (length name - 6) name)
         (filter (\<lambda>name. has_prefix name kind \<and> has_suffix name ''_label'') (map entry_name entries))) of
        [] \<Rightarrow> []
      | channel # _ \<Rightarrow> path_join [dir, channel @ ''_input''])"
  by (induction entries) (auto simp: label_matches_channel trim_suffix_def eval_nat_numeral)

lemma labelled_or_channel:
  assumes "documented \<noteq> []"
  shows "labelled_or fs w dir kind label documented = channel_input fs w dir kind label documented"
  using assms
  by (auto simp: labelled_or_def input_by_label_def scan_labels_channels labelled_channels_def channel_input_def
      if_exists_def exists_file_def first_existing.simps(2) path_join_not_Nil split: sum.splits list.splits)

lemma first_existing_single: "first_existing fs w [p] = if_exists fs w p"
  by (auto simp: first_existing.simps(2) if_exists_def exists_file_def)

section \<open>Readings belong to the paths that are kept\<close>

lemma read_fan_rpm_result:
  assumes "read_fan_rpm fs w s = ((cpu, gpu), s')"
  shows "cpu = read_optional_int fs w (cpu_fan s') \<and> gpu = read_optional_int fs w (gpu_fan s') \<and>
    (s' = s \<or> s' = resolve_sensors fs w)"
  using assms
  by (auto simp: read_fan_rpm_def sensors_went_stale_def Let_def split: if_splits)

lemma read_temperatures_result:
  assumes "read_temperatures fs w s = ((cpu, gpu), s')"
  shows "cpu = read_optional_temperature fs w (cpu_temp s') \<and>
    gpu = read_optional_temperature fs w (gpu_temp s') \<and> (s' = s \<or> s' = resolve_sensors fs w)"
  using assms
  by (auto simp: read_temperatures_def sensors_went_stale_def Let_def split: if_splits)

end
