(* ===== verification/Controller.thy ===== *)
theory Controller
  imports Sensors Profiles
begin

text \<open>
  The hardware controller of \<open>internal/sysfs/controller.go\<close>: capabilities, the live snapshot
  with its cache of slow settings, and the operations that write. A controller method runs
  under the controller's mutex, so it is a function of the controller, the world and the
  current time; the clock readings of one call are one instant, and the hardware is at rest
  during a call except for its own write.
\<close>

section \<open>Attribute paths\<close>

definition predator_base :: bytes where
  "predator_base = ''sys/module/linuwu_sense/drivers/platform:acer-wmi/acer-wmi/predator_sense''"

definition keyboard_base :: bytes where
  "keyboard_base = ''sys/module/linuwu_sense/drivers/platform:acer-wmi/acer-wmi/four_zoned_kb''"

definition profile_path :: bytes where
  "profile_path = ''sys/firmware/acpi/platform_profile''"

definition choices_path :: bytes where
  "choices_path = ''sys/firmware/acpi/platform_profile_choices''"

definition predator_attr :: "bytes \<Rightarrow> bytes" where
  "predator_attr attr = path_join [predator_base, attr]"

definition keyboard_attr :: "bytes \<Rightarrow> bytes" where
  "keyboard_attr attr = path_join [keyboard_base, attr]"

section \<open>State\<close>

record capabilities =
  cap_fan_control :: bool
  cap_fan_telemetry :: bool
  cap_thermal_profile :: bool
  cap_battery_limiter :: bool
  cap_battery_calibration :: bool
  cap_backlight_timeout :: bool
  cap_lcd_override :: bool
  cap_usb_charging :: bool
  cap_boot_animation_sound :: bool
  cap_keyboard_per_zone :: bool
  cap_keyboard_effects :: bool
  cap_cpu_temperature :: bool
  cap_gpu_temperature :: bool

text \<open>\<open>prof_available\<close> is \<open>None\<close> for the slice that is nil, which is no empty one in JSON.\<close>

record profile_state =
  prof_value :: bytes
  prof_label :: bytes
  prof_available :: "profile_option list option"

record fan_state =
  fans_mode :: bytes
  fans_cpu :: int
  fans_gpu :: int
  fans_cpu_rpm :: "int option"
  fans_gpu_rpm :: "int option"
  fans_manual_allowed :: bool

record temperature_state =
  temp_cpu :: "rat option"
  temp_gpu :: "rat option"

record settings_state =
  set_battery_limiter :: bool
  set_battery_calibration :: bool
  set_backlight_timeout :: bool
  set_lcd_override :: bool
  set_usb_charging_level :: int
  set_boot_animation_sound :: bool

record keyboard_state =
  kb_per_zone :: "zone_setting option"
  kb_effect :: "effect_setting option"

record hw_state =
  st_timestamp :: time
  st_power_source :: bytes
  st_profile :: profile_state
  st_fans :: fan_state
  st_temperatures :: temperature_state
  st_settings :: settings_state
  st_keyboard :: keyboard_state
  st_capabilities :: capabilities
  st_driver_version :: bytes
  st_degraded :: "bytes list"

record slow_state =
  slow_stamp :: time
  slow_settings :: settings_state
  slow_keyboard :: keyboard_state
  slow_choices :: "bytes list"
  slow_driver_version :: bytes
  slow_degraded :: "bytes list"

record 'w controller =
  ctl_fs :: "'w fs_ops"
  ctl_caps :: capabilities
  ctl_sensors :: sensor_paths
  ctl_slow :: slow_state
  ctl_slow_ttl :: duration

definition default_slow_ttl :: duration where
  "default_slow_ttl = seconds 30"

text \<open>The zero values that Go gives a struct before anything is stored in it.\<close>

definition zero_settings :: settings_state where
  "zero_settings = \<lparr>set_battery_limiter = False, set_battery_calibration = False,
     set_backlight_timeout = False, set_lcd_override = False, set_usb_charging_level = 0,
     set_boot_animation_sound = False\<rparr>"

definition zero_slow :: slow_state where
  "zero_slow = \<lparr>slow_stamp = 0, slow_settings = zero_settings,
     slow_keyboard = \<lparr>kb_per_zone = None, kb_effect = None\<rparr>, slow_choices = [],
     slow_driver_version = [], slow_degraded = []\<rparr>"

section \<open>Probing capabilities\<close>

definition probe :: "'w controller \<Rightarrow> 'w \<Rightarrow> capabilities \<times> 'w controller" where
  "probe c w =
     (let exists = exists_file (ctl_fs c) w;
          ((cpu, gpu), sensors1) = read_temperatures (ctl_fs c) w (ctl_sensors c);
          ((cpu_rpm, gpu_rpm), sensors2) = read_fan_rpm (ctl_fs c) w sensors1
      in (\<lparr>cap_fan_control = exists (predator_attr ''fan_speed''),
           cap_fan_telemetry = (cpu_rpm \<noteq> None \<or> gpu_rpm \<noteq> None),
           cap_thermal_profile = (exists profile_path \<and> exists choices_path),
           cap_battery_limiter = exists (predator_attr ''battery_limiter''),
           cap_battery_calibration = exists (predator_attr ''battery_calibration''),
           cap_backlight_timeout = exists (predator_attr ''backlight_timeout''),
           cap_lcd_override = exists (predator_attr ''lcd_override''),
           cap_usb_charging = exists (predator_attr ''usb_charging''),
           cap_boot_animation_sound = exists (predator_attr ''boot_animation_sound''),
           cap_keyboard_per_zone = exists (keyboard_attr ''per_zone_mode''),
           cap_keyboard_effects = exists (keyboard_attr ''four_zone_mode''),
           cap_cpu_temperature = (cpu \<noteq> None),
           cap_gpu_temperature = (gpu \<noteq> None)\<rparr>,
          c\<lparr>ctl_sensors := sensors2\<rparr>))"

text \<open>\<open>no_capabilities\<close> is the zero value the field has before the first probe.\<close>

definition no_capabilities :: capabilities where
  "no_capabilities = \<lparr>cap_fan_control = False, cap_fan_telemetry = False,
     cap_thermal_profile = False, cap_battery_limiter = False, cap_battery_calibration = False,
     cap_backlight_timeout = False, cap_lcd_override = False, cap_usb_charging = False,
     cap_boot_animation_sound = False, cap_keyboard_per_zone = False,
     cap_keyboard_effects = False, cap_cpu_temperature = False, cap_gpu_temperature = False\<rparr>"

definition refresh_capabilities :: "'w controller \<Rightarrow> 'w \<Rightarrow> capabilities \<times> 'w controller" where
  "refresh_capabilities c w =
     (let (caps, c') = probe c w in (caps, c'\<lparr>ctl_caps := caps\<rparr>))"

definition new_controller :: "'w fs_ops \<Rightarrow> 'w \<Rightarrow> 'w controller" where
  "new_controller files w =
     (let c = \<lparr>ctl_fs = files, ctl_caps = no_capabilities, ctl_sensors = resolve_sensors files w,
               ctl_slow = zero_slow, ctl_slow_ttl = default_slow_ttl\<rparr>;
          (caps, c') = probe c w
      in c'\<lparr>ctl_caps := caps\<rparr>)"

section \<open>The slow settings\<close>

text \<open>
  Each section of \<open>refreshSlow\<close> gives its value and the sections it notes as degraded; a
  section that fails or is absent keeps the zero value.
\<close>

definition flag_section ::
  "'w fs_ops \<Rightarrow> 'w \<Rightarrow> bool \<Rightarrow> bytes \<Rightarrow> bytes \<Rightarrow> bool \<times> bytes list" where
  "flag_section fs w enabled attr label =
     (if \<not> enabled then (False, [])
      else case read_bool fs w (predator_attr attr) of
        Inl _ \<Rightarrow> (False, [label]) | Inr v \<Rightarrow> (v, []))"

definition choices_section :: "'w fs_ops \<Rightarrow> 'w \<Rightarrow> bool \<Rightarrow> bytes list \<times> bytes list" where
  "choices_section fs w enabled =
     (if \<not> enabled then ([], [])
      else case read_text fs w choices_path of
        Inl _ \<Rightarrow> ([], [''profileChoices'']) | Inr choices \<Rightarrow> (text_fields choices, []))"

definition usb_level :: "int \<Rightarrow> bool" where
  "usb_level v \<longleftrightarrow> v = 0 \<or> v = 10 \<or> v = 20 \<or> v = 30"

definition usb_section :: "'w fs_ops \<Rightarrow> 'w \<Rightarrow> bool \<Rightarrow> int \<times> bytes list" where
  "usb_section fs w enabled =
     (if \<not> enabled then (0, [])
      else case read_text fs w (predator_attr ''usb_charging'') of
        Inl _ \<Rightarrow> (0, [''usbCharging''])
      | Inr raw \<Rightarrow>
          (case atoi raw of
             None \<Rightarrow> (0, [''usbCharging''])
           | Some v \<Rightarrow> if usb_level v then (v, []) else (0, [''usbCharging''])))"

definition codec_section ::
  "'w fs_ops \<Rightarrow> 'w \<Rightarrow> bool \<Rightarrow> bytes \<Rightarrow> (bytes \<Rightarrow> (codec_error, 'a) result) \<Rightarrow> bytes
     \<Rightarrow> 'a option \<times> bytes list" where
  "codec_section fs w enabled file parse label =
     (if \<not> enabled then (None, [])
      else case read_text fs w file of
        Inl _ \<Rightarrow> (None, [label])
      | Inr raw \<Rightarrow> (case parse raw of Inl _ \<Rightarrow> (None, [label]) | Inr v \<Rightarrow> (Some v, [])))"

definition refresh_slow :: "'w fs_ops \<Rightarrow> capabilities \<Rightarrow> 'w \<Rightarrow> time \<Rightarrow> slow_state" where
  "refresh_slow fs caps w now =
     (let (choices, n1) = choices_section fs w (cap_thermal_profile caps);
          (limiter, n2) = flag_section fs w (cap_battery_limiter caps) ''battery_limiter'' ''batteryLimiter'';
          (calibration, n3) =
            flag_section fs w (cap_battery_calibration caps) ''battery_calibration'' ''batteryCalibration'';
          (timeout, n4) =
            flag_section fs w (cap_backlight_timeout caps) ''backlight_timeout'' ''backlightTimeout'';
          (lcd, n5) = flag_section fs w (cap_lcd_override caps) ''lcd_override'' ''lcdOverride'';
          (sound, n6) =
            flag_section fs w (cap_boot_animation_sound caps) ''boot_animation_sound'' ''bootAnimationSound'';
          (usb, n7) = usb_section fs w (cap_usb_charging caps);
          (zone, n8) = codec_section fs w (cap_keyboard_per_zone caps) (keyboard_attr ''per_zone_mode'')
                         parse_zone_setting ''keyboardPerZone'';
          (effect, n9) = codec_section fs w (cap_keyboard_effects caps) (keyboard_attr ''four_zone_mode'')
                           parse_effect_setting ''keyboardEffects'';
          version = (case read_text fs w (predator_attr ''version'') of Inl _ \<Rightarrow> [] | Inr raw \<Rightarrow> raw)
      in \<lparr>slow_stamp = now,
          slow_settings = \<lparr>set_battery_limiter = limiter, set_battery_calibration = calibration,
            set_backlight_timeout = timeout, set_lcd_override = lcd, set_usb_charging_level = usb,
            set_boot_animation_sound = sound\<rparr>,
          slow_keyboard = \<lparr>kb_per_zone = zone, kb_effect = effect\<rparr>,
          slow_choices = choices,
          slow_driver_version = version,
          slow_degraded = n1 @ n2 @ n3 @ n4 @ n5 @ n6 @ n7 @ n8 @ n9\<rparr>)"

definition invalidate_slow :: "'w controller \<Rightarrow> 'w controller" where
  "invalidate_slow c = c\<lparr>ctl_slow := (ctl_slow c)\<lparr>slow_stamp := 0\<rparr>\<rparr>"

section \<open>The snapshot\<close>

definition profile_section :: "'w fs_ops \<Rightarrow> 'w \<Rightarrow> bool \<Rightarrow> (bytes \<times> bytes) \<times> bytes list" where
  "profile_section fs w enabled =
     (if \<not> enabled then (([], []), [])
      else case read_text fs w profile_path of
        Inl _ \<Rightarrow> (([], []), [''thermalProfile''])
      | Inr current \<Rightarrow> ((current, opt_label (profile_for_value current)), []))"

definition fan_mode :: "fan_setting \<Rightarrow> bytes" where
  "fan_mode f =
     (if fan_cpu f = 0 \<and> fan_gpu f = 0 then ''auto''
      else if fan_cpu f = 100 \<and> fan_gpu f = 100 then ''max''
      else ''manual'')"

definition zero_fans :: fan_state where
  "zero_fans = \<lparr>fans_mode = [], fans_cpu = 0, fans_gpu = 0, fans_cpu_rpm = None,
                fans_gpu_rpm = None, fans_manual_allowed = False\<rparr>"

definition fan_section :: "'w fs_ops \<Rightarrow> 'w \<Rightarrow> bool \<Rightarrow> bytes \<Rightarrow> fan_state \<times> bytes list" where
  "fan_section fs w enabled profile =
     (case codec_section fs w enabled (predator_attr ''fan_speed'') parse_fan_setting ''fanControl'' of
        (None, notes) \<Rightarrow> (zero_fans, notes)
      | (Some f, notes) \<Rightarrow>
          (zero_fans\<lparr>fans_cpu := fan_cpu f, fans_gpu := fan_gpu f, fans_mode := fan_mode f,
                     fans_manual_allowed := (profile \<noteq> ''quiet'')\<rparr>, notes))"

definition note_if :: "bool \<Rightarrow> bytes \<Rightarrow> bytes list" where
  "note_if b label = (if b then [label] else [])"

definition slow_expired :: "'w controller \<Rightarrow> time \<Rightarrow> bool" where
  "slow_expired c now \<longleftrightarrow> time_sub now (slow_stamp (ctl_slow c)) > ctl_slow_ttl c"

definition snapshot ::
  "'w controller \<Rightarrow> 'w \<Rightarrow> time \<Rightarrow> (ctl_error, hw_state) result \<times> 'w controller" where
  "snapshot c w now =
     (let fs = ctl_fs c; caps = ctl_caps c;
          power = read_power_source fs w;
          ((current, label), d1) = profile_section fs w (cap_thermal_profile caps);
          (fans, d2) = fan_section fs w (cap_fan_control caps) current;
          ((cpu_rpm, gpu_rpm), sensors1) = read_fan_rpm fs w (ctl_sensors c);
          ((cpu, gpu), sensors2) = read_temperatures fs w sensors1;
          d3 = note_if (cap_fan_telemetry caps \<and> cpu_rpm = None \<and> gpu_rpm = None) ''fanTelemetry''
               @ note_if (cap_cpu_temperature caps \<and> cpu = None) ''cpuTemperature''
               @ note_if (cap_gpu_temperature caps \<and> gpu = None) ''gpuTemperature'';
          slow = (if slow_expired c now then refresh_slow fs caps w now else ctl_slow c);
          available = (if cap_thermal_profile caps
                       then Some (available_profiles (slow_choices slow) power) else None)
      in (Inr \<lparr>st_timestamp = now, st_power_source = power,
               st_profile = \<lparr>prof_value = current, prof_label = label, prof_available = available\<rparr>,
               st_fans = fans\<lparr>fans_cpu_rpm := cpu_rpm, fans_gpu_rpm := gpu_rpm\<rparr>,
               st_temperatures = \<lparr>temp_cpu = cpu, temp_gpu = gpu\<rparr>,
               st_settings = slow_settings slow, st_keyboard = slow_keyboard slow,
               st_capabilities = caps, st_driver_version = slow_driver_version slow,
               st_degraded = d1 @ d2 @ d3 @ slow_degraded slow\<rparr>,
          c\<lparr>ctl_sensors := sensors2, ctl_slow := slow\<rparr>))"

section \<open>The operations that write\<close>

type_synonym 'w outcome = "(ctl_error, hw_state) result \<times> 'w controller \<times> 'w"

text \<open>How every one of them ends: write, invalidate the slow cache, read everything back.\<close>

definition write_and_snapshot ::
  "'w controller \<Rightarrow> 'w \<Rightarrow> time \<Rightarrow> bytes \<Rightarrow> bytes \<Rightarrow> 'w outcome" where
  "write_and_snapshot c w now file data =
     (case fs_write (ctl_fs c) w file data of
        (Some e, w') \<Rightarrow> (Inl (Fs_Failed e), c, w')
      | (None, w') \<Rightarrow> (let (r, c') = snapshot (invalidate_slow c) w' now in (r, c', w')))"

definition set_profile :: "bytes \<Rightarrow> 'w controller \<Rightarrow> 'w \<Rightarrow> time \<Rightarrow> 'w outcome" where
  "set_profile value c w now =
     (if \<not> cap_thermal_profile (ctl_caps c) then (Inl ErrUnsupported, c, w)
      else case read_text (ctl_fs c) w choices_path of
        Inl e \<Rightarrow> (Inl e, c, w)
      | Inr raw \<Rightarrow>
          if \<exists>opt\<in>set (available_profiles (text_fields raw) (read_power_source (ctl_fs c) w)).
               opt_value opt = value
          then write_and_snapshot c w now profile_path value
          else (Inl (Profile_Unavailable value), c, w))"

definition set_fans :: "fan_setting \<Rightarrow> bool \<Rightarrow> 'w controller \<Rightarrow> 'w \<Rightarrow> time \<Rightarrow> 'w outcome" where
  "set_fans setting confirmed c w now =
     (if \<not> cap_fan_control (ctl_caps c) then (Inl ErrUnsupported, c, w)
      else case validate_fan setting of
        Some e \<Rightarrow> (Inl (Invalid_Setting e), c, w)
      | None \<Rightarrow>
          (let profile = (case read_text (ctl_fs c) w profile_path of Inl _ \<Rightarrow> [] | Inr p \<Rightarrow> p);
               is_auto = (fan_cpu setting = 0 \<and> fan_gpu setting = 0);
               is_high_performance = (profile = ''balanced-performance'' \<or> profile = ''performance'')
           in if profile = ''quiet'' \<and> \<not> is_auto then (Inl ErrConflict, c, w)
              else if is_high_performance \<and> \<not> is_auto \<and> (fan_cpu setting < 20 \<or> fan_gpu setting < 20)
                \<and> \<not> confirmed then (Inl ErrConfirmation, c, w)
              else write_and_snapshot c w now (predator_attr ''fan_speed'') (print_fan setting)))"

text \<open>The switch of \<open>SetBoolean\<close>: capability and attribute of a setting's name.\<close>

definition boolean_setting :: "bytes \<Rightarrow> capabilities \<Rightarrow> (bool \<times> bytes) option" where
  "boolean_setting name caps =
     (if name = ''battery-limiter'' then Some (cap_battery_limiter caps, ''battery_limiter'')
      else if name = ''battery-calibration'' then Some (cap_battery_calibration caps, ''battery_calibration'')
      else if name = ''backlight-timeout'' then Some (cap_backlight_timeout caps, ''backlight_timeout'')
      else if name = ''lcd-override'' then Some (cap_lcd_override caps, ''lcd_override'')
      else if name = ''boot-animation-sound'' then Some (cap_boot_animation_sound caps, ''boot_animation_sound'')
      else None)"

definition flag_text :: "bool \<Rightarrow> bytes" where
  "flag_text b = (if b then ''1'' else ''0'')"

definition set_boolean :: "bytes \<Rightarrow> bool \<Rightarrow> bool \<Rightarrow> 'w controller \<Rightarrow> 'w \<Rightarrow> time \<Rightarrow> 'w outcome" where
  "set_boolean name value confirmed c w now =
     (case boolean_setting name (ctl_caps c) of
        None \<Rightarrow> (Inl ErrUnsupported, c, w)
      | Some (supported, file) \<Rightarrow>
          if name = ''battery-calibration'' \<and> value \<and> \<not> confirmed then (Inl ErrConfirmation, c, w)
          else if \<not> supported then (Inl ErrUnsupported, c, w)
          else write_and_snapshot c w now (predator_attr file) (flag_text value))"

definition set_usb_charging :: "int \<Rightarrow> 'w controller \<Rightarrow> 'w \<Rightarrow> time \<Rightarrow> 'w outcome" where
  "set_usb_charging value c w now =
     (if \<not> cap_usb_charging (ctl_caps c) then (Inl ErrUnsupported, c, w)
      else if value \<noteq> 0 \<and> value \<noteq> 10 \<and> value \<noteq> 20 \<and> value \<noteq> 30 then (Inl Usb_Not_Allowed, c, w)
      else write_and_snapshot c w now (predator_attr ''usb_charging'') (itoa value))"

definition set_per_zone :: "zone_setting \<Rightarrow> 'w controller \<Rightarrow> 'w \<Rightarrow> time \<Rightarrow> 'w outcome" where
  "set_per_zone value c w now =
     (if \<not> cap_keyboard_per_zone (ctl_caps c) then (Inl ErrUnsupported, c, w)
      else case validate_zone value of
        Some e \<Rightarrow> (Inl (Invalid_Setting e), c, w)
      | None \<Rightarrow> write_and_snapshot c w now (keyboard_attr ''per_zone_mode'') (print_zone value))"

definition set_effect :: "effect_setting \<Rightarrow> 'w controller \<Rightarrow> 'w \<Rightarrow> time \<Rightarrow> 'w outcome" where
  "set_effect value c w now =
     (if \<not> cap_keyboard_effects (ctl_caps c) then (Inl ErrUnsupported, c, w)
      else case validate_effect value of
        Some e \<Rightarrow> (Inl (Invalid_Setting e), c, w)
      | None \<Rightarrow> write_and_snapshot c w now (keyboard_attr ''four_zone_mode'') (print_effect value))"

end
