(* ===== verification/Fixture.thy ===== *)
theory Fixture
  imports Controller
begin

text \<open>
  The fixture machine of \<open>controller_test.go\<close> (\<open>fixtureFS\<close>): the concrete world in which the
  properties of the controller are exercised.
\<close>

definition fixture :: mem_world where
  "fixture =
     [(predator_attr ''fan_speed'', ''0,0'' @ [CHR 0x0A]),
      (predator_attr ''battery_limiter'', ''0'' @ [CHR 0x0A]),
      (predator_attr ''battery_calibration'', ''0'' @ [CHR 0x0A]),
      (predator_attr ''backlight_timeout'', ''1'' @ [CHR 0x0A]),
      (predator_attr ''lcd_override'', ''0'' @ [CHR 0x0A]),
      (predator_attr ''usb_charging'', ''30'' @ [CHR 0x0A]),
      (predator_attr ''boot_animation_sound'', ''1'' @ [CHR 0x0A]),
      (predator_attr ''version'', ''1.0.0-test'' @ [CHR 0x0A]),
      (keyboard_attr ''per_zone_mode'', ''00aec7,00aec7,00aec7,00aec7,100'' @ [CHR 0x0A]),
      (keyboard_attr ''four_zone_mode'', ''0,5,100,1,0,174,199'' @ [CHR 0x0A]),
      (profile_path, ''balanced'' @ [CHR 0x0A]),
      (choices_path, ''low-power quiet balanced balanced-performance performance'' @ [CHR 0x0A]),
      (''sys/class/power_supply/ACAD/type'', ''Mains'' @ [CHR 0x0A]),
      (''sys/class/power_supply/ACAD/online'', ''1'' @ [CHR 0x0A]),
      (''sys/class/hwmon/hwmon4/name'', ''acer'' @ [CHR 0x0A]),
      (''sys/class/hwmon/hwmon4/fan1_input'', ''1786'' @ [CHR 0x0A]),
      (''sys/class/hwmon/hwmon4/fan2_input'', ''1760'' @ [CHR 0x0A]),
      (''sys/class/hwmon/hwmon6/name'', ''coretemp'' @ [CHR 0x0A]),
      (''sys/class/hwmon/hwmon6/temp1_label'', ''Package id 0'' @ [CHR 0x0A]),
      (''sys/class/hwmon/hwmon6/temp1_input'', ''48000'' @ [CHR 0x0A])]"

text \<open>
  A machine with a fan attribute and a profile only, and the controller that a probe of it
  gives, for the properties whose evaluation does not need the rest.
\<close>

definition bench_world :: mem_world where
  "bench_world =
     [(predator_attr ''fan_speed'', ''0,0'' @ [CHR 0x0A]),
      (profile_path, ''balanced'' @ [CHR 0x0A]),
      (choices_path, ''quiet balanced performance'' @ [CHR 0x0A])]"

definition bench_controller :: "mem_world controller" where
  "bench_controller =
     \<lparr>ctl_fs = mem_fs,
      ctl_caps = no_capabilities\<lparr>cap_fan_control := True, cap_thermal_profile := True\<rparr>,
      ctl_sensors = \<lparr>cpu_temp = [], gpu_temp = [], cpu_fan = [], gpu_fan = []\<rparr>,
      ctl_slow = zero_slow,
      ctl_slow_ttl = default_slow_ttl\<rparr>"

end
