(* ===== verification/Device_Properties.thy ===== *)
theory Device_Properties
  imports Profiles Fixture
begin

text \<open>
  The properties of the parts below the controller: the codecs, the confinement of the file
  system to its root, the power source, the sensors and the profiles.
\<close>

section \<open>Codecs\<close>

text \<open>The printed form of a fan setting parses back to it exactly for the settings that
  validation accepts; a setting out of range is not readable either.\<close>
theorem fan_codec_exact:
  "parse_fan_setting (print_fan f) = Inr f \<longleftrightarrow> validate_fan f = None"
  using parse_fan_print parse_fan_readable validate_fan_iff by blast

text \<open>C31. An effect may be written exactly when its printed form parses back to it and it has a
  direction: reading accepts direction 0, which the device reports for modes without one, and
  writing does not.\<close>
theorem effect_codec_exact:
  "validate_effect e = None \<longleftrightarrow>
     parse_effect_setting (print_effect e) = Inr e \<and> eff_direction e \<noteq> 0"
  using parse_effect_print parse_effect_readable validate_effect_iff by blast

text \<open>A zone setting that passes validation is printed as text which, with the newline that
  sysfs adds, parses to the same setting with its colours in lower case, passes validation
  again and prints the same.\<close>
theorem zone_codec_roundtrip:
  assumes "validate_zone z = None"
  shows "parse_zone_setting (print_zone z @ [CHR 0x0A]) = Inr (canon_zone z) \<and>
    validate_zone (canon_zone z) = None \<and> print_zone (canon_zone z) = print_zone z"
  using zone_codec.read_back zone_codec.validate_canon zone_codec.print_canon
    zone_codec.validate_readable [OF assms] assms by blast+

lemma zone_codec_roundtrip_witness:
  "parse_zone_setting (''00aec7,00aec7,ff00ff,00aec7,100'' @ [CHR 0x0A]) =
     Inr \<lparr>zone1 = ''00aec7'', zone2 = ''00aec7'', zone3 = ''ff00ff'', zone4 = ''00aec7'', zone_brightness = 100\<rparr>"
proof -
  let ?z = "\<lparr>zone1 = ''00AEC7'', zone2 = ''00aec7'', zone3 = ''Ff00fF'', zone4 = ''00aec7'', zone_brightness = 100\<rparr>"
  have "validate_zone ?z = None" "print_zone ?z = ''00aec7,00aec7,ff00ff,00aec7,100''"
    "canon_zone ?z = \<lparr>zone1 = ''00aec7'', zone2 = ''00aec7'', zone3 = ''ff00ff'', zone4 = ''00aec7'', zone_brightness = 100\<rparr>"
    by code_simp+
  with zone_codec_roundtrip [of ?z] show ?thesis by simp
qed

section \<open>The file system\<close>

text \<open>C22. A path that the file system accepts resolves to a path whose elements are those of the
  root followed by ordinary names: neither separators of either kind, nor dots, nor parent
  directories lead out of the root.\<close>
theorem resolved_paths_stay_below_root:
  fixes root :: bytes
  assumes "resolve root relative = Inr p"
  shows "below root p"
  using assms by (rule resolve_below)

lemma resolved_paths_stay_below_root_witness:
  "resolve ''/host/sys'' ''/class/../class/hwmon/./hwmon4/'' = Inr ''/host/sys/class/hwmon/hwmon4'' \<and>
   below ''/host/sys'' ''/host/sys/class/hwmon/hwmon4'' \<and>
   resolve ''/host/sys'' ''/class/../../etc/passwd'' = Inl Path_Escapes"
proof -
  have ok: "resolve ''/host/sys'' ''/class/../class/hwmon/./hwmon4/'' = Inr ''/host/sys/class/hwmon/hwmon4''"
    by code_simp
  moreover have "resolve ''/host/sys'' ''/class/../../etc/passwd'' = Inl Path_Escapes" by code_simp
  ultimately show ?thesis using resolved_paths_stay_below_root [OF ok] by simp
qed

text \<open>The file system depends on the kernel below its root only: two kernels that agree there
  give the same file system, so nothing outside is read, listed, opened or written.\<close>
theorem kernel_outside_root_is_unused:
  fixes root :: bytes
  assumes "\<And>w p. below root p \<Longrightarrow> os_read_file os1 w p = os_read_file os2 w p"
    and "\<And>w p. below root p \<Longrightarrow> os_open os1 w p = os_open os2 w p"
    and "\<And>w p d. below root p \<Longrightarrow> os_write os1 w p d = os_write os2 w p d"
    and "\<And>w p. below root p \<Longrightarrow> os_read_dir os1 w p = os_read_dir os2 w p"
    and "\<And>w p. below root p \<Longrightarrow> os_stat os1 w p = os_stat os2 w p"
  shows "os_file_system root os1 = os_file_system root os2"
  using assms by (rule os_file_system_cong)

definition bare_os :: "unit os_ops" where
  "bare_os = \<lparr>os_read_file = (\<lambda>w p. Inl Not_Exist), os_open = (\<lambda>w p. (None, w)),
              os_write = (\<lambda>w p d. (None, w)), os_read_dir = (\<lambda>w p. Inr []), os_stat = (\<lambda>w p. Inr ())\<rparr>"

lemma kernel_outside_root_is_unused_witness:
  "os_file_system ''/sys'' (bare_os\<lparr>os_read_file := (\<lambda>w p. if p = ''/etc/shadow'' then Inr ''secret'' else Inl Not_Exist)\<rparr>)
     = os_file_system ''/sys'' bare_os"
proof (rule kernel_outside_root_is_unused)
  have "path_elems ''/etc/shadow'' = [''etc'', ''shadow'']" "path_elems ''/sys'' = [''sys'']"
    by code_simp+
  then have "\<not> below ''/sys'' ''/etc/shadow''" by (auto simp: below_def)
  then show "os_read_file (bare_os\<lparr>os_read_file := (\<lambda>w p. if p = ''/etc/shadow'' then Inr ''secret'' else Inl Not_Exist)\<rparr>) w p
      = os_read_file bare_os w p" if "below ''/sys'' p" for w p
    using that by (auto simp: bare_os_def)
qed simp_all

section \<open>Power source and sensors\<close>

text \<open>The power source is mains when some mains supply reads as online, battery when there is
  a mains supply but none is online, and unknown when there is none or the list of supplies
  cannot be read; the order of the supplies does not matter.\<close>
theorem power_source_spec:
  "read_power_source fs w =
     (case fs_readdir fs w power_supply_dir of
        Inl _ \<Rightarrow> ''unknown''
      | Inr entries \<Rightarrow>
          if \<exists>e\<in>set entries. is_mains fs w e \<and> is_online fs w e then ''ac''
          else if \<exists>e\<in>set entries. is_mains fs w e then ''battery''
          else ''unknown'')"
  by (cases "fs_readdir fs w power_supply_dir")
    (simp_all only: read_power_source_def scan_supplies_eq sum.case simp_thms)

text \<open>C23. Sensor resolution, declaratively. The directories are those of the hwmon class that are
  directories or links, in the order of their names. Each input is that of the last directory of its
  kind: the input of the first channel that carries the label, if it exists, else the documented
  input, if that exists, else none. A dedicated temperature sensor comes before the embedded
  controller's, and every path that is kept exists.\<close>
theorem resolve_sensors_spec:
  "resolve_sensors fs w =
     (let dirs = hwmon_directories fs w;
          coretemp = from_last (hwmon_named fs w [''coretemp''])
            (\<lambda>d. channel_input fs w d ''temp'' ''Package id 0'' ''temp1_input'') [] dirs;
          graphics = from_last (hwmon_named fs w [''nvidia'', ''amdgpu''])
            (\<lambda>d. if_exists fs w (path_join [d, ''temp1_input''])) [] dirs;
          acer = (\<lambda>kind label documented. from_last (hwmon_named fs w [''acer''])
            (\<lambda>d. channel_input fs w d kind label documented) [] dirs)
      in \<lparr>cpu_temp = (if coretemp = [] then acer ''temp'' ''CPU'' ''temp1_input'' else coretemp),
          gpu_temp = (if graphics = [] then acer ''temp'' ''GPU'' ''temp2_input'' else graphics),
          cpu_fan = acer ''fan'' ''CPU Fan'' ''fan1_input'',
          gpu_fan = acer ''fan'' ''GPU Fan'' ''fan2_input''\<rparr>)
   \<and> sensors_exist fs w (resolve_sensors fs w)
   \<and> sorted (hwmon_directories fs w)
   \<and> set (hwmon_directories fs w) = (case fs_readdir fs w ''sys/class/hwmon'' of
        Inl _ \<Rightarrow> {}
      | Inr entries \<Rightarrow>
          {path_join [''sys/class/hwmon'', entry_name e] |e. e \<in> set entries \<and> (entry_is_dir e \<or> entry_is_symlink e)})"
  using hwmon_directories_sorted [of fs w] hwmon_directories_set [of fs w]
  by (simp add: sensors_exist_resolve)
    (simp add: resolve_sensors_def Let_def resolve_dirs_fields start_resolving_def labelled_or_channel first_existing_single)

text \<open>The fan speeds and temperatures that are reported are read at the paths that are kept
  afterwards, so a reading never comes from a path that was just found stale.\<close>
theorem readings_belong_to_kept_paths:
  "(let ((cpu, gpu), s') = read_fan_rpm fs w s
    in cpu = read_optional_int fs w (cpu_fan s') \<and> gpu = read_optional_int fs w (gpu_fan s') \<and>
       s' \<in> {s, resolve_sensors fs w})
   \<and> (let ((cpu, gpu), s') = read_temperatures fs w s
      in cpu = read_optional_temperature fs w (cpu_temp s') \<and>
         gpu = read_optional_temperature fs w (gpu_temp s') \<and> s' \<in> {s, resolve_sensors fs w})"
  using read_fan_rpm_result [of fs w s] read_temperatures_result [of fs w s]
  by (auto simp: Let_def split: prod.splits)

section \<open>Profiles\<close>

text \<open>The profiles offered are the driver's choices that the power source permits, each once,
  in the table's order whatever the order of the choices.\<close>
theorem available_profiles_spec:
  "map opt_value (available_profiles choices source) =
     filter (\<lambda>v. v \<in> set choices \<and> v \<in> set (permitted_profiles source))
       [''low-power'', ''quiet'', ''balanced'', ''balanced-performance'', ''performance'']
   \<and> distinct (map opt_value (available_profiles choices source))
   \<and> set (available_profiles choices source) \<subseteq> set profile_options"
proof (intro conjI)
  have vals: "map opt_value profile_options =
      [''low-power'', ''quiet'', ''balanced'', ''balanced-performance'', ''performance'']"
    by (simp add: profile_options_def)
  show "map opt_value (available_profiles choices source) =
     filter (\<lambda>v. v \<in> set choices \<and> v \<in> set (permitted_profiles source))
       [''low-power'', ''quiet'', ''balanced'', ''balanced-performance'', ''performance'']"
    by (simp only: available_order vals Int_iff)
  show "set (available_profiles choices source) \<subseteq> set profile_options"
    by (auto simp: available_profiles_def)
qed (rule distinct_available)

end
