(* ===== verification/Controller_Laws.thy ===== *)
theory Controller_Laws
  imports Controller
begin

text \<open>
  What the controller's operations promise. First the snapshot: its cache is never older than
  its time to live, its list of degraded sections is the table of the checks that failed, and
  every state it returns is in range. Then the writing operations, through the locale
  \<open>controller_op\<close>: an operation is refused without any effect, or makes one allowed write and
  returns what is read back after it.
\<close>

section \<open>Attribute paths are distinct\<close>

lemma predator_base_elems:
  "path_elems predator_base = [''sys'', ''module'', ''linuwu_sense'', ''drivers'',
     ''platform:acer-wmi'', ''acer-wmi'', ''predator_sense'']" "predator_base \<noteq> []"
  by code_simp+

lemma keyboard_base_elems:
  "path_elems keyboard_base = [''sys'', ''module'', ''linuwu_sense'', ''drivers'',
     ''platform:acer-wmi'', ''acer-wmi'', ''four_zoned_kb'']" "keyboard_base \<noteq> []"
  by code_simp+

lemma profile_path_elems:
  "path_elems profile_path = [''sys'', ''firmware'', ''acpi'', ''platform_profile'']"
  "path_elems choices_path = [''sys'', ''firmware'', ''acpi'', ''platform_profile_choices'']"
  by code_simp+

lemma attr_elems [path_facts]:
  "plain_elem a \<Longrightarrow> path_elems (predator_attr a) = path_elems predator_base @ [a]"
  "plain_elem a \<Longrightarrow> path_elems (keyboard_attr a) = path_elems keyboard_base @ [a]"
  by (simp_all add: predator_attr_def keyboard_attr_def path_elems_join_name
      predator_base_elems(2) keyboard_base_elems(2))

lemmas all_path_elems = attr_elems predator_base_elems keyboard_base_elems profile_path_elems

lemma paths_distinct [simp]:
  assumes "plain_elem a" "plain_elem b"
  shows "predator_attr a = predator_attr b \<longleftrightarrow> a = b"
    "keyboard_attr a = keyboard_attr b \<longleftrightarrow> a = b"
    "predator_attr a \<noteq> keyboard_attr b" "keyboard_attr b \<noteq> predator_attr a"
    "predator_attr a \<noteq> profile_path" "profile_path \<noteq> predator_attr a"
    "predator_attr a \<noteq> choices_path" "choices_path \<noteq> predator_attr a"
    "keyboard_attr b \<noteq> profile_path" "profile_path \<noteq> keyboard_attr b"
    "keyboard_attr b \<noteq> choices_path" "choices_path \<noteq> keyboard_attr b"
  by (auto dest!: arg_cong [where f = path_elems] simp: all_path_elems assms)

lemma profile_choices_distinct [simp]: "profile_path \<noteq> choices_path" "choices_path \<noteq> profile_path"
  by (auto dest!: arg_cong [where f = path_elems] simp: profile_path_elems)

lemma plain_elem_attrs [simp]:
  "plain_elem ''fan_speed''" "plain_elem ''usb_charging''" "plain_elem ''version''"
  "plain_elem ''battery_limiter''" "plain_elem ''battery_calibration''"
  "plain_elem ''backlight_timeout''" "plain_elem ''lcd_override''"
  "plain_elem ''boot_animation_sound''" "plain_elem ''per_zone_mode''" "plain_elem ''four_zone_mode''"
  by (simp_all add: plain_elem_def dotdot_def)

section \<open>The snapshot\<close>

lemma snapshot_total: "\<exists>st c'. snapshot c w now = (Inr st, c')"
  by (simp add: snapshot_def Let_def split: prod.splits)

lemma snapshot_frame:
  assumes "snapshot c w now = (r, c')"
  shows "ctl_fs c' = ctl_fs c" "ctl_caps c' = ctl_caps c" "ctl_slow_ttl c' = ctl_slow_ttl c"
    "ctl_slow c' = (if slow_expired c now then refresh_slow (ctl_fs c) (ctl_caps c) w now else ctl_slow c)"
  using assms by (auto simp: snapshot_def Let_def split: prod.splits)

lemma snapshot_from_slow:
  assumes "snapshot c w now = (Inr st, c')"
  shows "st_settings st = slow_settings (ctl_slow c')" "st_keyboard st = slow_keyboard (ctl_slow c')"
    "st_driver_version st = slow_driver_version (ctl_slow c')"
    "st_capabilities st = ctl_caps c" "st_power_source st = read_power_source (ctl_fs c) w"
    "prof_available (st_profile st) = (if cap_thermal_profile (ctl_caps c)
       then Some (available_profiles (slow_choices (ctl_slow c')) (st_power_source st)) else None)"
  using assms by (auto simp: snapshot_def Let_def split: prod.splits)

lemma slow_stamp_refresh [simp]: "slow_stamp (refresh_slow fs caps w now) = now"
  by (simp add: refresh_slow_def Let_def split: prod.splits)

lemma snapshot_fresh:
  assumes "snapshot c w now = (r, c')" "0 \<le> ctl_slow_ttl c"
  shows "\<not> slow_expired c' now"
  using assms snapshot_frame [OF assms(1)]
  by (auto simp: slow_expired_def time_sub_def max_duration_def min_duration_def)

text \<open>Invalidating the cache makes the next snapshot re-read it, once the clock has run past the TTL.\<close>

lemma slow_expired_invalidate:
  assumes "ctl_slow_ttl c < now" "ctl_slow_ttl c < max_duration"
  shows "slow_expired (invalidate_slow c) now"
  using assms by (auto simp: slow_expired_def invalidate_slow_def time_sub_def)

lemma write_and_snapshot_ok:
  "is_ok (fst (write_and_snapshot c w now p d)) \<longleftrightarrow> fst (fs_write (ctl_fs c) w p d) = None"
proof (cases "fs_write (ctl_fs c) w p d")
  case (Pair res w')
  obtain st c' where "snapshot (invalidate_slow c) w' now = (Inr st, c')"
    using snapshot_total [of "invalidate_slow c" w' now] by auto
  with Pair show ?thesis by (cases res) (simp_all add: write_and_snapshot_def)
qed

lemma write_and_snapshot_world: "snd (snd (write_and_snapshot c w now p d)) = snd (fs_write (ctl_fs c) w p d)"
  by (simp add: write_and_snapshot_def case_prod_beta split: prod.splits option.splits)

section \<open>Degraded sections are the failed checks\<close>

text \<open>A check is a section's name, whether it applies, and whether its attribute reads well.\<close>

type_synonym check = "bytes \<times> bool \<times> bool"

definition failed :: "check list \<Rightarrow> bytes list" where
  "failed checks = map fst (filter (\<lambda>(label, applies, good). applies \<and> \<not> good) checks)"

definition reads_as :: "'w fs_ops \<Rightarrow> 'w \<Rightarrow> bytes \<Rightarrow> (bytes \<Rightarrow> bool) \<Rightarrow> bool" where
  "reads_as fs w file P \<longleftrightarrow> (case read_text fs w file of Inl _ \<Rightarrow> False | Inr t \<Rightarrow> P t)"

definition usb_text :: "bytes \<Rightarrow> bool" where
  "usb_text t \<longleftrightarrow> (case atoi t of None \<Rightarrow> False | Some v \<Rightarrow> usb_level v)"

definition flag_check :: "'w fs_ops \<Rightarrow> 'w \<Rightarrow> bool \<Rightarrow> bytes \<Rightarrow> bytes \<Rightarrow> check" where
  "flag_check fs w applies attr label =
     (label, applies, reads_as fs w (predator_attr attr) (\<lambda>t. t \<in> {''0'', ''1''}))"

definition slow_checks :: "'w fs_ops \<Rightarrow> capabilities \<Rightarrow> 'w \<Rightarrow> check list" where
  "slow_checks fs caps w =
     [(''profileChoices'', cap_thermal_profile caps, reads_as fs w choices_path (\<lambda>_. True)),
      flag_check fs w (cap_battery_limiter caps) ''battery_limiter'' ''batteryLimiter'',
      flag_check fs w (cap_battery_calibration caps) ''battery_calibration'' ''batteryCalibration'',
      flag_check fs w (cap_backlight_timeout caps) ''backlight_timeout'' ''backlightTimeout'',
      flag_check fs w (cap_lcd_override caps) ''lcd_override'' ''lcdOverride'',
      flag_check fs w (cap_boot_animation_sound caps) ''boot_animation_sound'' ''bootAnimationSound'',
      (''usbCharging'', cap_usb_charging caps, reads_as fs w (predator_attr ''usb_charging'') usb_text),
      (''keyboardPerZone'', cap_keyboard_per_zone caps,
        reads_as fs w (keyboard_attr ''per_zone_mode'') (\<lambda>t. is_ok (parse_zone_setting t))),
      (''keyboardEffects'', cap_keyboard_effects caps,
        reads_as fs w (keyboard_attr ''four_zone_mode'') (\<lambda>t. is_ok (parse_effect_setting t)))]"

definition live_checks :: "'w fs_ops \<Rightarrow> capabilities \<Rightarrow> 'w \<Rightarrow> hw_state \<Rightarrow> check list" where
  "live_checks fs caps w st =
     [(''thermalProfile'', cap_thermal_profile caps, reads_as fs w profile_path (\<lambda>_. True)),
      (''fanControl'', cap_fan_control caps,
        reads_as fs w (predator_attr ''fan_speed'') (\<lambda>t. is_ok (parse_fan_setting t))),
      (''fanTelemetry'', cap_fan_telemetry caps,
        fans_cpu_rpm (st_fans st) \<noteq> None \<or> fans_gpu_rpm (st_fans st) \<noteq> None),
      (''cpuTemperature'', cap_cpu_temperature caps, temp_cpu (st_temperatures st) \<noteq> None),
      (''gpuTemperature'', cap_gpu_temperature caps, temp_gpu (st_temperatures st) \<noteq> None)]"

lemma failed_Nil [simp]: "failed [] = []"
  by (simp add: failed_def)

lemma failed_Cons: "failed ((l, a, g) # cs) = note_if (a \<and> \<not> g) l @ failed cs"
  by (simp add: failed_def note_if_def)

lemma snd_flag_section:
  "snd (flag_section fs w e attr l) =
     note_if (e \<and> \<not> reads_as fs w (predator_attr attr) (\<lambda>t. t \<in> {''0'', ''1''})) l"
  by (auto simp: flag_section_def read_bool_def reads_as_def note_if_def split: sum.splits)

lemma snd_choices_section:
  "snd (choices_section fs w e) =
     note_if (e \<and> \<not> reads_as fs w choices_path (\<lambda>_. True)) ''profileChoices''"
  by (auto simp: choices_section_def reads_as_def note_if_def split: sum.splits)

lemma snd_usb_section:
  "snd (usb_section fs w e) =
     note_if (e \<and> \<not> reads_as fs w (predator_attr ''usb_charging'') usb_text) ''usbCharging''"
  by (auto simp: usb_section_def reads_as_def note_if_def usb_text_def split: sum.splits option.splits)

lemma snd_codec_section:
  "snd (codec_section fs w e file parse l) = note_if (e \<and> \<not> reads_as fs w file (\<lambda>t. is_ok (parse t))) l"
  by (auto simp: codec_section_def reads_as_def note_if_def split: sum.splits)

lemma snd_profile_section:
  "snd (profile_section fs w e) =
     note_if (e \<and> \<not> reads_as fs w profile_path (\<lambda>_. True)) ''thermalProfile''"
  by (auto simp: profile_section_def reads_as_def note_if_def split: sum.splits)

lemma snd_fan_section:
  "snd (fan_section fs w e p) =
     note_if (e \<and> \<not> reads_as fs w (predator_attr ''fan_speed'') (\<lambda>t. is_ok (parse_fan_setting t))) ''fanControl''"
  using snd_codec_section [of fs w e "predator_attr ''fan_speed''" parse_fan_setting "''fanControl''"]
  by (auto simp: fan_section_def split: prod.splits option.splits)

lemmas section_notes =
  snd_flag_section snd_choices_section snd_usb_section snd_codec_section snd_profile_section
  snd_fan_section

lemma slow_degraded_refresh: "slow_degraded (refresh_slow fs caps w now) = failed (slow_checks fs caps w)"
  by (simp add: refresh_slow_def Let_def case_prod_beta section_notes slow_checks_def flag_check_def
      failed_Cons)

lemma snapshot_degraded:
  assumes "snapshot c w now = (Inr st, c')"
  shows "st_degraded st =
    failed (live_checks (ctl_fs c) (ctl_caps c) w st) @ slow_degraded (ctl_slow c')"
  using assms
  by (auto simp: snapshot_def Let_def case_prod_beta section_notes live_checks_def failed_Cons
      conj_ac)

section \<open>The write that an operation may make\<close>

definition profile_text :: "'w fs_ops \<Rightarrow> 'w \<Rightarrow> bytes" where
  "profile_text fs w = (case read_text fs w profile_path of Inl _ \<Rightarrow> [] | Inr p \<Rightarrow> p)"

text \<open>The data is exactly what the codec prints for a setting that passes its validation.\<close>

definition canonical_data ::
  "(bytes \<Rightarrow> (codec_error, 'a) result) \<Rightarrow> ('a \<Rightarrow> bytes) \<Rightarrow> ('a \<Rightarrow> bool) \<Rightarrow> bytes \<Rightarrow> bool" where
  "canonical_data parse print_it good d \<longleftrightarrow>
     (case parse d of Inl _ \<Rightarrow> False | Inr x \<Rightarrow> print_it x = d \<and> good x)"

definition boolean_names :: "bytes list" where
  "boolean_names = [''battery-limiter'', ''battery-calibration'', ''backlight-timeout'',
     ''lcd-override'', ''boot-animation-sound'']"

definition allowed_write :: "'w controller \<Rightarrow> 'w \<Rightarrow> bytes \<Rightarrow> bytes \<Rightarrow> bool" where
  "allowed_write c w p d \<longleftrightarrow>
     (let fs = ctl_fs c; caps = ctl_caps c in
      (cap_thermal_profile caps \<and> p = profile_path \<and>
         d \<in> set (permitted_profiles (read_power_source fs w)))
    \<or> (cap_fan_control caps \<and> p = predator_attr ''fan_speed'' \<and>
         canonical_data parse_fan_setting print_fan
           (\<lambda>f. validate_fan f = None \<and> (profile_text fs w = ''quiet'' \<longrightarrow> fan_mode f = ''auto'')) d)
    \<or> (\<exists>name\<in>set boolean_names. \<exists>file. boolean_setting name caps = Some (True, file) \<and>
         p = predator_attr file \<and> d \<in> {''0'', ''1''})
    \<or> (cap_usb_charging caps \<and> p = predator_attr ''usb_charging'' \<and>
         d \<in> {''0'', ''10'', ''20'', ''30''})
    \<or> (cap_keyboard_per_zone caps \<and> p = keyboard_attr ''per_zone_mode'' \<and>
         canonical_data parse_zone_setting print_zone (\<lambda>z. validate_zone z = None) d)
    \<or> (cap_keyboard_effects caps \<and> p = keyboard_attr ''four_zone_mode'' \<and>
         canonical_data parse_effect_setting print_effect (\<lambda>e. validate_effect e = None) d))"

section \<open>The contract of a writing operation\<close>

definition guarded_outcome :: "'w controller \<Rightarrow> 'w \<Rightarrow> time \<Rightarrow> 'w outcome \<Rightarrow> bool" where
  "guarded_outcome c w now out \<longleftrightarrow>
     (\<exists>e. out = (Inl e, c, w)) \<or>
     (\<exists>p d. allowed_write c w p d \<and> out = write_and_snapshot c w now p d)"

lemma guarded_refusal [simp]: "guarded_outcome c w now (Inl e, c, w)"
  by (simp add: guarded_outcome_def)

lemma guarded_write [intro]:
  "allowed_write c w p d \<Longrightarrow> guarded_outcome c w now (write_and_snapshot c w now p d)"
  by (auto simp: guarded_outcome_def)

locale controller_op =
  fixes run :: "'w controller \<Rightarrow> 'w \<Rightarrow> time \<Rightarrow> 'w outcome"
  assumes run_guarded: "guarded_outcome c w now (run c w now)"
begin

lemma run_error:
  assumes "run c w now = (Inl e, c', w')"
  shows "c' = c \<and>
    (w' = w \<or> (\<exists>p d f. allowed_write c w p d \<and> e = Fs_Failed f \<and> fs_write (ctl_fs c) w p d = (Some f, w')))"
proof -
  have "snapshot (invalidate_slow c) v now \<noteq> (Inl e, c')" for v
    using snapshot_total [of "invalidate_slow c" v now] by auto
  then show ?thesis
    using run_guarded [of c w now] assms unfolding guarded_outcome_def
    by (fastforce simp: write_and_snapshot_def split: prod.splits option.splits)
qed

lemma run_success:
  assumes "run c w now = (Inr st, c', w')"
  shows "\<exists>p d. allowed_write c w p d \<and> fs_write (ctl_fs c) w p d = (None, w') \<and>
    snapshot (invalidate_slow c) w' now = (Inr st, c')"
  using run_guarded [of c w now] assms unfolding guarded_outcome_def
  by (fastforce simp: write_and_snapshot_def split: prod.splits option.splits)

lemma run_frame:
  assumes "run c w now = (r, c', w')"
  shows "ctl_fs c' = ctl_fs c" "ctl_caps c' = ctl_caps c" "ctl_slow_ttl c' = ctl_slow_ttl c"
proof -
  have "ctl_fs c' = ctl_fs c \<and> ctl_caps c' = ctl_caps c \<and> ctl_slow_ttl c' = ctl_slow_ttl c"
  proof (cases r)
    case (Inl e)
    with run_error assms show ?thesis by blast
  next
    case (Inr st)
    with run_success assms obtain w1 where "snapshot (invalidate_slow c) w1 now = (Inr st, c')" by blast
    from snapshot_frame [OF this] show ?thesis by (simp add: invalidate_slow_def)
  qed
  then show "ctl_fs c' = ctl_fs c" "ctl_caps c' = ctl_caps c" "ctl_slow_ttl c' = ctl_slow_ttl c"
    by auto
qed

text \<open>Success is a truthful read-back: the slow settings returned are read after the write.\<close>

lemma run_truthful:
  assumes "run c w now = (Inr st, c', w')" "ctl_slow_ttl c < now" "ctl_slow_ttl c < max_duration"
  shows "ctl_slow c' = refresh_slow (ctl_fs c) (ctl_caps c) w' now"
    and "st_settings st = slow_settings (refresh_slow (ctl_fs c) (ctl_caps c) w' now)"
    and "st_keyboard st = slow_keyboard (refresh_slow (ctl_fs c) (ctl_caps c) w' now)"
proof -
  obtain p d where snap: "snapshot (invalidate_slow c) w' now = (Inr st, c')"
    using run_success [OF assms(1)] by blast
  show slow: "ctl_slow c' = refresh_slow (ctl_fs c) (ctl_caps c) w' now"
    using snapshot_frame(4) [OF snap] slow_expired_invalidate [OF assms(2,3)]
    by (simp add: invalidate_slow_def)
  from snapshot_from_slow [OF snap] slow
  show "st_settings st = slow_settings (refresh_slow (ctl_fs c) (ctl_caps c) w' now)"
    "st_keyboard st = slow_keyboard (refresh_slow (ctl_fs c) (ctl_caps c) w' now)" by simp_all
qed

end

section \<open>Every setter keeps the contract\<close>

lemma canonical_fan:
  "validate_fan f = None \<Longrightarrow> good f \<Longrightarrow> canonical_data parse_fan_setting print_fan good (print_fan f)"
  by (simp add: canonical_data_def fan_codec.parse_print fan_codec.validate_readable)

lemma canonical_effect:
  "validate_effect e = None \<Longrightarrow> good e \<Longrightarrow>
   canonical_data parse_effect_setting print_effect good (print_effect e)"
  by (simp add: canonical_data_def effect_codec.parse_print effect_codec.validate_readable)

lemma canonical_zone:
  "validate_zone z = None \<Longrightarrow> good (canon_zone z) \<Longrightarrow>
   canonical_data parse_zone_setting print_zone good (print_zone z)"
  by (simp add: canonical_data_def zone_codec.parse_print zone_codec.validate_readable
      zone_codec.print_canon)

interpretation set_profile_op: controller_op "set_profile v" for v
proof
  fix c :: "'w controller" and w now
  have "allowed_write c w profile_path v"
    if "cap_thermal_profile (ctl_caps c)" "opt_value opt = v"
      "opt \<in> set (available_profiles choices (read_power_source (ctl_fs c) w))" for opt choices
    using that available_values [of choices "read_power_source (ctl_fs c) w"]
    unfolding allowed_write_def Let_def by blast
  then show "guarded_outcome c w now (set_profile v c w now)"
    unfolding set_profile_def by (auto split: sum.splits)
qed

interpretation set_fans_op: controller_op "set_fans f confirmed" for f confirmed
proof
  fix c :: "'w controller" and w now
  have "allowed_write c w (predator_attr ''fan_speed'') (print_fan f)"
    if "cap_fan_control (ctl_caps c)" "validate_fan f = None"
      "profile_text (ctl_fs c) w = ''quiet'' \<longrightarrow> fan_mode f = ''auto''"
    using that canonical_fan [of f] unfolding allowed_write_def Let_def by auto
  then show "guarded_outcome c w now (set_fans f confirmed c w now)"
    unfolding set_fans_def Let_def profile_text_def
    by (auto simp: fan_mode_def split: option.splits)
qed

lemma boolean_setting_names: "boolean_setting name caps = Some x \<Longrightarrow> name \<in> set boolean_names"
  by (auto simp: boolean_setting_def boolean_names_def split: if_splits)

interpretation set_boolean_op: controller_op "set_boolean name v confirmed" for name v confirmed
proof
  fix c :: "'w controller" and w now
  have "allowed_write c w (predator_attr attr) (flag_text v)"
    if "boolean_setting name (ctl_caps c) = Some (True, attr)" for attr
    using that boolean_setting_names [OF that] unfolding allowed_write_def Let_def
    by (auto simp: flag_text_def)
  then show "guarded_outcome c w now (set_boolean name v confirmed c w now)"
    unfolding set_boolean_def by (auto split: option.splits)
qed

lemma itoa_usb: "itoa 0 = ''0''" "itoa 10 = ''10''" "itoa 20 = ''20''" "itoa 30 = ''30''"
  by code_simp+

interpretation set_usb_op: controller_op "set_usb_charging v" for v
proof
  fix c :: "'w controller" and w now
  show "guarded_outcome c w now (set_usb_charging v c w now)"
    unfolding set_usb_charging_def
    by (auto simp: itoa_usb intro!: guarded_write) (auto simp: allowed_write_def)
qed

interpretation set_zone_op: controller_op "set_per_zone z" for z
proof
  fix c :: "'w controller" and w now
  have "allowed_write c w (keyboard_attr ''per_zone_mode'') (print_zone z)"
    if "cap_keyboard_per_zone (ctl_caps c)" "validate_zone z = None"
    using that canonical_zone [of z] zone_codec.validate_canon
    unfolding allowed_write_def Let_def by auto
  then show "guarded_outcome c w now (set_per_zone z c w now)"
    unfolding set_per_zone_def by (auto split: option.splits)
qed

interpretation set_effect_op: controller_op "set_effect e" for e
proof
  fix c :: "'w controller" and w now
  have "allowed_write c w (keyboard_attr ''four_zone_mode'') (print_effect e)"
    if "cap_keyboard_effects (ctl_caps c)" "validate_effect e = None"
    using that canonical_effect [of e] unfolding allowed_write_def Let_def by auto
  then show "guarded_outcome c w now (set_effect e c w now)"
    unfolding set_effect_def by (auto split: option.splits)
qed

end
