(* ===== verification/Controller_Runs.thy ===== *)
theory Controller_Runs
  imports Controller_Laws
begin

text \<open>
  The controller over whole histories. \<open>request\<close> is what the HTTP layer asks of it, \<open>serve\<close>
  answers one request, and \<open>ctl_step\<close> interleaves requests with the hardware changing on its
  own. Every state that is ever reported is in range, and on a file system that stores what is
  written a successful request is reported back as it was asked.
\<close>

section \<open>Requests\<close>

datatype request =
    Get_State
  | Put_Profile bytes
  | Put_Fans fan_setting bool
  | Put_Boolean bytes bool bool
  | Put_Usb int
  | Put_Zone zone_setting
  | Put_Effect effect_setting

fun serve :: "request \<Rightarrow> 'w controller \<Rightarrow> 'w \<Rightarrow> time \<Rightarrow> 'w outcome" where
  "serve Get_State c w now = (let (r, c') = snapshot c w now in (r, c', w))"
| "serve (Put_Profile v) c w now = set_profile v c w now"
| "serve (Put_Fans f confirmed) c w now = set_fans f confirmed c w now"
| "serve (Put_Boolean name v confirmed) c w now = set_boolean name v confirmed c w now"
| "serve (Put_Usb v) c w now = set_usb_charging v c w now"
| "serve (Put_Zone z) c w now = set_per_zone z c w now"
| "serve (Put_Effect e) c w now = set_effect e c w now"

lemma serve_guarded: "req \<noteq> Get_State \<Longrightarrow> guarded_outcome c w now (serve req c w now)"
  by (cases req)
    (simp_all add: set_profile_op.run_guarded set_fans_op.run_guarded set_boolean_op.run_guarded
      set_usb_op.run_guarded set_zone_op.run_guarded set_effect_op.run_guarded)

text \<open>All writing requests at once, with reading answered as a refusal to write.\<close>

definition serve_write :: "request \<Rightarrow> 'w controller \<Rightarrow> 'w \<Rightarrow> time \<Rightarrow> 'w outcome" where
  "serve_write req c w now =
     (if req = Get_State then (Inl ErrUnsupported, c, w) else serve req c w now)"

interpretation serve_op: controller_op "serve_write req" for req
  by unfold_locales (simp add: serve_write_def serve_guarded)

section \<open>States in range\<close>

definition slow_in_range :: "slow_state \<Rightarrow> bool" where
  "slow_in_range s \<longleftrightarrow>
     usb_level (set_usb_charging_level (slow_settings s)) \<and>
     (case kb_per_zone (slow_keyboard s) of None \<Rightarrow> True | Some z \<Rightarrow> readable_zone z) \<and>
     (case kb_effect (slow_keyboard s) of None \<Rightarrow> True | Some e \<Rightarrow> readable_effect e)"

definition fans_in_range :: "fan_state \<Rightarrow> bool" where
  "fans_in_range f \<longleftrightarrow>
     0 \<le> fans_cpu f \<and> fans_cpu f \<le> 100 \<and> 0 \<le> fans_gpu f \<and> fans_gpu f \<le> 100 \<and>
     (fans_mode f = [] \<or> fans_mode f = fan_mode \<lparr>fan_cpu = fans_cpu f, fan_gpu = fans_gpu f\<rparr>)"

definition state_in_range :: "hw_state \<Rightarrow> bool" where
  "state_in_range st \<longleftrightarrow>
     fans_in_range (st_fans st) \<and>
     (fans_manual_allowed (st_fans st) \<longrightarrow> prof_value (st_profile st) \<noteq> ''quiet'') \<and>
     usb_level (set_usb_charging_level (st_settings st)) \<and>
     (case kb_per_zone (st_keyboard st) of None \<Rightarrow> True | Some z \<Rightarrow> readable_zone z) \<and>
     (case kb_effect (st_keyboard st) of None \<Rightarrow> True | Some e \<Rightarrow> readable_effect e) \<and>
     (case prof_available (st_profile st) of
        None \<Rightarrow> True | Some opts \<Rightarrow> opt_value ` set opts \<subseteq> set (permitted_profiles (st_power_source st))) \<and>
     st_power_source st \<in> {''ac'', ''battery'', ''unknown''}"

lemma slow_in_range_zero: "slow_in_range zero_slow"
  by (simp add: slow_in_range_def zero_slow_def zero_settings_def usb_level_def)

lemma usb_section_level: "usb_level (fst (usb_section fs w e))"
  by (auto simp: usb_section_def usb_level_def split: sum.splits option.splits)

lemma codec_section_readable:
  "fst (codec_section fs w e file parse l) = Some x \<Longrightarrow> \<exists>t. parse t = Inr x"
  by (auto simp: codec_section_def split: sum.splits if_splits)

lemma slow_in_range_refresh: "slow_in_range (refresh_slow fs caps w now)"
  unfolding slow_in_range_def
  by (auto simp: refresh_slow_def Let_def case_prod_beta usb_section_level
      dest!: codec_section_readable zone_codec.parse_readable effect_codec.parse_readable
      split: option.splits)

lemma fan_section_in_range: "fans_in_range (fst (fan_section fs w e p))"
proof -
  obtain res n where sec:
    "codec_section fs w e (predator_attr ''fan_speed'') parse_fan_setting ''fanControl'' = (res, n)"
    by fastforce
  show ?thesis
  proof (cases res)
    case None
    with sec show ?thesis by (simp add: fan_section_def fans_in_range_def zero_fans_def)
  next
    case (Some f)
    with sec codec_section_readable [of fs w e "predator_attr ''fan_speed''" parse_fan_setting "''fanControl''" f]
    have "readable_fan f" using fan_codec.parse_readable by auto
    with sec Some show ?thesis
      by (simp add: fan_section_def fans_in_range_def readable_fan_def fan_mode_def)
  qed
qed

lemma fan_section_manual:
  "fans_manual_allowed (fst (fan_section fs w e p)) \<Longrightarrow> p \<noteq> ''quiet''"
  by (auto simp: fan_section_def zero_fans_def split: prod.splits option.splits)

lemma snapshot_live:
  assumes "snapshot c w now = (Inr st, c')"
  shows "st_fans st =
      fst (fan_section (ctl_fs c) w (cap_fan_control (ctl_caps c)) (prof_value (st_profile st)))
        \<lparr>fans_cpu_rpm := fans_cpu_rpm (st_fans st), fans_gpu_rpm := fans_gpu_rpm (st_fans st)\<rparr>"
    and "(prof_value (st_profile st), prof_label (st_profile st)) =
      fst (profile_section (ctl_fs c) w (cap_thermal_profile (ctl_caps c)))"
  using assms by (simp_all add: snapshot_def Let_def case_prod_beta) auto

lemma snapshot_in_range:
  assumes "snapshot c w now = (Inr st, c')" "slow_in_range (ctl_slow c)"
  shows "state_in_range st \<and> slow_in_range (ctl_slow c')"
proof -
  have slow: "slow_in_range (ctl_slow c')"
    using snapshot_frame(4) [OF assms(1)] assms(2) by (simp add: slow_in_range_refresh)
  note fans = snapshot_live(1) [OF assms(1)]
  have "fans_in_range (st_fans st)"
    using fan_section_in_range [of "ctl_fs c" w "cap_fan_control (ctl_caps c)" "prof_value (st_profile st)"]
    by (subst fans) (simp add: fans_in_range_def)
  moreover have "prof_value (st_profile st) \<noteq> ''quiet''" if "fans_manual_allowed (st_fans st)"
  proof (rule fan_section_manual)
    show "fans_manual_allowed (fst (fan_section (ctl_fs c) w (cap_fan_control (ctl_caps c))
        (prof_value (st_profile st))))"
      using that by (subst (asm) fans) simp
  qed
  moreover have "case prof_available (st_profile st) of
      None \<Rightarrow> True | Some opts \<Rightarrow> opt_value ` set opts \<subseteq> set (permitted_profiles (st_power_source st))"
    using snapshot_from_slow(6) [OF assms(1)]
      available_values [of "slow_choices (ctl_slow c')" "st_power_source st"] by auto
  ultimately show ?thesis
    using slow snapshot_from_slow(1,2,5) [OF assms(1)] read_power_source_cases [of "ctl_fs c" w]
    by (simp add: state_in_range_def slow_in_range_def)
qed

section \<open>Histories\<close>

type_synonym 'w config = "'w controller \<times> 'w \<times> time"

text \<open>
  The hardware may change between requests in any way; a request is served at a time that does
  not lie before the last one. \<open>out\<close> is what was reported, if anything.
\<close>

inductive ctl_step :: "'w config \<Rightarrow> hw_state option \<Rightarrow> 'w config \<Rightarrow> bool" where
  hardware: "ctl_step (c, w, t) None (c, w', t)"
| refused: "t \<le> now \<Longrightarrow> serve req c w now = (Inl e, c', w') \<Longrightarrow> ctl_step (c, w, t) None (c', w', now)"
| answered: "t \<le> now \<Longrightarrow> serve req c w now = (Inr st, c', w') \<Longrightarrow>
    ctl_step (c, w, t) (Some st) (c', w', now)"

inductive_cases ctl_stepE: "ctl_step (c, w, t) out cfg"

inductive reachable :: "'w fs_ops \<Rightarrow> 'w config \<Rightarrow> bool" for fs where
  start: "reachable fs (new_controller fs w, w, t)"
| step: "reachable fs cfg \<Longrightarrow> ctl_step cfg out cfg' \<Longrightarrow> reachable fs cfg'"

definition ctl_inv :: "'w fs_ops \<Rightarrow> 'w config \<Rightarrow> bool" where
  "ctl_inv fs cfg \<longleftrightarrow>
     (case cfg of (c, w, t) \<Rightarrow>
        ctl_fs c = fs \<and> ctl_slow_ttl c = default_slow_ttl \<and> slow_in_range (ctl_slow c))"

lemma slow_in_range_stamp [simp]: "slow_in_range (s\<lparr>slow_stamp := t\<rparr>) = slow_in_range s"
  by (simp add: slow_in_range_def)

lemma serve_in_range:
  assumes "serve req c w now = (r, c', w')" "slow_in_range (ctl_slow c)"
  shows "slow_in_range (ctl_slow c') \<and> ctl_fs c' = ctl_fs c \<and> ctl_slow_ttl c' = ctl_slow_ttl c \<and>
    (\<forall>st. r = Inr st \<longrightarrow> state_in_range st)"
proof (cases "req = Get_State")
  case True
  then obtain st where snap: "snapshot c w now = (Inr st, c')" "r = Inr st"
    using assms(1) snapshot_total [of c w now] by auto
  with snapshot_in_range [OF snap(1) assms(2)] snapshot_frame [OF snap(1)] show ?thesis by simp
next
  case False
  with assms(1) have run: "serve_write req c w now = (r, c', w')" by (simp add: serve_write_def)
  show ?thesis
  proof (cases r)
    case (Inl e)
    with run serve_op.run_error [of req c w now e c' w'] assms(2) show ?thesis by simp
  next
    case (Inr st)
    have snap: "snapshot (invalidate_slow c) w' now = (Inr st, c')"
      using serve_op.run_success [OF run [unfolded Inr]] by blast
    have "slow_in_range (ctl_slow (invalidate_slow c))"
      using assms(2) by (simp add: invalidate_slow_def)
    with snapshot_in_range [OF snap] serve_op.run_frame [OF run] Inr show ?thesis by simp
  qed
qed

lemma ctl_step_inv:
  assumes "ctl_step cfg out cfg'" "ctl_inv fs cfg"
  shows "ctl_inv fs cfg' \<and> (\<forall>st. out = Some st \<longrightarrow> state_in_range st)"
  using assms
  by (induction rule: ctl_step.induct) (auto simp: ctl_inv_def dest!: serve_in_range)

lemma ctl_inv_new: "ctl_inv fs (new_controller fs w, w, t)"
  by (simp add: ctl_inv_def new_controller_def probe_def Let_def case_prod_beta slow_in_range_zero)

lemma reachable_inv: "reachable fs cfg \<Longrightarrow> ctl_inv fs cfg"
  by (induction rule: reachable.induct) (auto simp: ctl_inv_new dest: ctl_step_inv)

section \<open>Reading back what was written\<close>

context store_fs begin

lemma read_text_after_write:
  assumes "fs_write ops w p d = (None, w')" "plain d" "d \<noteq> []"
  shows "read_text ops w' p = Inr d"
  using write_stored [OF assms(1)] assms(2,3) by (auto simp: read_text_def)

lemma read_text_elsewhere:
  assumes "fs_write ops w p d = (None, w')" "q \<noteq> p"
  shows "read_text ops w' q = read_text ops w q"
  using write_other [OF assms] by (simp add: read_text_def)

lemma section_after_write:
  assumes "fs_write ops w file d = (None, w')" "plain d" "d \<noteq> []" "parse d = Inr x"
  shows "codec_section ops w' True file parse l = (Some x, [])"
  using read_text_after_write [OF assms(1-3)] assms(4) by (simp add: codec_section_def)

lemma flag_after_write:
  assumes "fs_write ops w (predator_attr attr) (flag_text v) = (None, w')"
  shows "flag_section ops w' True attr l = (v, [])"
proof -
  have "plain (flag_text v)" "flag_text v \<noteq> []" by (simp_all add: flag_text_def plain_char_def)
  with read_text_after_write [OF assms] show ?thesis
    by (simp add: flag_section_def read_bool_def flag_text_def)
qed

end

fun boolean_value :: "bytes \<Rightarrow> settings_state \<Rightarrow> bool option" where
  "boolean_value name s =
     (if name = ''battery-limiter'' then Some (set_battery_limiter s)
      else if name = ''battery-calibration'' then Some (set_battery_calibration s)
      else if name = ''backlight-timeout'' then Some (set_backlight_timeout s)
      else if name = ''lcd-override'' then Some (set_lcd_override s)
      else if name = ''boot-animation-sound'' then Some (set_boot_animation_sound s)
      else None)"

declare boolean_value.simps [simp del]

text \<open>What a client that asked for a change sees in the state it is answered with.\<close>

fun reported :: "request \<Rightarrow> hw_state \<Rightarrow> bool" where
  "reported Get_State st = True"
| "reported (Put_Profile v) st = (prof_value (st_profile st) = v)"
| "reported (Put_Fans f confirmed) st =
     (fans_cpu (st_fans st) = fan_cpu f \<and> fans_gpu (st_fans st) = fan_gpu f \<and>
      fans_mode (st_fans st) = fan_mode f)"
| "reported (Put_Boolean name v confirmed) st = (boolean_value name (st_settings st) = Some v)"
| "reported (Put_Usb v) st = (set_usb_charging_level (st_settings st) = v)"
| "reported (Put_Zone z) st = (kb_per_zone (st_keyboard st) = Some (canon_zone z))"
| "reported (Put_Effect e) st = (kb_effect (st_keyboard st) = Some e)"

lemma write_and_snapshot_Inr:
  assumes "write_and_snapshot c w now p d = (Inr st, c', w')"
  shows "fs_write (ctl_fs c) w p d = (None, w') \<and> snapshot (invalidate_slow c) w' now = (Inr st, c')"
  using assms by (auto simp: write_and_snapshot_def split: prod.splits option.splits)

lemma refresh_slow_settings:
  "slow_settings (refresh_slow fs caps w now) =
     \<lparr>set_battery_limiter = fst (flag_section fs w (cap_battery_limiter caps) ''battery_limiter'' ''batteryLimiter''),
      set_battery_calibration =
        fst (flag_section fs w (cap_battery_calibration caps) ''battery_calibration'' ''batteryCalibration''),
      set_backlight_timeout =
        fst (flag_section fs w (cap_backlight_timeout caps) ''backlight_timeout'' ''backlightTimeout''),
      set_lcd_override = fst (flag_section fs w (cap_lcd_override caps) ''lcd_override'' ''lcdOverride''),
      set_usb_charging_level = fst (usb_section fs w (cap_usb_charging caps)),
      set_boot_animation_sound =
        fst (flag_section fs w (cap_boot_animation_sound caps) ''boot_animation_sound'' ''bootAnimationSound'')\<rparr>"
  "slow_keyboard (refresh_slow fs caps w now) =
     \<lparr>kb_per_zone = fst (codec_section fs w (cap_keyboard_per_zone caps) (keyboard_attr ''per_zone_mode'')
                         parse_zone_setting ''keyboardPerZone''),
      kb_effect = fst (codec_section fs w (cap_keyboard_effects caps) (keyboard_attr ''four_zone_mode'')
                       parse_effect_setting ''keyboardEffects'')\<rparr>"
  by (simp_all add: refresh_slow_def Let_def case_prod_beta)

text \<open>The one write that a successful request makes.\<close>

fun request_write :: "request \<Rightarrow> (bytes \<times> bytes) option" where
  "request_write Get_State = None"
| "request_write (Put_Profile v) = Some (profile_path, v)"
| "request_write (Put_Fans f confirmed) = Some (predator_attr ''fan_speed'', print_fan f)"
| "request_write (Put_Boolean name v confirmed) =
     (case boolean_setting name no_capabilities of
        None \<Rightarrow> None | Some (_, attr) \<Rightarrow> Some (predator_attr attr, flag_text v))"
| "request_write (Put_Usb v) = Some (predator_attr ''usb_charging'', itoa v)"
| "request_write (Put_Zone z) = Some (keyboard_attr ''per_zone_mode'', print_zone z)"
| "request_write (Put_Effect e) = Some (keyboard_attr ''four_zone_mode'', print_effect e)"

text \<open>What a request needs before its write is attempted, apart from the profile interlocks.\<close>

fun request_valid :: "request \<Rightarrow> capabilities \<Rightarrow> bool" where
  "request_valid Get_State caps = True"
| "request_valid (Put_Profile v) caps = (cap_thermal_profile caps \<and> v \<in> opt_value ` set profile_options)"
| "request_valid (Put_Fans f confirmed) caps = (cap_fan_control caps \<and> validate_fan f = None)"
| "request_valid (Put_Boolean name v confirmed) caps =
     (\<exists>attr. boolean_setting name caps = Some (True, attr))"
| "request_valid (Put_Usb v) caps = (cap_usb_charging caps \<and> usb_level v)"
| "request_valid (Put_Zone z) caps = (cap_keyboard_per_zone caps \<and> validate_zone z = None)"
| "request_valid (Put_Effect e) caps = (cap_keyboard_effects caps \<and> validate_effect e = None)"

lemma boolean_setting_attr:
  "boolean_setting name caps = Some (b, attr) \<Longrightarrow> \<exists>b'. boolean_setting name no_capabilities = Some (b', attr)"
  by (auto simp: boolean_setting_def split: if_splits)

lemma available_is_option:
  "opt \<in> set (available_profiles choices source) \<Longrightarrow> opt_value opt \<in> opt_value ` set profile_options"
  by (auto simp: available_profiles_def)

lemma serve_writes:
  assumes "serve req c w now = (Inr st, c', w')" "req \<noteq> Get_State"
  shows "request_valid req (ctl_caps c) \<and>
    (\<exists>p d. request_write req = Some (p, d) \<and> write_and_snapshot c w now p d = (Inr st, c', w'))"
proof (cases req)
  case (Put_Profile v)
  with assms(1) show ?thesis
    by (auto simp: set_profile_def dest: available_is_option split: if_splits sum.splits)
next
  case (Put_Fans f k)
  with assms(1) show ?thesis
    by (simp add: set_fans_def Let_def split: if_splits option.splits)
next
  case (Put_Boolean name v k)
  with assms(1) show ?thesis
    by (auto simp: set_boolean_def dest: boolean_setting_attr split: if_splits option.splits)
next
  case (Put_Usb v)
  with assms(1) show ?thesis by (auto simp: set_usb_charging_def usb_level_def split: if_splits)
next
  case (Put_Zone z)
  with assms(1) show ?thesis by (simp add: set_per_zone_def split: if_splits option.splits)
next
  case (Put_Effect e)
  with assms(1) show ?thesis by (simp add: set_effect_def split: if_splits option.splits)
qed (use assms(2) in simp)


lemma profile_values_plain:
  "v \<in> opt_value ` set profile_options \<Longrightarrow> plain v \<and> v \<noteq> []"
  by (auto simp: profile_options_def plain_char_def)

lemma usb_after_write:
  assumes "store_fs fs" "fs_write fs w (predator_attr ''usb_charging'') (itoa v) = (None, w')" "usb_level v"
  shows "fst (usb_section fs w' True) = v"
  using store_fs.read_text_after_write [OF assms(1,2)] assms(3)
  by (auto simp: usb_section_def atoi_itoa int64_def usb_level_def)

lemma boolean_value_refresh:
  "boolean_setting name caps = Some (True, attr) \<Longrightarrow>
   \<exists>l. boolean_value name (slow_settings (refresh_slow fs caps w now)) =
       Some (fst (flag_section fs w True attr l))"
  unfolding refresh_slow_settings boolean_setting_def boolean_value.simps
  by (simp split: if_splits) (blast+)?

lemma settings_reported:
  assumes store: "store_fs (ctl_fs c)" and valid: "request_valid req (ctl_caps c)"
    and wrote: "request_write req = Some (p, d)" "fs_write (ctl_fs c) w p d = (None, w')"
    and st: "st_settings st = slow_settings (refresh_slow (ctl_fs c) (ctl_caps c) w' now)"
      "st_keyboard st = slow_keyboard (refresh_slow (ctl_fs c) (ctl_caps c) w' now)"
      "st_fans st = fst (fan_section (ctl_fs c) w' (cap_fan_control (ctl_caps c)) (prof_value (st_profile st)))
        \<lparr>fans_cpu_rpm := fans_cpu_rpm (st_fans st), fans_gpu_rpm := fans_gpu_rpm (st_fans st)\<rparr>"
      "(prof_value (st_profile st), prof_label (st_profile st)) =
        fst (profile_section (ctl_fs c) w' (cap_thermal_profile (ctl_caps c)))"
  shows "reported req st"
proof (cases req)
  case (Put_Profile v)
  with valid wrote profile_values_plain [of v]
  have "read_text (ctl_fs c) w' profile_path = Inr v"
    using store_fs.read_text_after_write [OF store] by auto
  with Put_Profile valid st(4) show ?thesis by (simp add: profile_section_def)
next
  case (Put_Fans f k)
  then have w: "fs_write (ctl_fs c) w (predator_attr ''fan_speed'') (print_fan f) = (None, w')"
    and f: "readable_fan f" and cap: "cap_fan_control (ctl_caps c)"
    using valid wrote by (auto simp: validate_fan_iff)
  have "codec_section (ctl_fs c) w' True (predator_attr ''fan_speed'') parse_fan_setting ''fanControl''
      = (Some f, [])"
    by (rule store_fs.section_after_write [OF store w]) (simp_all add: parse_fan_print f)
  then show ?thesis
    using cap unfolding Put_Fans reported.simps
    by (subst st(3), subst st(3), subst st(3)) (simp add: fan_section_def)
next
  case (Put_Boolean name v k)
  then obtain attr where b: "boolean_setting name (ctl_caps c) = Some (True, attr)" using valid by auto
  then have "fs_write (ctl_fs c) w (predator_attr attr) (flag_text v) = (None, w')"
    using Put_Boolean wrote boolean_setting_attr [OF b] by auto
  note flag = store_fs.flag_after_write [OF store this]
  obtain l where "boolean_value name (st_settings st) =
      Some (fst (flag_section (ctl_fs c) w' True attr l))"
    using boolean_value_refresh [OF b, of "ctl_fs c" w' now] unfolding st(1) by blast
  with Put_Boolean flag show ?thesis by simp
next
  case (Put_Usb v)
  with valid wrote st(1) usb_after_write [OF store] show ?thesis
    by (simp add: refresh_slow_settings)
next
  case (Put_Zone z)
  then have w: "fs_write (ctl_fs c) w (keyboard_attr ''per_zone_mode'') (print_zone z) = (None, w')"
    and z: "readable_zone z" and cap: "cap_keyboard_per_zone (ctl_caps c)"
    using valid wrote by (auto simp: validate_zone_iff)
  have "codec_section (ctl_fs c) w' True (keyboard_attr ''per_zone_mode'') parse_zone_setting ''keyboardPerZone''
      = (Some (canon_zone z), [])"
    using zone_codec.print_plain [OF z]
    by (intro store_fs.section_after_write [OF store w]) (simp_all add: zone_codec.parse_print z)
  with Put_Zone cap st(2) show ?thesis by (simp add: refresh_slow_settings)
next
  case (Put_Effect e)
  then have w: "fs_write (ctl_fs c) w (keyboard_attr ''four_zone_mode'') (print_effect e) = (None, w')"
    and e: "readable_effect e" and cap: "cap_keyboard_effects (ctl_caps c)"
    using valid wrote effect_codec.validate_readable by auto
  have "codec_section (ctl_fs c) w' True (keyboard_attr ''four_zone_mode'') parse_effect_setting ''keyboardEffects''
      = (Some e, [])"
    using effect_codec.print_plain [OF e]
    by (intro store_fs.section_after_write [OF store w]) (simp_all add: effect_codec.parse_print e)
  with Put_Effect cap st(2) show ?thesis by (simp add: refresh_slow_settings)
qed simp

lemma serve_reported:
  assumes store: "store_fs (ctl_fs c)" and ok: "serve req c w now = (Inr st, c', w')"
    and ttl: "ctl_slow_ttl c < now" "ctl_slow_ttl c < max_duration"
  shows "reported req st"
proof (cases "req = Get_State")
  case False
  then obtain p d where valid: "request_valid req (ctl_caps c)" and p: "request_write req = Some (p, d)"
    and ws: "write_and_snapshot c w now p d = (Inr st, c', w')"
    using serve_writes [OF ok] by blast
  from write_and_snapshot_Inr [OF ws] have w: "fs_write (ctl_fs c) w p d = (None, w')"
    and snap: "snapshot (invalidate_slow c) w' now = (Inr st, c')" by auto
  have run: "serve_write req c w now = (Inr st, c', w')" using ok False by (simp add: serve_write_def)
  show ?thesis
    using settings_reported [OF store valid p w] serve_op.run_truthful(2,3) [OF run ttl]
      snapshot_live [OF snap] by (simp add: invalidate_slow_def)
qed simp

end
