(* ===== verification/Controller_History.thy ===== *)
theory Controller_History
  imports Controller_Runs
begin

text \<open>
  Histories with a log of the worlds in which requests were served. The invariant says where the
  cached slow settings come from: they were read in one of the logged worlds, at the cache's
  time stamp, so what is reported is bounded in age by the cache's time to live. The clock runs
  past the cache's time to live when counted from Go's zero time, as any clock set after the
  year 1 does.
\<close>

type_synonym 'w log = "(time \<times> 'w) list"

inductive history :: "'w fs_ops \<Rightarrow> capabilities \<Rightarrow> 'w log \<Rightarrow> 'w config \<Rightarrow> bool" for fs caps where
  created: "ctl_caps (new_controller fs w) = caps \<Longrightarrow> default_slow_ttl < t \<Longrightarrow> history fs caps [] (new_controller fs w, w, t)"
| changed: "history fs caps hist (c, w, t) \<Longrightarrow> history fs caps hist (c, w', t)"
| served: "history fs caps hist (c, w, t) \<Longrightarrow> t \<le> now \<Longrightarrow> serve req c w now = (r, c', w') \<Longrightarrow>
    history fs caps ((now, w') # hist) (c', w', now)"

definition from_log :: "'w fs_ops \<Rightarrow> capabilities \<Rightarrow> 'w log \<Rightarrow> slow_state \<Rightarrow> bool" where
  "from_log fs caps hist s \<longleftrightarrow> (\<exists>(t, w)\<in>set hist. s = refresh_slow fs caps w t)"

definition history_inv :: "'w fs_ops \<Rightarrow> capabilities \<Rightarrow> 'w log \<Rightarrow> 'w config \<Rightarrow> bool" where
  "history_inv fs caps hist cfg \<longleftrightarrow>
     (case cfg of (c, w, t) \<Rightarrow>
        default_slow_ttl < t \<and> ctl_fs c = fs \<and> ctl_caps c = caps \<and> ctl_slow_ttl c = default_slow_ttl \<and>
        (ctl_slow c = zero_slow \<or> from_log fs caps hist (ctl_slow c)))"

lemma from_log_now [simp]: "from_log fs caps ((now, w) # hist) (refresh_slow fs caps w now)"
  by (simp add: from_log_def)

lemma from_log_Cons: "from_log fs caps hist s \<Longrightarrow> from_log fs caps (x # hist) s"
  by (auto simp: from_log_def)

lemma default_ttl_bound: "default_slow_ttl < max_duration" "0 \<le> default_slow_ttl" "min_duration \<le> default_slow_ttl"
  by (simp_all add: default_slow_ttl_def seconds_def max_duration_def min_duration_def)

lemma zero_slow_expired:
  "ctl_slow c = zero_slow \<Longrightarrow> ctl_slow_ttl c = default_slow_ttl \<Longrightarrow> default_slow_ttl < now \<Longrightarrow>
   slow_expired c now"
  using default_ttl_bound by (simp add: slow_expired_def zero_slow_def time_sub_greater_iff)

text \<open>One request: what is reported is the cache afterwards, and the cache is in the new log.\<close>

lemma serve_from_log:
  assumes run: "serve req c w now = (Inr st, c', w')" and inv: "history_inv fs caps hist (c, w, t)" and "t \<le> now"
  shows "from_log fs caps ((now, w') # hist) (ctl_slow c')" "\<not> slow_expired c' now"
    "st_settings st = slow_settings (ctl_slow c')" "st_keyboard st = slow_keyboard (ctl_slow c')"
    "ctl_slow_ttl c' = default_slow_ttl"
    "req \<noteq> Get_State \<longrightarrow> ctl_slow c' = refresh_slow fs caps w' now"
proof -
  from inv \<open>t \<le> now\<close> have clock: "default_slow_ttl < now" by (simp add: history_inv_def)
  from inv have c: "ctl_fs c = fs" "ctl_caps c = caps" "ctl_slow_ttl c = default_slow_ttl"
    "ctl_slow c = zero_slow \<or> from_log fs caps hist (ctl_slow c)" by (auto simp: history_inv_def)
  obtain c0 where snap: "snapshot c0 w' now = (Inr st, c')" and c0: "ctl_slow_ttl c0 = default_slow_ttl"
    and log: "from_log fs caps ((now, w') # hist) (ctl_slow c')"
    and fresh: "req \<noteq> Get_State \<longrightarrow> ctl_slow c' = refresh_slow fs caps w' now"
  proof (cases "req = Get_State")
    case True
    then have snap: "snapshot c w' now = (Inr st, c')" using run by (auto split: prod.splits)
    have "from_log fs caps ((now, w') # hist) (ctl_slow c')"
      using snapshot_frame(4) [OF snap] c zero_slow_expired [of c now] clock
      by (auto simp: from_log_Cons)
    with that [OF snap c(3)] True show ?thesis by blast
  next
    case False
    then have w: "serve_write req c w now = (Inr st, c', w')" using run by (simp add: serve_write_def)
    obtain p d where snap: "snapshot (invalidate_slow c) w' now = (Inr st, c')"
      using serve_op.run_success [OF w] by blast
    have "ctl_slow c' = refresh_slow fs caps w' now"
      using serve_op.run_truthful(1) [OF w] c clock default_ttl_bound by simp
    with that [OF snap] c(3) show ?thesis by (simp add: invalidate_slow_def)
  qed
  show "from_log fs caps ((now, w') # hist) (ctl_slow c')" by (rule log)
  show "req \<noteq> Get_State \<longrightarrow> ctl_slow c' = refresh_slow fs caps w' now" by (rule fresh)
  show "\<not> slow_expired c' now" using snapshot_fresh [OF snap] c0 default_ttl_bound by simp
  show "st_settings st = slow_settings (ctl_slow c')" "st_keyboard st = slow_keyboard (ctl_slow c')"
    "ctl_slow_ttl c' = default_slow_ttl"
    using snapshot_from_slow(1,2) [OF snap] snapshot_frame(3) [OF snap] c0 by simp_all
qed

lemma serve_keeps_inv:
  assumes run: "serve req c w now = (r, c', w')" and inv: "history_inv fs caps hist (c, w, t)" and "t \<le> now"
  shows "history_inv fs caps ((now, w') # hist) (c', w', now)"
proof -
  from inv \<open>t \<le> now\<close> have clock: "default_slow_ttl < now" by (simp add: history_inv_def)
  from inv have c: "ctl_fs c = fs" "ctl_caps c = caps" "ctl_slow_ttl c = default_slow_ttl"
    "ctl_slow c = zero_slow \<or> from_log fs caps hist (ctl_slow c)" by (auto simp: history_inv_def)
  show ?thesis
  proof (cases "req = Get_State")
    case True
    then have "snapshot c w' now = (r, c')" using run by (auto split: prod.splits)
    from snapshot_frame [OF this] c clock show ?thesis by (auto simp: history_inv_def from_log_Cons)
  next
    case False
    then have w: "serve_write req c w now = (r, c', w')" using run by (simp add: serve_write_def)
    show ?thesis
    proof (cases r)
      case (Inl e)
      with serve_op.run_error [OF w [unfolded Inl]] c clock show ?thesis
        by (auto simp: history_inv_def from_log_Cons)
    next
      case (Inr st)
      with serve_from_log(1) [OF run [unfolded Inr] inv \<open>t \<le> now\<close>] serve_op.run_frame [OF w] c clock
      show ?thesis by (simp add: history_inv_def)
    qed
  qed
qed

lemma history_inv_new:
  "ctl_caps (new_controller fs w) = caps \<Longrightarrow> default_slow_ttl < t \<Longrightarrow>
   history_inv fs caps [] (new_controller fs w, w, t)"
  by (auto simp: history_inv_def new_controller_def probe_def Let_def case_prod_beta)

lemma history_keeps_inv:
  assumes "history fs caps hist cfg" shows "history_inv fs caps hist cfg"
  using assms
proof induction
  case (served hist c w t now req r c' w')
  show ?case by (rule serve_keeps_inv [OF served.hyps(3) served.IH served.hyps(2)])
qed (auto simp: history_inv_new, simp add: history_inv_def)

end
