(* ===== verification/Hardware_Properties.thy ===== *)
theory Hardware_Properties
  imports Controller_History Fixture
begin

text \<open>
  The properties of the hardware controller: its operations and its histories. Each is a few
  steps over the lemmas of its component; a property with hypotheses is followed by its
  application to a concrete machine.
\<close>

section \<open>Writing operations\<close>

text \<open>C14. Setting the fans succeeds exactly when the machine has fan control, both speeds lie in
  range, Silent mode allows only automatic control, a low manual speed under a high-performance
  profile is confirmed, and the write itself succeeds. An unreadable profile counts as no
  profile, so that it lifts both interlocks.\<close>
theorem set_fans_succeeds_iff:
  "is_ok (fst (set_fans f confirmed c w now)) \<longleftrightarrow>
     cap_fan_control (ctl_caps c) \<and>
     0 \<le> fan_cpu f \<and> fan_cpu f \<le> 100 \<and> 0 \<le> fan_gpu f \<and> fan_gpu f \<le> 100 \<and>
     \<not> (profile_text (ctl_fs c) w = ''quiet'' \<and> fan_mode f \<noteq> ''auto'') \<and>
     \<not> (profile_text (ctl_fs c) w \<in> {''balanced-performance'', ''performance''} \<and> fan_mode f \<noteq> ''auto''
          \<and> (fan_cpu f < 20 \<or> fan_gpu f < 20) \<and> \<not> confirmed) \<and>
     fst (fs_write (ctl_fs c) w (predator_attr ''fan_speed'') (print_fan f)) = None"
proof -
  have auto_iff: "fan_mode f = ''auto'' \<longleftrightarrow> fan_cpu f = 0 \<and> fan_gpu f = 0"
    by (simp add: fan_mode_def)
  show ?thesis
    unfolding auto_iff set_fans_def Let_def profile_text_def
    by (cases "validate_fan f") (auto simp: validate_fan_def write_and_snapshot_ok split: if_splits)
qed

text \<open>C20. A profile is written exactly when the machine has profiles, the driver offers it in its list
  of choices and the power source permits it: then the world afterwards is that of the one write of
  its name to the profile's attribute, and the request succeeds exactly when the write does. In
  every other case, an unknown name among them, the request is refused and nothing is written:
  controller and world are as before.\<close>
theorem set_profile_succeeds_iff:
  "if cap_thermal_profile (ctl_caps c) \<and>
      (\<exists>raw. read_text (ctl_fs c) w choices_path = Inr raw \<and> v \<in> set (text_fields raw)) \<and>
      v \<in> set (permitted_profiles (read_power_source (ctl_fs c) w))
   then (is_ok (fst (set_profile v c w now)) \<longleftrightarrow> fst (fs_write (ctl_fs c) w profile_path v) = None) \<and>
     snd (snd (set_profile v c w now)) = snd (fs_write (ctl_fs c) w profile_path v)
   else \<not> is_ok (fst (set_profile v c w now)) \<and> snd (set_profile v c w now) = (c, w)"
  by (auto simp: set_profile_def write_and_snapshot_ok write_and_snapshot_world available_iff split: sum.splits)

text \<open>The switches: the name that a request gives, whether the machine has it, and its attribute.\<close>

definition switches :: "capabilities \<Rightarrow> (bytes \<times> bool \<times> bytes) list" where
  "switches caps =
     [(''battery-limiter'', cap_battery_limiter caps, ''battery_limiter''),
      (''battery-calibration'', cap_battery_calibration caps, ''battery_calibration''),
      (''backlight-timeout'', cap_backlight_timeout caps, ''backlight_timeout''),
      (''lcd-override'', cap_lcd_override caps, ''lcd_override''),
      (''boot-animation-sound'', cap_boot_animation_sound caps, ''boot_animation_sound'')]"

text \<open>C30. A switch is written exactly when its name is one of the five, the machine has it, and the
  start of a battery calibration is confirmed: then its attribute is set to one or zero, by one
  write, and the request succeeds exactly when that write does. In every other case it is refused
  and nothing is written; an unconfirmed calibration is refused as such, on every machine.\<close>
theorem set_boolean_succeeds_iff:
  "case map_of (switches (ctl_caps c)) name of
     None \<Rightarrow> set_boolean name v confirmed c w now = (Inl ErrUnsupported, c, w)
   | Some (has, file) \<Rightarrow>
       if name = ''battery-calibration'' \<and> v \<and> \<not> confirmed
       then set_boolean name v confirmed c w now = (Inl ErrConfirmation, c, w)
       else if \<not> has then set_boolean name v confirmed c w now = (Inl ErrUnsupported, c, w)
       else (let put = fs_write (ctl_fs c) w (predator_attr file) (if v then ''1'' else ''0'')
             in (is_ok (fst (set_boolean name v confirmed c w now)) \<longleftrightarrow> fst put = None) \<and>
                snd (snd (set_boolean name v confirmed c w now)) = snd put)"
  by (simp add: switches_def set_boolean_def boolean_setting_def flag_text_def Let_def
      write_and_snapshot_ok write_and_snapshot_world)

text \<open>C16. Whatever is asked of the controller, the world changes at most by one allowed write: a
  permitted profile, a printed and validated fan, zone or effect setting, a flag of a supported
  switch or one of the four charging levels, each to its own attribute.\<close>
theorem world_changes_by_allowed_write:
  assumes "serve req c w now = (r, c', w')"
  shows "w' = w \<or> (\<exists>p d. allowed_write c w p d \<and> w' = snd (fs_write (ctl_fs c) w p d))"
proof (cases "req = Get_State")
  case True
  with assms show ?thesis by (auto split: prod.splits)
next
  case False
  with assms have run: "serve_write req c w now = (r, c', w')" by (simp add: serve_write_def)
  show ?thesis
  proof (cases r)
    case (Inl e)
    then show ?thesis using serve_op.run_error [OF run [unfolded Inl]] by (metis snd_conv)
  next
    case (Inr st)
    then show ?thesis using serve_op.run_success [OF run [unfolded Inr]] by (metis snd_conv)
  qed
qed

lemma world_changes_by_allowed_write_witness:
  "\<exists>p d. allowed_write bench_controller bench_world p d \<and>
     snd (snd (serve (Put_Fans \<lparr>fan_cpu = 40, fan_gpu = 60\<rparr> False) bench_controller bench_world (seconds 1000)))
       = snd (fs_write mem_fs bench_world p d)"
proof -
  let ?out = "serve (Put_Fans \<lparr>fan_cpu = 40, fan_gpu = 60\<rparr> False) bench_controller bench_world (seconds 1000)"
  have "snd (snd ?out) \<noteq> bench_world" by code_simp
  moreover have "ctl_fs bench_controller = mem_fs" by (simp add: bench_controller_def)
  ultimately show ?thesis
    using world_changes_by_allowed_write [of "Put_Fans \<lparr>fan_cpu = 40, fan_gpu = 60\<rparr> False" bench_controller
        bench_world "seconds 1000" "fst ?out" "fst (snd ?out)" "snd (snd ?out)"] by auto
qed

text \<open>C19. A refused request leaves the controller as it was, cache included, and leaves the
  hardware as it was unless the refusal is the file system's own.\<close>
theorem refused_without_effect:
  assumes "serve req c w now = (Inl e, c', w')"
  shows "c' = c \<and> (w' = w \<or> (\<exists>f. e = Fs_Failed f))"
proof (cases "req = Get_State")
  case True
  then show ?thesis using assms snapshot_total [of c w now] by auto
next
  case False
  with assms have run: "serve_write req c w now = (Inl e, c', w')" by (simp add: serve_write_def)
  show ?thesis using serve_op.run_error [OF run] by blast
qed

lemma refused_without_effect_witness:
  "\<exists>c' w'. serve (Put_Fans \<lparr>fan_cpu = 40, fan_gpu = 101\<rparr> True) bench_controller bench_world (seconds 1000)
      = (Inl (Invalid_Setting (Out_Of_Range ''GPU fan'' 0 100)), c', w') \<and> c' = bench_controller \<and> w' = bench_world"
proof -
  let ?req = "Put_Fans \<lparr>fan_cpu = 40, fan_gpu = 101\<rparr> True"
  obtain e c' w' where run: "serve ?req bench_controller bench_world (seconds 1000) = (e, c', w')"
    by (metis prod_cases3)
  have "fst (serve ?req bench_controller bench_world (seconds 1000))
      = Inl (Invalid_Setting (Out_Of_Range ''GPU fan'' 0 100))"
    by (simp add: set_fans_def validate_fan_def bench_controller_def no_capabilities_def)
  with run have e: "e = Inl (Invalid_Setting (Out_Of_Range ''GPU fan'' 0 100))" by simp
  from refused_without_effect [OF run [unfolded e]] run e show ?thesis by simp
qed

text \<open>C15. On a file system that stores what is written, a request that succeeds is answered with
  a state that shows the value asked for: the answer is read back after the write, never
  served from the cache.\<close>
theorem successful_request_is_reported:
  assumes "store_fs (ctl_fs c)" "serve req c w now = (Inr st, c', w')"
    and "ctl_slow_ttl c < now" "ctl_slow_ttl c < max_duration"
  shows "reported req st"
  using assms by (rule serve_reported)

lemma successful_request_is_reported_witness:
  "\<exists>st c' w'. serve (Put_Fans \<lparr>fan_cpu = 40, fan_gpu = 60\<rparr> False) bench_controller bench_world (seconds 1000)
      = (Inr st, c', w') \<and> fans_cpu (st_fans st) = 40 \<and> fans_gpu (st_fans st) = 60 \<and>
      fans_mode (st_fans st) = ''manual''"
proof -
  let ?req = "Put_Fans \<lparr>fan_cpu = 40, fan_gpu = 60\<rparr> False"
  have "is_ok (fst (serve ?req bench_controller bench_world (seconds 1000)))" by code_simp
  then obtain st c' w' where run: "serve ?req bench_controller bench_world (seconds 1000) = (Inr st, c', w')"
    by (metis is_ok_iff prod_cases3 fst_conv)
  have store: "store_fs (ctl_fs bench_controller)"
    using mem_store.store_fs_axioms by (simp add: bench_controller_def)
  have ttl: "ctl_slow_ttl bench_controller < seconds 1000" "ctl_slow_ttl bench_controller < max_duration"
    by (simp_all add: bench_controller_def default_slow_ttl_def seconds_def max_duration_def)
  from successful_request_is_reported [OF store run ttl] run show ?thesis
    by (simp add: fan_mode_def)
qed

section \<open>Histories\<close>

lemma bench_new: "ctl_caps (new_controller mem_fs bench_world) = ctl_caps bench_controller"
  by code_simp

text \<open>C18. Every state ever reported, whatever the hardware does between the requests, is in
  range: fan speeds and their mode, the charging level, zone and effect settings, and only
  profiles that the reported power source permits; manual fans are never offered in Silent.\<close>
theorem reported_states_in_range:
  assumes "reachable fs (c, w, t)" "t \<le> now" "serve req c w now = (Inr st, c', w')"
  shows "state_in_range st"
  using ctl_step_inv [OF answered [OF assms(2,3)] reachable_inv [OF assms(1)]] by simp

lemma reported_states_in_range_witness:
  "\<exists>st c' w'. serve Get_State (new_controller mem_fs bench_world) bench_world (seconds 1000)
      = (Inr st, c', w') \<and> state_in_range st"
proof -
  obtain st c' where snap: "snapshot (new_controller mem_fs bench_world) bench_world (seconds 1000) = (Inr st, c')"
    using snapshot_total [of "new_controller mem_fs bench_world" bench_world "seconds 1000"] by auto
  then have "serve Get_State (new_controller mem_fs bench_world) bench_world (seconds 1000) = (Inr st, c', bench_world)"
    by simp
  with reported_states_in_range [OF reachable.start [of mem_fs bench_world 0] _ this] show ?thesis
    by (auto simp: seconds_def)
qed

text \<open>C17. The settings and the keyboard of a reported state were read from the hardware at most
  thirty seconds before, in a world in which a request was served; in the answer to a write they are
  what is read after it, in the world that the write left, however fresh the cache was.\<close>
theorem reported_settings_are_recent:
  assumes "history fs caps hist (c, w, t)" "t \<le> now" "serve req c w now = (Inr st, c', w')"
  shows "(\<exists>(t0, w0)\<in>set ((now, w') # hist).
     st_settings st = slow_settings (refresh_slow fs caps w0 t0) \<and>
     st_keyboard st = slow_keyboard (refresh_slow fs caps w0 t0) \<and> now - t0 \<le> seconds 30) \<and>
   (req \<noteq> Get_State \<longrightarrow> st_settings st = slow_settings (refresh_slow fs caps w' now) \<and>
     st_keyboard st = slow_keyboard (refresh_slow fs caps w' now))"
proof -
  note log = serve_from_log [OF assms(3) history_keeps_inv [OF assms(1)] assms(2)]
  from log(1) obtain t0 w0 where w0: "(t0, w0) \<in> set ((now, w') # hist)"
    "ctl_slow c' = refresh_slow fs caps w0 t0" by (auto simp: from_log_def)
  have "now - t0 \<le> default_slow_ttl"
    using log(2,5) w0(2) default_ttl_bound by (simp add: slow_expired_def time_sub_greater_iff)
  then have "st_settings st = slow_settings (refresh_slow fs caps w0 t0) \<and>
      st_keyboard st = slow_keyboard (refresh_slow fs caps w0 t0) \<and> now - t0 \<le> seconds 30"
    using log(3,4) w0(2) by (simp add: default_slow_ttl_def)
  with w0(1) have "\<exists>(t0, w0)\<in>set ((now, w') # hist).
     st_settings st = slow_settings (refresh_slow fs caps w0 t0) \<and>
     st_keyboard st = slow_keyboard (refresh_slow fs caps w0 t0) \<and> now - t0 \<le> seconds 30" by blast
  moreover have "req \<noteq> Get_State \<longrightarrow> st_settings st = slow_settings (refresh_slow fs caps w' now) \<and>
     st_keyboard st = slow_keyboard (refresh_slow fs caps w' now)"
    unfolding log(3,4) using log(6) by (intro impI conjI) (simp_all only: not_False_eq_True simp_thms)
  ultimately show ?thesis by (rule conjI)
qed

lemma reported_settings_are_recent_witness:
  "(\<exists>st. fst (serve Get_State (new_controller mem_fs bench_world) bench_world (seconds 1000)) = Inr st \<and>
     (\<exists>(t0, w0)\<in>set [(seconds 1000, bench_world)].
        st_settings st = slow_settings (refresh_slow mem_fs (ctl_caps bench_controller) w0 t0) \<and>
        st_keyboard st = slow_keyboard (refresh_slow mem_fs (ctl_caps bench_controller) w0 t0) \<and>
        seconds 1000 - t0 \<le> seconds 30)) \<and>
   (\<exists>st c' w'. serve (Put_Fans \<lparr>fan_cpu = 40, fan_gpu = 60\<rparr> False) (new_controller mem_fs bench_world) bench_world (seconds 1000) =
       (Inr st, c', w') \<and>
     st_settings st = slow_settings (refresh_slow mem_fs (ctl_caps bench_controller) w' (seconds 1000)))"
proof -
  let ?put = "Put_Fans \<lparr>fan_cpu = 40, fan_gpu = 60\<rparr> False"
  have "is_ok (fst (serve ?put (new_controller mem_fs bench_world) bench_world (seconds 1000)))" by code_simp
  then obtain put_st put_c put_w
    where put: "serve ?put (new_controller mem_fs bench_world) bench_world (seconds 1000) = (Inr put_st, put_c, put_w)"
    by (metis is_ok_iff prod_cases3 fst_conv)
  obtain st c' where snap: "snapshot (new_controller mem_fs bench_world) bench_world (seconds 1000) = (Inr st, c')"
    using snapshot_total [of "new_controller mem_fs bench_world" bench_world "seconds 1000"] by auto
  then have run: "serve Get_State (new_controller mem_fs bench_world) bench_world (seconds 1000)
      = (Inr st, c', bench_world)" by simp
  have "default_slow_ttl < seconds 1000" by (simp add: default_slow_ttl_def seconds_def)
  note start = history.created [OF bench_new this]
  from reported_settings_are_recent [OF start order_refl put]
  have "st_settings put_st = slow_settings (refresh_slow mem_fs (ctl_caps bench_controller) put_w (seconds 1000))" by blast
  with put reported_settings_are_recent [OF start order_refl run] run show ?thesis by auto
qed

text \<open>C21. The degraded sections of a state are exactly the checks that failed, in a fixed order:
  those of the live sections in this very world, then those of the settings when they were last
  read. A failing attribute never aborts the snapshot.\<close>
theorem degraded_sections_are_failed_checks:
  "\<exists>st. fst (snapshot c w now) = Inr st \<and>
     st_degraded st = failed (live_checks (ctl_fs c) (ctl_caps c) w st) @
       (if slow_expired c now then failed (slow_checks (ctl_fs c) (ctl_caps c) w)
        else slow_degraded (ctl_slow c))"
proof -
  obtain st c' where snap: "snapshot c w now = (Inr st, c')"
    using snapshot_total [of c w now] by auto
  with snapshot_degraded [OF snap] snapshot_frame(4) [OF snap] show ?thesis
    by (simp add: slow_degraded_refresh)
qed

end
