(* ===== verification/Sha256.thy ===== *)
theory Sha256
  imports Go_Strings "HOL-Library.Word"
begin

text \<open>
  SHA-256 (FIPS 180-4) and HMAC (RFC 2104) over byte strings, as \<open>crypto/sha256\<close> and
  \<open>crypto/hmac\<close> compute them: the message is processed in blocks of 64 bytes on eight 32-bit
  words whose additions wrap around. The locale \<open>mac32\<close> is what the callers rely on: a keyed
  function to 32 bytes.
\<close>

unbundle bit_operations_syntax

type_synonym w32 = "32 word"

section \<open>Bytes and words\<close>

definition word_of_bytes :: "bytes \<Rightarrow> w32" where
  "word_of_bytes bs = fold (\<lambda>b w. push_bit 8 w OR of_nat (byte_of b)) bs 0"

definition bytes_of_word :: "w32 \<Rightarrow> bytes" where
  "bytes_of_word w = map (\<lambda>n. char_of (unat (drop_bit n w AND 255))) [24, 16, 8, 0]"

fun words_of_bytes :: "bytes \<Rightarrow> w32 list" where
  "words_of_bytes (a # b # c # d # rest) = word_of_bytes [a, b, c, d] # words_of_bytes rest"
| "words_of_bytes _ = []"

definition rotr :: "nat \<Rightarrow> w32 \<Rightarrow> w32" where
  "rotr n w = drop_bit n w OR push_bit (32 - n) w"

section \<open>Padding\<close>

text \<open>A one bit, zeros up to 56 modulo 64 bytes, and the length in bits as eight bytes.\<close>

definition be64 :: "64 word \<Rightarrow> bytes" where
  "be64 w = map (\<lambda>n. char_of (unat (drop_bit n w AND 255))) [56, 48, 40, 32, 24, 16, 8, 0]"

definition sha_pad :: "bytes \<Rightarrow> bytes" where
  "sha_pad msg =
     msg @ CHR 0x80 # replicate ((119 - length msg mod 64) mod 64) (CHR 0x00) @ be64 (8 * of_nat (length msg))"

section \<open>Compression\<close>

text \<open>The first 32 bits of the fractional parts of the cube roots of the first 64 primes.\<close>

definition round_constants :: "w32 list" where
  "round_constants =
     [1116352408, 1899447441, 3049323471, 3921009573, 961987163, 1508970993,
      2453635748, 2870763221, 3624381080, 310598401, 607225278, 1426881987,
      1925078388, 2162078206, 2614888103, 3248222580, 3835390401, 4022224774,
      264347078, 604807628, 770255983, 1249150122, 1555081692, 1996064986,
      2554220882, 2821834349, 2952996808, 3210313671, 3336571891, 3584528711,
      113926993, 338241895, 666307205, 773529912, 1294757372, 1396182291,
      1695183700, 1986661051, 2177026350, 2456956037, 2730485921, 2820302411,
      3259730800, 3345764771, 3516065817, 3600352804, 4094571909, 275423344,
      430227734, 506948616, 659060556, 883997877, 958139571, 1322822218,
      1537002063, 1747873779, 1955562222, 2024104815, 2227730452, 2361852424,
      2428436474, 2756734187, 3204031479, 3329325298]"

record sha_state =
  sha_a :: w32
  sha_b :: w32
  sha_c :: w32
  sha_d :: w32
  sha_e :: w32
  sha_f :: w32
  sha_g :: w32
  sha_h :: w32

definition sha_init :: sha_state where
  "sha_init = \<lparr>sha_a = 1779033703, sha_b = 3144134277, sha_c = 1013904242, sha_d = 2773480762,
     sha_e = 1359893119, sha_f = 2600822924, sha_g = 528734635, sha_h = 1541459225\<rparr>"

text \<open>The message schedule, newest word first; \<open>extend\<close> adds one word to the last sixteen.\<close>

definition next_word :: "w32 list \<Rightarrow> w32" where
  "next_word ws =
     (let w2 = ws ! 1; w15 = ws ! 14
      in (rotr 17 w2 XOR rotr 19 w2 XOR drop_bit 10 w2) + ws ! 6
         + (rotr 7 w15 XOR rotr 18 w15 XOR drop_bit 3 w15) + ws ! 15)"

fun extend :: "nat \<Rightarrow> w32 list \<Rightarrow> w32 list" where
  "extend 0 ws = ws"
| "extend (Suc n) ws = extend n (next_word ws # ws)"

definition schedule :: "bytes \<Rightarrow> w32 list" where
  "schedule block = rev (extend 48 (rev (words_of_bytes block)))"

definition sha_round :: "w32 \<times> w32 \<Rightarrow> sha_state \<Rightarrow> sha_state" where
  "sha_round kw s =
     (let (k, w) = kw;
          s1 = rotr 6 (sha_e s) XOR rotr 11 (sha_e s) XOR rotr 25 (sha_e s);
          ch = (sha_e s AND sha_f s) XOR (NOT (sha_e s) AND sha_g s);
          t1 = sha_h s + s1 + ch + k + w;
          s0 = rotr 2 (sha_a s) XOR rotr 13 (sha_a s) XOR rotr 22 (sha_a s);
          maj = (sha_a s AND sha_b s) XOR (sha_a s AND sha_c s) XOR (sha_b s AND sha_c s)
      in \<lparr>sha_a = t1 + (s0 + maj), sha_b = sha_a s, sha_c = sha_b s, sha_d = sha_c s,
          sha_e = sha_d s + t1, sha_f = sha_e s, sha_g = sha_f s, sha_h = sha_g s\<rparr>)"

definition sha_block :: "bytes \<Rightarrow> sha_state \<Rightarrow> sha_state" where
  "sha_block block s =
     (let t = fold sha_round (zip round_constants (schedule block)) s
      in \<lparr>sha_a = sha_a s + sha_a t, sha_b = sha_b s + sha_b t, sha_c = sha_c s + sha_c t,
          sha_d = sha_d s + sha_d t, sha_e = sha_e s + sha_e t, sha_f = sha_f s + sha_f t,
          sha_g = sha_g s + sha_g t, sha_h = sha_h s + sha_h t\<rparr>)"

fun blocks_of :: "nat \<Rightarrow> bytes \<Rightarrow> bytes list" where
  "blocks_of 0 bs = []"
| "blocks_of (Suc n) bs = take 64 bs # blocks_of n (drop 64 bs)"

definition sha256 :: "bytes \<Rightarrow> bytes" where
  "sha256 msg =
     (let padded = sha_pad msg;
          s = fold sha_block (blocks_of (length padded div 64) padded) sha_init
      in concat (map bytes_of_word
           [sha_a s, sha_b s, sha_c s, sha_d s, sha_e s, sha_f s, sha_g s, sha_h s]))"

section \<open>HMAC\<close>

definition byte_xor :: "char \<Rightarrow> char \<Rightarrow> char" where
  "byte_xor a b = char_of (byte_of a XOR byte_of b)"

definition hmac_key :: "bytes \<Rightarrow> bytes" where
  "hmac_key key =
     (let k = (if length key > 64 then sha256 key else key)
      in k @ replicate (64 - length k) (CHR 0x00))"

definition hmac_sha256 :: "bytes \<Rightarrow> bytes \<Rightarrow> bytes" where
  "hmac_sha256 key msg =
     (let k = hmac_key key
      in sha256 (map (\<lambda>b. byte_xor b (CHR 0x5C)) k @ sha256 (map (\<lambda>b. byte_xor b (CHR 0x36)) k @ msg)))"

section \<open>Exclusive or of octets, bit by bit\<close>

text \<open>What the specifications of RFC 6455 and RFC 8018 call XOR, without words or numbers.\<close>

fun octet_xor :: "char \<Rightarrow> char \<Rightarrow> char" where
  "octet_xor (Char a0 a1 a2 a3 a4 a5 a6 a7) (Char b0 b1 b2 b3 b4 b5 b6 b7) =
     Char (a0 \<noteq> b0) (a1 \<noteq> b1) (a2 \<noteq> b2) (a3 \<noteq> b3) (a4 \<noteq> b4) (a5 \<noteq> b5) (a6 \<noteq> b6) (a7 \<noteq> b7)"

lemma byte_of_bits: "c = Char (bit (byte_of c) 0) (bit (byte_of c) 1) (bit (byte_of c) 2) (bit (byte_of c) 3)
    (bit (byte_of c) 4) (bit (byte_of c) 5) (bit (byte_of c) 6) (bit (byte_of c) 7)"
  using char_of_char [of c] by (metis char_of_def)

lemma byte_xor_octet: "byte_xor a b = octet_xor a b"
  by (subst byte_of_bits [of a], subst byte_of_bits [of b])
    (simp add: byte_xor_def char_of_def bit_xor_iff del: of_char_Char)

section \<open>The contract\<close>

locale mac32 =
  fixes mac :: "bytes \<Rightarrow> bytes \<Rightarrow> bytes"
  assumes mac_length: "length (mac key msg) = 32"
begin

lemma mac_neq_length: "length bs \<noteq> 32 \<Longrightarrow> mac key msg \<noteq> bs"
  using mac_length by blast

end

lemma length_sha256 [simp]: "length (sha256 msg) = 32"
  by (simp add: sha256_def Let_def bytes_of_word_def)

lemma pad_zeros:
  fixes r :: nat
  shows "r < 56 \<Longrightarrow> (119 - r) mod 64 = 55 - r" "56 \<le> r \<Longrightarrow> (119 - r) mod 64 = 119 - r"
proof -
  assume "r < 56"
  then have "119 - r = 64 + (55 - r)" by linarith
  then have "(119 - r) mod 64 = (55 - r) mod 64" by (simp only: mod_add_self1)
  then show "(119 - r) mod 64 = 55 - r" by simp
qed simp

lemma length_sha_pad: "64 dvd length (sha_pad msg)"
proof -
  obtain q r where n: "length msg = 64 * q + r" and r: "r < 64" "length msg mod 64 = r"
    by (metis mult_div_mod_eq mod_less_divisor zero_less_numeral)
  have len: "length (sha_pad msg) = length msg + 1 + (119 - r) mod 64 + 8"
    by (simp add: sha_pad_def be64_def r(2))
  have "length (sha_pad msg) = 64 * (q + (if r < 56 then 1 else 2))"
    using n r(1) pad_zeros [of r] unfolding len by (cases "r < 56") simp_all
  then show ?thesis by (metis dvd_triv_left)
qed

lemma concat_blocks_of:
  "length bs = 64 * n \<Longrightarrow> concat (blocks_of n bs) = bs \<and> (\<forall>b\<in>set (blocks_of n bs). length b = 64)"
  by (induction n bs rule: blocks_of.induct) auto

lemma length_hmac_key: "length (hmac_key key) = 64"
  by (simp add: hmac_key_def Let_def)

interpretation hmac: mac32 hmac_sha256
  by unfold_locales (simp add: hmac_sha256_def Let_def)

end
