(* ===== verification/Go_Base64.thy ===== *)
theory Go_Base64
  imports Go_Strings
begin

text \<open>
  Go's \<open>encoding/base64\<close>: the standard and URL alphabets, with and without padding. Decoding
  skips carriage returns and newlines and, not being strict, ignores the unused low bits of the
  last character, as the package does. The locale \<open>byte_text\<close> is what the callers rely on.
\<close>

type_synonym alphabet = "char \<times> char"

definition std_alphabet :: alphabet where
  "std_alphabet = (CHR ''+'', CHR ''/'')"

definition url_alphabet :: alphabet where
  "url_alphabet = (CHR ''-'', CHR ''_'')"

definition b64_char :: "alphabet \<Rightarrow> nat \<Rightarrow> char" where
  "b64_char alph n =
     (if n < 26 then char_of (65 + n)
      else if n < 52 then char_of (71 + n)
      else if n < 62 then char_of (n - 4)
      else if n = 62 then fst alph
      else snd alph)"

definition b64_value :: "alphabet \<Rightarrow> char \<Rightarrow> nat option" where
  "b64_value alph c =
     (let n = byte_of c in
      if 65 \<le> n \<and> n \<le> 90 then Some (n - 65)
      else if 97 \<le> n \<and> n \<le> 122 then Some (n - 71)
      else if 48 \<le> n \<and> n \<le> 57 then Some (n + 4)
      else if c = fst alph then Some 62
      else if c = snd alph then Some 63
      else None)"

fun b64_values :: "alphabet \<Rightarrow> bytes \<Rightarrow> nat list option" where
  "b64_values alph [] = Some []"
| "b64_values alph (c # s) =
     (case b64_value alph c of
        None \<Rightarrow> None
      | Some v \<Rightarrow> (case b64_values alph s of None \<Rightarrow> None | Some vs \<Rightarrow> Some (v # vs)))"

section \<open>Encoding\<close>

fun sextets :: "nat list \<Rightarrow> nat list" where
  "sextets (x # y # z # rest) =
     (let n = (x * 256 + y) * 256 + z
      in n div 262144 # n div 4096 mod 64 # n div 64 mod 64 # n mod 64 # sextets rest)"
| "sextets [x, y] = (let n = (x * 256 + y) * 4 in [n div 4096, n div 64 mod 64, n mod 64])"
| "sextets [x] = (let n = x * 16 in [n div 64, n mod 64])"
| "sextets [] = []"

definition raw_encode :: "alphabet \<Rightarrow> bytes \<Rightarrow> bytes" where
  "raw_encode alph bs = map (b64_char alph) (sextets (map byte_of bs))"

definition padding :: "bytes \<Rightarrow> bytes" where
  "padding bs = (case length bs mod 3 of 0 \<Rightarrow> [] | Suc 0 \<Rightarrow> ''=='' | _ \<Rightarrow> ''='')"

definition padded_encode :: "alphabet \<Rightarrow> bytes \<Rightarrow> bytes" where
  "padded_encode alph bs = raw_encode alph bs @ padding bs"

section \<open>Decoding\<close>

definition skip_newlines :: "bytes \<Rightarrow> bytes" where
  "skip_newlines s = filter (\<lambda>c. c \<noteq> CHR 0x0A \<and> c \<noteq> CHR 0x0D) s"

fun octets :: "nat list \<Rightarrow> nat list option" where
  "octets (a # b # c # d # rest) =
     (let n = ((a * 64 + b) * 64 + c) * 64 + d
      in map_option (\<lambda>bs. n div 65536 # n div 256 mod 256 # n mod 256 # bs) (octets rest))"
| "octets [a, b, c] = (let n = (a * 64 + b) * 64 + c in Some [n div 1024, n div 4 mod 256])"
| "octets [a, b] = Some [(a * 64 + b) div 16]"
| "octets [a] = None"
| "octets [] = Some []"

definition decode_values :: "alphabet \<Rightarrow> bytes \<Rightarrow> bytes option" where
  "decode_values alph s =
     (case b64_values alph s of
        None \<Rightarrow> None
      | Some vs \<Rightarrow> map_option (map char_of) (octets vs))"

definition raw_decode :: "alphabet \<Rightarrow> bytes \<Rightarrow> bytes option" where
  "raw_decode alph s = decode_values alph (skip_newlines s)"

text \<open>With padding the length is a multiple of four and padding ends the text.\<close>

definition strip_padding :: "bytes \<Rightarrow> bytes option" where
  "strip_padding s =
     (if length s mod 4 \<noteq> 0 then None
      else if has_suffix s ''=='' then Some (take (length s - 2) s)
      else if has_suffix s ''='' then Some (take (length s - 1) s)
      else Some s)"

definition padded_decode :: "alphabet \<Rightarrow> bytes \<Rightarrow> bytes option" where
  "padded_decode alph s =
     (case strip_padding (skip_newlines s) of None \<Rightarrow> None | Some t \<Rightarrow> decode_values alph t)"

abbreviation raw_std_encode :: "bytes \<Rightarrow> bytes" where
  "raw_std_encode \<equiv> raw_encode std_alphabet"

abbreviation raw_std_decode :: "bytes \<Rightarrow> bytes option" where
  "raw_std_decode \<equiv> raw_decode std_alphabet"

abbreviation raw_url_encode :: "bytes \<Rightarrow> bytes" where
  "raw_url_encode \<equiv> raw_encode url_alphabet"

abbreviation raw_url_decode :: "bytes \<Rightarrow> bytes option" where
  "raw_url_decode \<equiv> raw_decode url_alphabet"

section \<open>The contract\<close>

definition b64_plain :: "char \<Rightarrow> bool" where
  "b64_plain c \<longleftrightarrow> plain_char c \<and> c \<notin> {CHR ''.'', CHR ''|'', CHR ''$'', CHR '','', CHR '':'', CHR '';'', CHR 0x22, CHR 0x5C}"

locale byte_text =
  fixes encode :: "bytes \<Rightarrow> bytes"
    and decode :: "bytes \<Rightarrow> bytes option"
  assumes decode_encode: "decode (encode bs) = Some bs"
    and encode_plain: "c \<in> set (encode bs) \<Longrightarrow> b64_plain c"
begin

lemma encode_inject: "encode a = encode b \<longleftrightarrow> a = b"
  by (metis decode_encode option.inject)

lemma encode_no_separator:
  "CHR ''.'' \<notin> set (encode bs)" "CHR ''|'' \<notin> set (encode bs)" "CHR ''$'' \<notin> set (encode bs)"
  using encode_plain by (auto simp: b64_plain_def)

lemma encode_is_plain: "plain (encode bs)"
  using encode_plain by (auto simp: plain_def list_all_iff b64_plain_def)

end

section \<open>The encodings keep it\<close>

definition good_alphabet :: "alphabet \<Rightarrow> bool" where
  "good_alphabet alph \<longleftrightarrow>
     fst alph \<noteq> snd alph \<and>
     (\<forall>c\<in>{fst alph, snd alph}. b64_plain c \<and> c \<noteq> CHR ''='' \<and> \<not> (48 \<le> byte_of c \<and> byte_of c \<le> 57) \<and>
        \<not> (65 \<le> byte_of c \<and> byte_of c \<le> 90) \<and> \<not> (97 \<le> byte_of c \<and> byte_of c \<le> 122))"

lemma good_alphabets [simp]: "good_alphabet std_alphabet" "good_alphabet url_alphabet"
  by (simp_all add: good_alphabet_def std_alphabet_def url_alphabet_def b64_plain_def plain_char_def)

lemma b64_value_char [simp]:
  assumes "good_alphabet alph" "n < 64" shows "b64_value alph (b64_char alph n) = Some n"
proof -
  consider "n < 26" | "26 \<le> n" "n < 52" | "52 \<le> n" "n < 62" | "n = 62" | "n = 63"
    using assms(2) by linarith
  then show ?thesis
    using assms(1) by cases (auto simp: b64_value_def b64_char_def Let_def good_alphabet_def)
qed

lemma alnum_plain:
  assumes "48 \<le> m \<and> m \<le> 57 \<or> 65 \<le> m \<and> m \<le> 90 \<or> 97 \<le> m \<and> m \<le> (122::nat)"
  shows "b64_plain (char_of m) \<and> char_of m \<noteq> CHR ''=''"
proof -
  have m: "byte_of (char_of m) = m" using assms by auto
  have neq: "char_of m \<noteq> c" if "byte_of c \<noteq> m" for c using that m by auto
  show ?thesis using assms m by (auto simp: b64_plain_def plain_char_def neq)
qed

lemma b64_char_plain:
  assumes "good_alphabet alph" "n < 64"
  shows "b64_plain (b64_char alph n)" "b64_char alph n \<noteq> CHR ''=''"
proof -
  consider "n < 26" | "26 \<le> n" "n < 52" | "52 \<le> n" "n < 62" | "n = 62" | "n = 63"
    using assms(2) by linarith
  then have "b64_plain (b64_char alph n) \<and> b64_char alph n \<noteq> CHR ''=''"
  proof cases
    case 3
    then have "48 \<le> n - 4 \<and> n - 4 \<le> 57" by linarith
    with 3 show ?thesis by (simp add: b64_char_def alnum_plain)
  qed (use assms(1) in \<open>simp_all add: b64_char_def alnum_plain good_alphabet_def\<close>)
  then show "b64_plain (b64_char alph n)" "b64_char alph n \<noteq> CHR ''=''" by auto
qed

lemma sextets_bound: "list_all (\<lambda>b. b < 256) bs \<Longrightarrow> list_all (\<lambda>v. v < 64) (sextets bs)"
  by (induction bs rule: sextets.induct) (auto simp: Let_def)

lemma regroup_three:
  fixes n :: nat
  shows "((n div 262144 * 64 + n div 4096 mod 64) * 64 + n div 64 mod 64) * 64 + n mod 64 = n"
proof -
  have "n div 4096 = n div 64 div 64" "n div 262144 = n div 64 div 64 div 64"
    by (simp_all add: div_mult2_eq [symmetric])
  then show ?thesis by (simp add: div_mult_mod_eq)
qed

lemma regroup_two:
  fixes n :: nat
  shows "(n div 4096 * 64 + n div 64 mod 64) * 64 + n mod 64 = n"
proof -
  have "n div 4096 = n div 64 div 64" by (simp add: div_mult2_eq [symmetric])
  then show ?thesis by (simp add: div_mult_mod_eq)
qed

lemma split_three:
  fixes x y z :: nat assumes "y < 256" "z < 256"
  shows "((x * 256 + y) * 256 + z) div 65536 = x" "((x * 256 + y) * 256 + z) div 256 mod 256 = y"
    "((x * 256 + y) * 256 + z) mod 256 = z"
proof -
  have "((x * 256 + y) * 256 + z) div 256 = x * 256 + y" using assms by simp
  then show "((x * 256 + y) * 256 + z) div 256 mod 256 = y" using assms by simp
  show "((x * 256 + y) * 256 + z) mod 256 = z" using assms by (simp only: mod_mult_self3 mod_less)
  have "((x * 256 + y) * 256 + z) div (256 * 256) = x" using assms by (simp only: div_mult2_eq) simp
  then show "((x * 256 + y) * 256 + z) div 65536 = x" by simp
qed

lemma split_two:
  fixes x y :: nat assumes "y < 256"
  shows "(x * 256 + y) * 4 div 1024 = x" "(x * 256 + y) * 4 div 4 mod 256 = y"
proof -
  have "(x * 256 + y) * 4 div (4 * 256) = x" using assms by (simp only: div_mult2_eq) simp
  then show "(x * 256 + y) * 4 div 1024 = x" by simp
  show "(x * 256 + y) * 4 div 4 mod 256 = y" using assms by simp
qed

lemma octets_sextets: "list_all (\<lambda>b. b < 256) bs \<Longrightarrow> octets (sextets bs) = Some bs"
proof (induction bs rule: sextets.induct)
  case (1 x y z rest)
  then show ?case
    by (simp only: sextets.simps octets.simps Let_def regroup_three split_three list.pred_inject option.map)
next
  case (2 x y)
  then show ?case
    by (simp only: sextets.simps octets.simps Let_def regroup_two split_two list.pred_inject)
next
  case (3 x)
  have "x * 16 div 64 * 64 + x * 16 mod 64 = x * 16" by (rule div_mult_mod_eq)
  then have "(x * 16 div 64 * 64 + x * 16 mod 64) div 16 = x" by simp
  then show ?case by (simp only: sextets.simps octets.simps Let_def)
qed simp

lemma b64_values_chars:
  "good_alphabet alph \<Longrightarrow> list_all (\<lambda>v. v < 64) vs \<Longrightarrow> b64_values alph (map (b64_char alph) vs) = Some vs"
  by (induction vs) auto

lemma byte_bound [simp]: "list_all (\<lambda>b. b < 256) (map byte_of bs)"
  by (auto simp: list_all_iff)

lemma decode_values_encode:
  assumes "good_alphabet alph" shows "decode_values alph (raw_encode alph bs) = Some bs"
  using assms sextets_bound [of "map byte_of bs"] octets_sextets [of "map byte_of bs"]
  by (simp add: decode_values_def raw_encode_def b64_values_chars comp_def)

lemma raw_encode_set:
  assumes "good_alphabet alph" "c \<in> set (raw_encode alph bs)"
  shows "b64_plain c" "c \<noteq> CHR ''=''"
proof -
  obtain v where "c = b64_char alph v" "v < 64"
    using assms(2) sextets_bound [of "map byte_of bs"] by (auto simp: raw_encode_def list_all_iff)
  with b64_char_plain [OF assms(1)] show "b64_plain c" "c \<noteq> CHR ''=''" by auto
qed

lemma b64_newline_bytes: "\<not> 33 \<le> byte_of (CHR 0x0A)" "\<not> 33 \<le> byte_of (CHR 0x0D)"
  by simp_all

lemma b64_plain_no_newline: "b64_plain c \<Longrightarrow> c \<noteq> CHR 0x0A \<and> c \<noteq> CHR 0x0D"
proof -
  assume "b64_plain c"
  then have "33 \<le> byte_of c" by (simp add: b64_plain_def plain_char_def)
  then show ?thesis by (metis b64_newline_bytes)
qed

lemma skip_newlines_plain: "(\<And>c. c \<in> set s \<Longrightarrow> b64_plain c) \<Longrightarrow> skip_newlines s = s"
  unfolding skip_newlines_def by (rule filter_True) (simp add: b64_plain_no_newline)

lemma byte_text_raw: "good_alphabet alph \<Longrightarrow> byte_text (raw_encode alph) (raw_decode alph)"
proof
  assume good: "good_alphabet alph"
  show "raw_decode alph (raw_encode alph bs) = Some bs" for bs
    using raw_encode_set(1) [OF good]
    by (simp add: raw_decode_def skip_newlines_plain decode_values_encode [OF good])
  show "b64_plain c" if "c \<in> set (raw_encode alph bs)" for c bs
    using raw_encode_set(1) [OF good that] .
qed

interpretation raw_url: byte_text raw_url_encode raw_url_decode
  by (rule byte_text_raw) simp

interpretation raw_std: byte_text raw_std_encode raw_std_decode
  by (rule byte_text_raw) simp

end
