(* ===== verification/Go_Utf8.thy ===== *)
theory Go_Utf8
  imports Go_Strings
begin

text \<open>
  UTF-8 as Go reads and writes it: the width of the rune a string starts with, where an invalid
  byte is one rune of one byte, the number of runes, the validity of a text, and the encoding of
  a code point.
\<close>

definition byte_in :: "bytes \<Rightarrow> nat \<Rightarrow> nat \<Rightarrow> nat \<Rightarrow> bool" where
  "byte_in s i lo hi \<longleftrightarrow> i < length s \<and> lo \<le> byte_of (s ! i) \<and> byte_of (s ! i) \<le> hi"

definition rune_width :: "bytes \<Rightarrow> nat" where
  "rune_width s =
     (let second = (\<lambda>lo hi. byte_in s 1 lo hi); third = byte_in s 2 128 191; fourth = byte_in s 3 128 191
      in if byte_in s 0 0xC2 0xDF \<and> second 128 191 then 2
         else if (byte_in s 0 0xE0 0xE0 \<and> second 0xA0 0xBF \<or> byte_in s 0 0xE1 0xEC \<and> second 128 191
                  \<or> byte_in s 0 0xED 0xED \<and> second 128 0x9F \<or> byte_in s 0 0xEE 0xEF \<and> second 128 191)
                 \<and> third then 3
         else if (byte_in s 0 0xF0 0xF0 \<and> second 0x90 0xBF \<or> byte_in s 0 0xF1 0xF3 \<and> second 128 191
                  \<or> byte_in s 0 0xF4 0xF4 \<and> second 128 0x8F) \<and> third \<and> fourth then 4
         else 1)"

lemma rune_width_pos [simp]: "0 < rune_width s"
  by (simp add: rune_width_def Let_def)

lemma rune_width_ascii [simp]: "byte_of c < 128 \<Longrightarrow> rune_width (c # s) = 1"
  by (auto simp: rune_width_def byte_in_def)

lemma byte_in_length: "byte_in s i lo hi \<Longrightarrow> Suc i \<le> length s"
  by (simp add: byte_in_def)

lemma rune_width_le:
  assumes "s \<noteq> []" shows "rune_width s \<le> length s"
proof -
  have "1 \<le> length s" using assms by (simp add: Suc_le_eq)
  then show ?thesis
    using byte_in_length [of s 1] byte_in_length [of s 2] byte_in_length [of s 3]
    unfolding rune_width_def Let_def by (simp add: eval_nat_numeral) blast
qed

function rune_count :: "bytes \<Rightarrow> nat" where
  "rune_count s = (if s = [] then 0 else Suc (rune_count (drop (rune_width s) s)))"
  by pat_completeness auto
termination
  by (relation "measure length") auto

declare rune_count.simps [simp del]

text \<open>A text is valid when no rune is an invalid byte.\<close>

function valid_utf8 :: "bytes \<Rightarrow> bool" where
  "valid_utf8 s =
     (if s = [] then True
      else (byte_of (hd s) < 128 \<or> 1 < rune_width s) \<and> valid_utf8 (drop (rune_width s) s))"
  by pat_completeness auto
termination
  by (relation "measure length") auto

declare valid_utf8.simps [simp del]

definition replacement_rune :: bytes where
  "replacement_rune = [CHR 0xEF, CHR 0xBF, CHR 0xBD]"

text \<open>The encoding of a code point; surrogates and values out of range give U+FFFD.\<close>

definition utf8_encode :: "nat \<Rightarrow> bytes" where
  "utf8_encode n =
     (if n < 0x80 then [char_of n]
      else if n < 0x800 then [char_of (0xC0 + n div 64), char_of (0x80 + n mod 64)]
      else if 0xD800 \<le> n \<and> n < 0xE000 \<or> 0x10FFFF < n then replacement_rune
      else if n < 0x10000 then
        [char_of (0xE0 + n div 4096), char_of (0x80 + n div 64 mod 64), char_of (0x80 + n mod 64)]
      else [char_of (0xF0 + n div 262144), char_of (0x80 + n div 4096 mod 64),
            char_of (0x80 + n div 64 mod 64), char_of (0x80 + n mod 64)])"

text \<open>\<open>strings.ToValidUTF8\<close> with U+FFFD for every byte that is none.\<close>

function to_valid_utf8 :: "bytes \<Rightarrow> bytes" where
  "to_valid_utf8 [] = []"
| "to_valid_utf8 (c # s) =
     (if byte_of c < 128 then c # to_valid_utf8 s
      else if rune_width (c # s) = 1 then replacement_rune @ to_valid_utf8 s
      else take (rune_width (c # s)) (c # s) @ to_valid_utf8 (drop (rune_width (c # s)) (c # s)))"
  by pat_completeness auto
termination
  by (relation "measure length") auto

declare to_valid_utf8.simps(2) [simp del]

section \<open>Laws\<close>

lemma rune_count_Nil [simp]: "rune_count [] = 0"
  by (simp add: rune_count.simps)

lemma rune_count_step: "s \<noteq> [] \<Longrightarrow> rune_count s = Suc (rune_count (drop (rune_width s) s))"
  by (simp add: rune_count.simps [of s])

lemma rune_count_le: "rune_count s \<le> length s"
proof (induction s rule: rune_count.induct)
  case (1 s)
  show ?case
  proof (cases "s = []")
    case False
    have "length (drop (rune_width s) s) < length s" using False by simp
    with 1 [OF False] show ?thesis unfolding rune_count_step [OF False] by linarith
  qed simp
qed

lemma rune_count_ascii: "ascii s \<Longrightarrow> rune_count s = length s"
  by (induction s) (auto simp: rune_count_step ascii_def)

lemma valid_utf8_Nil [simp]: "valid_utf8 []"
  by (simp add: valid_utf8.simps)

lemma valid_utf8_ascii_Cons [simp]: "byte_of c < 128 \<Longrightarrow> valid_utf8 (c # s) = valid_utf8 s"
  by (simp add: valid_utf8.simps [of "c # s"])

lemma valid_utf8_ascii: "ascii s \<Longrightarrow> valid_utf8 s"
  by (induction s) (auto simp: ascii_def)

text \<open>The width of a rune is fixed by its own bytes when it is valid.\<close>

lemma byte_in_append: "i < length s \<Longrightarrow> byte_in (s @ t) i lo hi = byte_in s i lo hi"
  by (simp add: byte_in_def nth_append)

lemma rune_width_append:
  assumes "1 < rune_width s" shows "rune_width (s @ t) = rune_width s"
proof -
  have "i < length s" if "byte_in s i lo hi" for i lo hi using that by (simp add: byte_in_def)
  have len: "rune_width s \<le> length s" using assms rune_width_le by (cases "s = []") (auto simp: rune_width_def byte_in_def)
  have app: "byte_in (s @ t) i lo hi = byte_in s i lo hi" if "i < rune_width s" for i lo hi
    using that len by (simp add: byte_in_append)
  consider "rune_width s = 2" | "rune_width s = 3" | "rune_width s = 4"
    using assms by (auto simp: rune_width_def Let_def split: if_splits)
  then show ?thesis
  proof cases
    case 1
    with app [of 0] app [of 1] show ?thesis by (auto simp: rune_width_def Let_def split: if_splits)
  next
    case 2
    with app [of 0] app [of 1] app [of 2] show ?thesis
      by (auto simp: rune_width_def Let_def split: if_splits)
  next
    case 3
    with app [of 0] app [of 1] app [of 2] app [of 3] show ?thesis
      by (auto simp: rune_width_def Let_def split: if_splits)
  qed
qed

lemma rune_width_take:
  assumes "1 < rune_width s" shows "rune_width (take (rune_width s) s) = rune_width s"
proof -
  have "s \<noteq> []" using assms by (auto simp: rune_width_def byte_in_def)
  then have len: "rune_width s \<le> length s" by (rule rune_width_le)
  have take: "byte_in (take (rune_width s) s) i lo hi = byte_in s i lo hi" if "i < rune_width s" for i lo hi
    using that len by (simp add: byte_in_def)
  have none: "\<not> byte_in (take (rune_width s) s) i lo hi" if "rune_width s \<le> i" for i lo hi
    using that len by (simp add: byte_in_def)
  consider "rune_width s = 2" | "rune_width s = 3" | "rune_width s = 4"
    using assms by (auto simp: rune_width_def Let_def split: if_splits)
  then show ?thesis
  proof cases
    case 1
    with take [of 0] take [of 1] show ?thesis by (auto simp: rune_width_def [of s] rune_width_def [of "take _ _"] Let_def split: if_splits)
  next
    case 2
    with take [of 0] take [of 1] take [of 2] show ?thesis
      by (auto simp: rune_width_def Let_def split: if_splits)
  next
    case 3
    with take [of 0] take [of 1] take [of 2] take [of 3] show ?thesis
      by (auto simp: rune_width_def Let_def split: if_splits)
  qed
qed

lemma to_valid_utf8_valid: "valid_utf8 s \<Longrightarrow> to_valid_utf8 s = s"
proof (induction s rule: to_valid_utf8.induct)
  case (2 c s)
  let ?w = "rune_width (c # s)"
  show ?case
  proof (cases "byte_of c < 128")
    case True
    with 2 show ?thesis by (simp add: to_valid_utf8.simps(2))
  next
    case False
    with "2.prems" have w: "1 < ?w" "valid_utf8 (drop ?w (c # s))"
      by (simp_all add: valid_utf8.simps [of "c # s"])
    with "2.IH"(3) [OF False] show ?thesis
      unfolding to_valid_utf8.simps(2) [of c s] using False by (simp del: drop_Suc_Cons take_Suc_Cons)
  qed
qed simp

end
