(* ===== verification/Passwords.thy ===== *)
theory Passwords
  imports Sha256 Go_Base64 Go_Numbers Go_Utf8
begin

text \<open>
  Password hashing of \<open>internal/auth/auth.go\<close> and the password policy of
  \<open>internal/auth/credentials.go\<close>: PBKDF2 with HMAC-SHA-256 as the loops compute it, the
  encoded form with its bounds, verification and validation. Random bytes are an argument, with
  \<open>None\<close> for a failing source. The reference definition \<open>rfc_pbkdf2\<close> is RFC 8018.
\<close>

datatype auth_error =
    ErrInvalidHash
  | ErrInvalidToken
  | Password_Too_Short
  | Password_Too_Long
  | Password_Blank
  | Password_Is_Username
  | No_Randomness
  | Bad_Secret
  | Invalid_Username
  | Lifetime_Too_Short

section \<open>PBKDF2\<close>

definition hash_algorithm :: bytes where
  "hash_algorithm = ''pbkdf2-sha256''"

definition hash_iterations :: int where
  "hash_iterations = 210000"

definition salt_bytes :: nat where
  "salt_bytes = 16"

definition hash_bytes :: nat where
  "hash_bytes = 32"

definition xor_bytes :: "bytes \<Rightarrow> bytes \<Rightarrow> bytes" where
  "xor_bytes t u = map2 byte_xor t u"

definition block_counter :: "nat \<Rightarrow> bytes" where
  "block_counter block = map (\<lambda>k. char_of (drop_bit k block mod 256)) [24, 16, 8, 0]"

text \<open>The inner loop, with the number of its rounds that are left.\<close>

fun pbkdf2_rounds :: "(bytes \<Rightarrow> bytes \<Rightarrow> bytes) \<Rightarrow> bytes \<Rightarrow> nat \<Rightarrow> bytes \<Rightarrow> bytes \<Rightarrow> bytes" where
  "pbkdf2_rounds mac password 0 u t = t"
| "pbkdf2_rounds mac password (Suc n) u t =
     (let u' = mac password u in pbkdf2_rounds mac password n u' (xor_bytes t u'))"

definition pbkdf2_block :: "(bytes \<Rightarrow> bytes \<Rightarrow> bytes) \<Rightarrow> bytes \<Rightarrow> bytes \<Rightarrow> int \<Rightarrow> nat \<Rightarrow> bytes" where
  "pbkdf2_block mac password salt iterations block =
     (let u = mac password (salt @ block_counter block)
      in pbkdf2_rounds mac password (nat (iterations - 1)) u u)"

definition pbkdf2 :: "(bytes \<Rightarrow> bytes \<Rightarrow> bytes) \<Rightarrow> bytes \<Rightarrow> bytes \<Rightarrow> int \<Rightarrow> nat \<Rightarrow> bytes" where
  "pbkdf2 mac password salt iterations key_length =
     (let blocks = (key_length + 31) div 32
      in take key_length (concat (map (pbkdf2_block mac password salt iterations) [1..<Suc blocks])))"

abbreviation pbkdf2_sha256 :: "bytes \<Rightarrow> bytes \<Rightarrow> int \<Rightarrow> nat \<Rightarrow> bytes" where
  "pbkdf2_sha256 \<equiv> pbkdf2 hmac_sha256"

section \<open>Encoded hashes\<close>

definition hash_password :: "bytes option \<Rightarrow> bytes \<Rightarrow> (auth_error, bytes) result" where
  "hash_password random password =
     (if length password < 12 then Inl Password_Too_Short
      else if length password > 1024 then Inl Password_Too_Long
      else case random of
        None \<Rightarrow> Inl No_Randomness
      | Some salt \<Rightarrow>
          (let derived = pbkdf2_sha256 password salt hash_iterations hash_bytes
           in Inr (hash_algorithm @ ''$'' @ itoa hash_iterations @ ''$'' @ raw_std_encode salt @ ''$''
                   @ raw_std_encode derived)))"

definition good_iterations :: "int \<Rightarrow> bool" where
  "good_iterations n \<longleftrightarrow> \<not> (n < 100000 \<or> n > 2000000)"

definition good_salt :: "bytes \<Rightarrow> bool" where
  "good_salt salt \<longleftrightarrow> \<not> (length salt < 16 \<or> length salt > 64)"

definition verify_password :: "bytes \<Rightarrow> bytes \<Rightarrow> bool" where
  "verify_password encoded password =
     (case split CHR ''$'' encoded of
        [p0, p1, p2, p3] \<Rightarrow>
          if p0 \<noteq> hash_algorithm then False
          else (case atoi p1 of
            None \<Rightarrow> False
          | Some iterations \<Rightarrow>
              if \<not> good_iterations iterations then False
              else (case raw_std_decode p2 of
                None \<Rightarrow> False
              | Some salt \<Rightarrow>
                  if \<not> good_salt salt then False
                  else (case raw_std_decode p3 of
                    None \<Rightarrow> False
                  | Some expected \<Rightarrow>
                      if length expected \<noteq> hash_bytes then False
                      else pbkdf2_sha256 password salt iterations (length expected) = expected)))
      | _ \<Rightarrow> False)"

definition validation_probe :: bytes where
  "validation_probe = ''__phnctl_hash_validation__''"

definition validate_password_hash :: "bytes \<Rightarrow> auth_error option" where
  "validate_password_hash encoded =
     (case split CHR ''$'' encoded of
        [p0, p1, p2, p3] \<Rightarrow>
          if p0 \<noteq> hash_algorithm then Some ErrInvalidHash
          else if \<not> verify_password encoded validation_probe then
            (if (case atoi p1 of None \<Rightarrow> True | Some n \<Rightarrow> \<not> good_iterations n)
              \<or> (case raw_std_decode p2 of None \<Rightarrow> True | Some salt \<Rightarrow> \<not> good_salt salt)
              \<or> (case raw_std_decode p3 of None \<Rightarrow> True | Some digest \<Rightarrow> length digest \<noteq> hash_bytes)
             then Some ErrInvalidHash else None)
          else None
      | _ \<Rightarrow> Some ErrInvalidHash)"

section \<open>The password policy\<close>

definition min_password_length :: nat where
  "min_password_length = 12"

definition validate_password :: "bytes \<Rightarrow> bytes \<Rightarrow> auth_error option" where
  "validate_password username password =
     (if rune_count password < min_password_length then Some Password_Too_Short
      else if length password > 1024 then Some Password_Too_Long
      else if trim_space password = [] then Some Password_Blank
      else if username \<noteq> [] \<and> equal_fold (trim_space password) (trim_space username)
        then Some Password_Is_Username
      else None)"

section \<open>The loops compute RFC 8018's function\<close>

text \<open>
  Section 5.2: \<open>U_1 = PRF (P, S || INT (i))\<close>, \<open>U_j = PRF (P, U_(j-1))\<close> and \<open>T_i = U_1 xor ... xor U_c\<close>,
  where \<open>INT (i)\<close> is the four octets of \<open>i\<close>, the most significant first, and the octet strings are
  combined octet by octet. Nothing of the specification is a routine of the program.
\<close>

definition rfc_int :: "nat \<Rightarrow> bytes" where
  "rfc_int i = map (\<lambda>k. char_of (i div 256 ^ (3 - k) mod 256)) [0..<4]"

definition rfc_xor :: "bytes \<Rightarrow> bytes \<Rightarrow> bytes" where
  "rfc_xor t u = map (\<lambda>k. octet_xor (t ! k) (u ! k)) [0..<min (length t) (length u)]"

definition rfc_u :: "(bytes \<Rightarrow> bytes \<Rightarrow> bytes) \<Rightarrow> bytes \<Rightarrow> bytes \<Rightarrow> nat \<Rightarrow> nat \<Rightarrow> bytes" where
  "rfc_u prf p s i j = (prf p ^^ j) (s @ rfc_int i)"

definition rfc_t :: "(bytes \<Rightarrow> bytes \<Rightarrow> bytes) \<Rightarrow> bytes \<Rightarrow> bytes \<Rightarrow> nat \<Rightarrow> nat \<Rightarrow> bytes" where
  "rfc_t prf p s c i = foldl rfc_xor (rfc_u prf p s i 1) (map (rfc_u prf p s i) [2..<Suc c])"

definition rfc_pbkdf2 :: "(bytes \<Rightarrow> bytes \<Rightarrow> bytes) \<Rightarrow> bytes \<Rightarrow> bytes \<Rightarrow> nat \<Rightarrow> nat \<Rightarrow> bytes" where
  "rfc_pbkdf2 prf p s c dk_len =
     (let l = (if dk_len mod 32 = 0 then dk_len div 32 else dk_len div 32 + 1)
      in take dk_len (concat (map (\<lambda>i. rfc_t prf p s c (Suc i)) [0..<l])))"

lemma block_counter_rfc: "block_counter i = rfc_int i"
  by (simp add: block_counter_def rfc_int_def drop_bit_eq_div upt_conv_Cons)

lemma xor_bytes_rfc: "xor_bytes t u = rfc_xor t u"
  by (simp add: xor_bytes_def rfc_xor_def byte_xor_octet list_eq_iff_nth_eq)

lemma pbkdf2_rounds_foldl:
  "pbkdf2_rounds mac p n ((mac p ^^ k) x) t =
     foldl rfc_xor t (map (\<lambda>j. (mac p ^^ j) x) [Suc k..<Suc k + n])"
proof (induction n arbitrary: k t)
  case (Suc n)
  have "[Suc k..<Suc k + Suc n] = Suc k # [Suc (Suc k)..<Suc (Suc k) + n]"
    by (simp add: upt_conv_Cons)
  with Suc.IH [of "Suc k"] show ?case by (simp add: Let_def xor_bytes_rfc)
qed simp

lemma pbkdf2_block_rfc: "0 < c \<Longrightarrow> pbkdf2_block mac p s (int c) i = rfc_t mac p s c i"
proof -
  assume "0 < c"
  have "Suc 1 + nat (int c - 1) = Suc c" using \<open>0 < c\<close> by linarith
  then have range: "[2..<Suc c] = [Suc 1..<Suc 1 + nat (int c - 1)]" by (simp only: numeral_2_eq_2 One_nat_def)
  have u: "mac p (s @ rfc_int i) = (mac p ^^ 1) (s @ rfc_int i)" by simp
  show ?thesis
    unfolding pbkdf2_block_def Let_def rfc_t_def rfc_u_def range block_counter_rfc
    by (subst (1) u, subst pbkdf2_rounds_foldl) simp
qed

lemma block_count: "(n + 31) div 32 = (if n mod 32 = 0 then n div 32 else n div 32 + (1::nat))"
proof -
  obtain q r where n: "n = 32 * q + r" and r: "r < 32" by (metis mult_div_mod_eq mod_less_divisor zero_less_numeral)
  have "(n + 31) div 32 = q + (r + 31) div 32"
    unfolding n by (simp only: add.assoc div_mult_self4 zero_neq_numeral not_False_eq_True simp_thms)
  moreover have "(r + 31) div 32 = (if r = 0 then 0 else 1)" using r by (simp add: div_nat_eqI)
  moreover have "n mod 32 = r" "n div 32 = q" using r unfolding n by simp_all
  ultimately show ?thesis by simp
qed

lemma pbkdf2_rfc: "0 < c \<Longrightarrow> pbkdf2 mac p s (int c) n = rfc_pbkdf2 mac p s c n"
proof -
  assume c: "0 < c"
  have "map (pbkdf2_block mac p s (int c)) [1..<Suc l] = map (\<lambda>i. rfc_t mac p s c (Suc i)) [0..<l]" for l
    using c by (simp add: pbkdf2_block_rfc map_Suc_upt [symmetric] del: upt_Suc)
  then show ?thesis unfolding pbkdf2_def rfc_pbkdf2_def Let_def block_count by simp
qed

context mac32 begin

lemma length_rounds: "length u = 32 \<Longrightarrow> length t = 32 \<Longrightarrow> length (pbkdf2_rounds mac p n u t) = 32"
  by (induction n arbitrary: u t) (simp_all add: Let_def xor_bytes_def mac_length)

lemma length_block: "length (pbkdf2_block mac p s c i) = 32"
  by (simp add: pbkdf2_block_def Let_def length_rounds mac_length)

lemma length_pbkdf2: "length (pbkdf2 mac p s c n) = n"
proof -
  have "length (concat (map (pbkdf2_block mac p s c) [1..<Suc l])) = 32 * l" for l
    by (induction l) (simp_all add: length_block)
  moreover have "n \<le> 32 * ((n + 31) div 32)" by linarith
  ultimately show ?thesis by (simp add: pbkdf2_def Let_def del: upt_Suc)
qed

end

section \<open>What an encoded hash says\<close>

definition well_formed_hash :: "bytes \<Rightarrow> int \<Rightarrow> bytes \<Rightarrow> bytes \<Rightarrow> bool" where
  "well_formed_hash encoded iterations salt digest \<longleftrightarrow>
     (\<exists>p1 p2 p3. split CHR ''$'' encoded = [hash_algorithm, p1, p2, p3] \<and>
        atoi p1 = Some iterations \<and> raw_std_decode p2 = Some salt \<and> raw_std_decode p3 = Some digest) \<and>
     100000 \<le> iterations \<and> iterations \<le> 2000000 \<and>
     16 \<le> length salt \<and> length salt \<le> 64 \<and> length digest = 32"

lemma well_formed_hash_unique:
  "well_formed_hash e n s d \<Longrightarrow> well_formed_hash e n' s' d' \<Longrightarrow> n' = n \<and> s' = s \<and> d' = d"
  by (auto simp: well_formed_hash_def)

lemmas hash_bounds = good_iterations_def good_salt_def hash_bytes_def

lemma verify_password_iff:
  "verify_password encoded password \<longleftrightarrow>
     (\<exists>n salt digest. well_formed_hash encoded n salt digest \<and> pbkdf2_sha256 password salt n 32 = digest)"
  unfolding verify_password_def well_formed_hash_def
  by (auto simp: hash_bounds split: list.splits option.splits if_splits)

lemma verify_password_well_formed:
  "well_formed_hash encoded n salt digest \<Longrightarrow>
   verify_password encoded password \<longleftrightarrow> pbkdf2_sha256 password salt n 32 = digest"
  unfolding verify_password_iff using well_formed_hash_unique by blast

text \<open>The checks of \<open>validate_password_hash\<close> without its trial verification.\<close>

definition hash_format :: "bytes \<Rightarrow> bool" where
  "hash_format encoded \<longleftrightarrow>
     (case split CHR ''$'' encoded of
        [p0, p1, p2, p3] \<Rightarrow>
          p0 = hash_algorithm \<and>
          \<not> ((case atoi p1 of None \<Rightarrow> True | Some n \<Rightarrow> \<not> good_iterations n)
             \<or> (case raw_std_decode p2 of None \<Rightarrow> True | Some salt \<Rightarrow> \<not> good_salt salt)
             \<or> (case raw_std_decode p3 of None \<Rightarrow> True | Some digest \<Rightarrow> length digest \<noteq> hash_bytes))
      | _ \<Rightarrow> False)"

lemma hash_format_iff: "hash_format encoded \<longleftrightarrow> (\<exists>n salt digest. well_formed_hash encoded n salt digest)"
  unfolding well_formed_hash_def hash_format_def
  by (auto simp: hash_bounds split: list.splits option.splits if_splits)

lemma hash_format_accepted: "hash_format encoded \<Longrightarrow> validate_password_hash encoded = None"
  by (auto simp: validate_password_hash_def hash_format_def split: list.splits)

lemma accepted_hash_format:
  "validate_password_hash encoded = None \<Longrightarrow> verify_password encoded validation_probe \<or> hash_format encoded"
  by (auto simp: validate_password_hash_def hash_format_def split: list.splits if_splits)

lemma validate_password_hash_iff:
  "validate_password_hash encoded = None \<longleftrightarrow> (\<exists>n salt digest. well_formed_hash encoded n salt digest)"
  using hash_format_accepted accepted_hash_format hash_format_iff verify_password_iff by blast

lemma validate_password_hash_error: "validate_password_hash encoded \<in> {None, Some ErrInvalidHash}"
  by (auto simp: validate_password_hash_def split: list.splits)

lemma hash_password_well_formed:
  assumes "hash_password (Some salt) password = Inr encoded" "16 \<le> length salt" "length salt \<le> 64"
  shows "well_formed_hash encoded 210000 salt (pbkdf2_sha256 password salt 210000 32)"
proof -
  let ?d = "pbkdf2_sha256 password salt 210000 32"
  have e: "encoded = hash_algorithm @ ''$'' @ itoa 210000 @ ''$'' @ raw_std_encode salt @ ''$'' @ raw_std_encode ?d"
    using assms(1) by (simp add: hash_password_def Let_def hash_iterations_def hash_bytes_def split: if_splits)
  have "CHR ''$'' \<notin> set (itoa 210000)" by (rule itoa_no_sep) simp
  then have "split CHR ''$'' encoded = [hash_algorithm, itoa 210000, raw_std_encode salt, raw_std_encode ?d]"
    by (simp add: e hash_algorithm_def raw_std.encode_no_separator)
  then show ?thesis
    using assms(2,3)
    by (simp add: well_formed_hash_def atoi_itoa int64_def raw_std.decode_encode hmac.length_pbkdf2)
qed

section \<open>The policy and the hash\<close>

text \<open>What the setup policy accepts can always be hashed.\<close>

lemma validate_password_hashable:
  assumes "validate_password username password = None"
  shows "\<exists>encoded. hash_password (Some salt) password = Inr encoded"
proof -
  have "12 \<le> rune_count password" "length password \<le> 1024"
    using assms by (auto simp: validate_password_def min_password_length_def split: if_splits)
  with rune_count_le [of password] show ?thesis by (simp add: hash_password_def Let_def)
qed

end
