(* ===== verification/Sessions.thy ===== *)
theory Sessions
  imports Passwords
begin

text \<open>
  The signed session tokens of \<open>internal/auth/auth.go\<close>: \<open>payload.signature\<close>, both in URL
  base64, where the payload is \<open>username|expiry|nonce\<close> and the signature is its HMAC under the
  server's secret. Sessions have no server-side state: a token is what it says, if it is signed.
\<close>

record sessions =
  ses_secret :: bytes
  ses_username :: bytes
  ses_lifetime :: duration

text \<open>Seconds since 1970 of an instant, which is counted from Go's zero time.\<close>

definition unix :: "time \<Rightarrow> int" where
  "unix t = t div 1000000000 - 62135596800"

definition new_sessions :: "bytes \<Rightarrow> bytes \<Rightarrow> duration \<Rightarrow> (auth_error, sessions) result" where
  "new_sessions secret username lifetime =
     (if length secret < 32 then Inl Bad_Secret
      else if username = [] \<or> contains username ''|'' then Inl Invalid_Username
      else if lifetime < minutes 1 then Inl Lifetime_Too_Short
      else Inr \<lparr>ses_secret = secret, ses_username = username, ses_lifetime = lifetime\<rparr>)"

definition sign :: "sessions \<Rightarrow> bytes \<Rightarrow> bytes" where
  "sign s payload = hmac_sha256 (ses_secret s) payload"

definition new_token :: "sessions \<Rightarrow> bytes option \<Rightarrow> time \<Rightarrow> (auth_error, bytes \<times> time) result" where
  "new_token s random now =
     (case random of
        None \<Rightarrow> Inl No_Randomness
      | Some nonce \<Rightarrow>
          (let expires = now + ses_lifetime s;
               payload = ses_username s @ ''|'' @ itoa (unix expires) @ ''|'' @ raw_url_encode nonce;
               encoded_payload = raw_url_encode payload;
               signature = sign s encoded_payload
           in Inr (encoded_payload @ ''.'' @ raw_url_encode signature, expires)))"

definition validate_payload :: "sessions \<Rightarrow> bytes \<Rightarrow> time \<Rightarrow> (auth_error, bytes) result" where
  "validate_payload s raw now =
     (case split CHR ''|'' raw of
        [user, expiry, nonce_text] \<Rightarrow>
          if user \<noteq> ses_username s then Inl ErrInvalidToken
          else (case atoi expiry of
            None \<Rightarrow> Inl ErrInvalidToken
          | Some expires \<Rightarrow>
              if unix now \<ge> expires then Inl ErrInvalidToken
              else (case raw_url_decode nonce_text of
                None \<Rightarrow> Inl ErrInvalidToken
              | Some nonce \<Rightarrow> if length nonce \<noteq> 18 then Inl ErrInvalidToken else Inr user))
      | _ \<Rightarrow> Inl ErrInvalidToken)"

definition validate_token :: "sessions \<Rightarrow> bytes \<Rightarrow> time \<Rightarrow> (auth_error, bytes) result" where
  "validate_token s token now =
     (case split CHR ''.'' token of
        [encoded_payload, encoded_signature] \<Rightarrow>
          (case raw_url_decode encoded_signature of
             None \<Rightarrow> Inl ErrInvalidToken
           | Some signature \<Rightarrow>
               if signature \<noteq> sign s encoded_payload then Inl ErrInvalidToken
               else (case raw_url_decode encoded_payload of
                 None \<Rightarrow> Inl ErrInvalidToken
               | Some raw \<Rightarrow> validate_payload s raw now))
      | _ \<Rightarrow> Inl ErrInvalidToken)"

section \<open>What a token must say\<close>

definition payload_says :: "bytes \<Rightarrow> bytes \<Rightarrow> int \<Rightarrow> bytes \<Rightarrow> bool" where
  "payload_says raw user expires nonce \<longleftrightarrow>
     (\<exists>e n. split CHR ''|'' raw = [user, e, n] \<and> atoi e = Some expires \<and> raw_url_decode n = Some nonce)"

definition token_says :: "bytes \<Rightarrow> bytes \<Rightarrow> bytes \<Rightarrow> bytes \<Rightarrow> bool" where
  "token_says token encoded_payload raw signature \<longleftrightarrow>
     (\<exists>s. split CHR ''.'' token = [encoded_payload, s] \<and> raw_url_decode s = Some signature \<and>
        raw_url_decode encoded_payload = Some raw)"

lemma validate_payload_iff:
  "validate_payload s raw now = Inr user \<longleftrightarrow>
     (\<exists>expires nonce. payload_says raw user expires nonce \<and> user = ses_username s \<and>
        unix now < expires \<and> length nonce = 18)"
  unfolding validate_payload_def payload_says_def
  by (auto split: list.splits option.splits if_splits)

lemma validate_token_iff:
  "validate_token s token now = Inr user \<longleftrightarrow>
     (\<exists>p raw. token_says token p raw (sign s p) \<and> validate_payload s raw now = Inr user)"
  unfolding validate_token_def token_says_def
  by (auto split: list.splits option.splits if_splits)

lemma validate_token_error: "validate_token s token now \<in> {Inl ErrInvalidToken, Inr (ses_username s)}"
  by (auto simp: validate_token_def validate_payload_def split: list.splits option.splits)

section \<open>Issued tokens\<close>

text \<open>What \<open>new_sessions\<close> guarantees of the sessions it returns.\<close>

definition good_sessions :: "sessions \<Rightarrow> bool" where
  "good_sessions s \<longleftrightarrow>
     32 \<le> length (ses_secret s) \<and> ses_username s \<noteq> [] \<and> CHR ''|'' \<notin> set (ses_username s) \<and>
     minutes 1 \<le> ses_lifetime s"

lemma contains_char: "contains s [c] \<longleftrightarrow> c \<in> set s"
  by (induction s) auto

lemma new_sessions_iff:
  "new_sessions secret username lifetime = Inr s \<longleftrightarrow>
     s = \<lparr>ses_secret = secret, ses_username = username, ses_lifetime = lifetime\<rparr> \<and> good_sessions s"
  by (auto simp: new_sessions_def good_sessions_def contains_char)

lemma payload_round_trip:
  assumes "good_sessions s" "int64 expires" "length nonce = 18"
  shows "validate_payload s (ses_username s @ ''|'' @ itoa expires @ ''|'' @ raw_url_encode nonce) now =
    (if unix now < expires then Inr (ses_username s) else Inl ErrInvalidToken)"
proof -
  have "CHR ''|'' \<notin> set (itoa expires)" by (rule itoa_no_sep) simp
  then have "split CHR ''|'' (ses_username s @ ''|'' @ itoa expires @ ''|'' @ raw_url_encode nonce) =
      [ses_username s, itoa expires, raw_url_encode nonce]"
    using assms(1) by (simp add: good_sessions_def raw_url.encode_no_separator)
  then show ?thesis
    using assms(2,3) by (simp add: validate_payload_def atoi_itoa raw_url.decode_encode)
qed

lemma token_round_trip:
  assumes "good_sessions s" "int64 (unix (now + ses_lifetime s))" "length nonce = 18"
    and "new_token s (Some nonce) now = Inr (token, expires)"
  shows "validate_token s token later =
    (if unix later < unix expires then Inr (ses_username s) else Inl ErrInvalidToken)"
proof -
  let ?raw = "ses_username s @ ''|'' @ itoa (unix expires) @ ''|'' @ raw_url_encode nonce"
  have token: "token = raw_url_encode ?raw @ ''.'' @ raw_url_encode (sign s (raw_url_encode ?raw))"
    and expires: "expires = now + ses_lifetime s"
    using assms(4) by (auto simp: new_token_def Let_def)
  have "split CHR ''.'' token = [raw_url_encode ?raw, raw_url_encode (sign s (raw_url_encode ?raw))]"
    by (simp add: token raw_url.encode_no_separator)
  then have "validate_token s token later = validate_payload s ?raw later"
    by (simp add: validate_token_def raw_url.decode_encode)
  with payload_round_trip [OF assms(1) _ assms(3)] assms(2) show ?thesis by (simp add: expires)
qed

text \<open>A token is never accepted in a session object with another name.\<close>

lemma token_of_other_user:
  assumes "validate_token s token now = Inr user" "ses_username s' \<noteq> user"
  shows "validate_token s' token now' = Inl ErrInvalidToken"
proof -
  from assms(1) obtain p raw where t: "token_says token p raw (sign s p)"
    "validate_payload s raw now = Inr user" by (auto simp: validate_token_iff)
  have "validate_token s' token now' \<noteq> Inr u" for u
  proof
    assume "validate_token s' token now' = Inr u"
    then obtain p' raw' where t': "token_says token p' raw' (sign s' p')"
      "validate_payload s' raw' now' = Inr u" by (auto simp: validate_token_iff)
    from t t' have "raw' = raw" by (auto simp: token_says_def)
    with t t' assms(2) show False by (auto simp: validate_payload_iff payload_says_def)
  qed
  with validate_token_error [of s' token now'] show ?thesis by auto
qed

end
