(* ===== verification/Setup.thy ===== *)
theory Setup
  imports Passwords
begin

text \<open>
  First-run setup, \<open>performSetup\<close> of \<open>internal/server/server.go\<close>, after the request has been
  decoded. The lock on the credentials is held in two short sections only, and the hash is
  computed and saved between them, so requests interleave: a request is a thread that goes
  through the phases below, and \<open>setup_step\<close> runs one section of one thread. Saving is the
  renaming of the finished file, hence one step; whether the operating system lets it succeed
  is part of the step.
\<close>

record setup_request =
  sr_token :: bytes
  sr_username :: bytes
  sr_password :: bytes

text \<open>What the requests share: the credentials in memory, the token, and the credentials file.\<close>

record setup_shared =
  su_config_username :: bytes
  su_username :: bytes
  su_hash :: bytes
  su_token :: bytes
  su_file :: "(bytes \<times> bytes) option"

datatype setup_result =
    Already_Configured
  | Bad_Setup_Token
  | Weak_Password auth_error
  | Setup_Internal
  | Setup_Done bytes bytes

datatype setup_phase =
    Decoded setup_request
  | Expecting setup_request bytes
  | Hashed setup_request bytes bytes
  | Stored setup_request bytes bytes
  | Ended setup_request setup_result

section \<open>The sections of the handler\<close>

definition setup_check :: "setup_request \<Rightarrow> setup_shared \<Rightarrow> setup_phase" where
  "setup_check req sh =
     (if su_hash sh \<noteq> [] then Ended req Already_Configured else Expecting req (su_token sh))"

definition setup_username :: "setup_shared \<Rightarrow> setup_request \<Rightarrow> bytes" where
  "setup_username sh req =
     (let username = trim_space (sr_username req)
      in if username = [] then su_config_username sh else username)"

definition setup_decide :: "setup_request \<Rightarrow> bytes \<Rightarrow> bytes option \<Rightarrow> setup_shared \<Rightarrow> setup_phase" where
  "setup_decide req expected random sh =
     (if sr_token req \<noteq> expected then Ended req Bad_Setup_Token
      else let username = setup_username sh req
      in case validate_password username (sr_password req) of
           Some e \<Rightarrow> Ended req (Weak_Password e)
         | None \<Rightarrow> (case hash_password random (sr_password req) of
             Inl _ \<Rightarrow> Ended req Setup_Internal
           | Inr hash \<Rightarrow> Hashed req username hash))"

text \<open>\<open>SaveCredentials\<close> checks what it is given; \<open>os_ok\<close> says whether the file operations succeed.\<close>

definition setup_save :: "setup_request \<Rightarrow> bytes \<Rightarrow> bytes \<Rightarrow> bool \<Rightarrow> setup_shared \<Rightarrow> setup_phase \<times> setup_shared" where
  "setup_save req username hash os_ok sh =
     (if username = [] \<or> validate_password_hash hash \<noteq> None \<or> \<not> os_ok
      then (Ended req Setup_Internal, sh)
      else (Stored req username hash, sh\<lparr>su_file := Some (username, hash)\<rparr>))"

definition setup_commit :: "setup_request \<Rightarrow> bytes \<Rightarrow> bytes \<Rightarrow> setup_shared \<Rightarrow> setup_phase \<times> setup_shared" where
  "setup_commit req username hash sh =
     (if su_hash sh \<noteq> [] then (Ended req Already_Configured, sh)
      else (Ended req (Setup_Done username hash), sh\<lparr>su_username := username, su_hash := hash, su_token := []\<rparr>))"

text \<open>One request alone, from its decoding to its end.\<close>

definition perform_setup :: "setup_request \<Rightarrow> bytes option \<Rightarrow> bool \<Rightarrow> setup_shared \<Rightarrow> setup_result \<times> setup_shared" where
  "perform_setup req random os_ok sh =
     (case setup_check req sh of
        Expecting req expected \<Rightarrow>
          (case setup_decide req expected random sh of
             Hashed req username hash \<Rightarrow>
               (case setup_save req username hash os_ok sh of
                  (Stored req username hash, sh') \<Rightarrow>
                    (case setup_commit req username hash sh' of
                       (Ended _ result, sh'') \<Rightarrow> (result, sh'')
                     | (_, sh'') \<Rightarrow> (Setup_Internal, sh''))
                | (Ended _ result, sh') \<Rightarrow> (result, sh')
                | (_, sh') \<Rightarrow> (Setup_Internal, sh'))
           | Ended _ result \<Rightarrow> (result, sh)
           | _ \<Rightarrow> (Setup_Internal, sh))
      | Ended _ result \<Rightarrow> (result, sh)
      | _ \<Rightarrow> (Setup_Internal, sh))"

section \<open>Interleavings\<close>

type_synonym setup_config = "setup_shared \<times> (nat \<Rightarrow> setup_phase option)"

inductive setup_step :: "setup_config \<Rightarrow> setup_config \<Rightarrow> bool" where
  arrive: "th i = None \<Longrightarrow> setup_step (sh, th) (sh, th(i \<mapsto> Decoded req))"
| check: "th i = Some (Decoded req) \<Longrightarrow> setup_step (sh, th) (sh, th(i \<mapsto> setup_check req sh))"
| decide: "th i = Some (Expecting req expected) \<Longrightarrow> (case random of None \<Rightarrow> True | Some salt \<Rightarrow> length salt = 16) \<Longrightarrow>
    setup_step (sh, th) (sh, th(i \<mapsto> setup_decide req expected random sh))"
| save: "th i = Some (Hashed req username hash) \<Longrightarrow> setup_save req username hash os_ok sh = (p, sh') \<Longrightarrow>
    setup_step (sh, th) (sh', th(i \<mapsto> p))"
| commit: "th i = Some (Stored req username hash) \<Longrightarrow> setup_commit req username hash sh = (p, sh') \<Longrightarrow>
    setup_step (sh, th) (sh', th(i \<mapsto> p))"

inductive_cases setup_stepE: "setup_step (sh, th) cfg"

text \<open>A server that starts without a password has a token and no credentials.\<close>

definition setup_start :: "bytes \<Rightarrow> bytes \<Rightarrow> setup_shared" where
  "setup_start config_username token =
     \<lparr>su_config_username = config_username, su_username = config_username, su_hash = [],
      su_token = token, su_file = None\<rparr>"

inductive setup_reachable :: "bytes \<Rightarrow> bytes \<Rightarrow> setup_config \<Rightarrow> bool" for name token where
  start: "setup_reachable name token (setup_start name token, \<lambda>_. None)"
| step: "setup_reachable name token cfg \<Longrightarrow> setup_step cfg cfg' \<Longrightarrow> setup_reachable name token cfg'"

section \<open>The invariant\<close>

text \<open>Credentials that a request with the right token and an acceptable password asked for.\<close>

definition entitled :: "bytes \<Rightarrow> setup_request \<Rightarrow> bytes \<Rightarrow> bytes \<Rightarrow> bool" where
  "entitled token req username hash \<longleftrightarrow>
     sr_token req = token \<and> validate_password username (sr_password req) = None \<and>
     verify_password hash (sr_password req)"

fun phase_ok :: "bytes \<Rightarrow> setup_phase \<Rightarrow> bool" where
  "phase_ok token (Decoded req) \<longleftrightarrow> True"
| "phase_ok token (Expecting req expected) \<longleftrightarrow> expected = token"
| "phase_ok token (Hashed req username hash) \<longleftrightarrow> entitled token req username hash"
| "phase_ok token (Stored req username hash) \<longleftrightarrow> entitled token req username hash"
| "phase_ok token (Ended req (Setup_Done username hash)) \<longleftrightarrow> entitled token req username hash"
| "phase_ok token (Ended req _) \<longleftrightarrow> True"

definition setup_done :: "(nat \<Rightarrow> setup_phase option) \<Rightarrow> nat \<Rightarrow> bytes \<Rightarrow> bytes \<Rightarrow> bool" where
  "setup_done th i username hash \<longleftrightarrow> (\<exists>req. th i = Some (Ended req (Setup_Done username hash)))"

definition shared_ok :: "bytes \<Rightarrow> setup_shared \<Rightarrow> (nat \<Rightarrow> setup_phase option) \<Rightarrow> bool" where
  "shared_ok token sh th \<longleftrightarrow>
     (if su_hash sh = [] then su_token sh = token \<and> (\<forall>i u h. \<not> setup_done th i u h)
      else su_token sh = [] \<and>
        (\<exists>i. setup_done th i (su_username sh) (su_hash sh) \<and>
           (\<forall>j u h. setup_done th j u h \<longrightarrow> j = i)))"

definition setup_inv :: "bytes \<Rightarrow> setup_config \<Rightarrow> bool" where
  "setup_inv token cfg \<longleftrightarrow>
     (case cfg of (sh, th) \<Rightarrow>
        shared_ok token sh th \<and> (\<forall>i p. th i = Some p \<longrightarrow> phase_ok token p) \<and>
        (\<forall>u h. su_file sh = Some (u, h) \<longrightarrow> (\<exists>req. entitled token req u h)))"

lemma entitled_not_empty: "entitled token req username hash \<Longrightarrow> hash \<noteq> []"
  by (auto simp: entitled_def verify_password_def)

lemma setup_check_ok:
  "shared_ok token sh th \<Longrightarrow> phase_ok token (setup_check req sh) \<and>
   (\<forall>r u h. setup_check req sh \<noteq> Ended r (Setup_Done u h))"
  by (auto simp: setup_check_def shared_ok_def)

lemma hash_password_entitles:
  assumes "hash_password random password = Inr hash" "case random of None \<Rightarrow> True | Some salt \<Rightarrow> length salt = 16"
  shows "verify_password hash password"
proof -
  obtain salt where salt: "random = Some salt"
    using assms(1) by (cases random) (auto simp: hash_password_def split: if_splits)
  with assms have h: "hash_password (Some salt) password = Inr hash" and len: "16 \<le> length salt" "length salt \<le> 64"
    by auto
  from hash_password_well_formed [OF this] show ?thesis by (simp add: verify_password_well_formed)
qed

lemma setup_decide_ok:
  assumes "case random of None \<Rightarrow> True | Some salt \<Rightarrow> length salt = 16"
  shows "phase_ok token (setup_decide req token random sh) \<and>
    (\<forall>r u h. setup_decide req token random sh \<noteq> Ended r (Setup_Done u h))"
  using hash_password_entitles [OF _ assms]
  by (auto simp: setup_decide_def entitled_def Let_def split: option.splits sum.splits)

lemma setup_done_upd:
  "setup_done (th(i \<mapsto> p)) j u h \<longleftrightarrow>
     (if j = i then \<exists>req. p = Ended req (Setup_Done u h) else setup_done th j u h)"
  by (auto simp: setup_done_def)

lemma shared_ok_not_done:
  assumes "shared_ok token sh th" "\<forall>r u h. p \<noteq> Ended r (Setup_Done u h)" "\<forall>u h. \<not> setup_done th i u h"
  shows "shared_ok token sh (th(i \<mapsto> p))"
proof -
  have "setup_done (th(i \<mapsto> p)) = setup_done th"
    using assms(2,3) by (intro ext) (auto simp: setup_done_upd)
  with assms(1) show ?thesis unfolding shared_ok_def by (simp only:)
qed

lemma not_done: "th i = Some p \<Longrightarrow> \<forall>r u h. p \<noteq> Ended r (Setup_Done u h) \<Longrightarrow> \<not> setup_done th i u h"
  by (auto simp: setup_done_def)

lemma setup_inv_phase: "setup_inv token (sh, th) \<Longrightarrow> th i = Some p \<Longrightarrow> phase_ok token p"
  by (simp add: setup_inv_def)

lemma setup_step_inv: "setup_step cfg cfg' \<Longrightarrow> setup_inv token cfg \<Longrightarrow> setup_inv token cfg'"
proof (induction rule: setup_step.induct)
  case (arrive th i sh req)
  then have "\<forall>u h. \<not> setup_done th i u h" by (simp add: setup_done_def)
  with arrive show ?case by (auto simp: setup_inv_def intro!: shared_ok_not_done)
next
  case (check th i req sh)
  then have "\<forall>u h. \<not> setup_done th i u h" by (simp add: setup_done_def)
  with check setup_check_ok [of token sh th req] show ?case
    by (auto simp: setup_inv_def intro!: shared_ok_not_done)
next
  case (decide th i req expected random sh)
  then have "\<forall>u h. \<not> setup_done th i u h" "expected = token"
    using setup_inv_phase [OF decide(3,1)] by (auto simp: setup_done_def)
  with decide setup_decide_ok [OF decide(2), of token req sh] show ?case
    by (auto simp: setup_inv_def intro!: shared_ok_not_done)
next
  case (save th i req username hash os_ok sh p sh')
  then have nd: "\<forall>u h. \<not> setup_done th i u h" and ent: "entitled token req username hash"
    using setup_inv_phase [OF save(3,1)] by (auto simp: setup_done_def)
  have sh': "shared_ok token sh' th" and p: "\<forall>r u h. p \<noteq> Ended r (Setup_Done u h)" "phase_ok token p"
    using save ent by (auto simp: setup_save_def setup_inv_def shared_ok_def split: if_splits)
  have "\<forall>u h. su_file sh' = Some (u, h) \<longrightarrow> (\<exists>req. entitled token req u h)"
    using save ent by (auto simp: setup_save_def setup_inv_def split: if_splits)
  with save(3) shared_ok_not_done [OF sh' p(1) nd] p(2) show ?case by (auto simp: setup_inv_def)
next
  case (commit th i req username hash sh p sh')
  then have nd: "\<forall>u h. \<not> setup_done th i u h" and ent: "entitled token req username hash"
    using setup_inv_phase [OF commit(3,1)] by (auto simp: setup_done_def)
  show ?case
  proof (cases "su_hash sh = []")
    case False
    with commit(2) have "sh' = sh" "p = Ended req Already_Configured" by (auto simp: setup_commit_def)
    with commit(3) nd show ?thesis by (auto simp: setup_inv_def intro!: shared_ok_not_done)
  next
    case True
    with commit(2) have sh': "sh' = sh\<lparr>su_username := username, su_hash := hash, su_token := []\<rparr>"
      and p: "p = Ended req (Setup_Done username hash)" by (auto simp: setup_commit_def)
    have "shared_ok token sh' (th(i \<mapsto> p))"
      using commit(3) True entitled_not_empty [OF ent]
      by (auto simp: setup_inv_def shared_ok_def sh' setup_done_upd p)
    with commit(3) ent show ?thesis by (auto simp: setup_inv_def p) (simp add: sh')
  qed
qed

lemma setup_start_inv: "setup_inv token (setup_start name token, \<lambda>_. None)"
  by (simp add: setup_inv_def setup_start_def shared_ok_def setup_done_def)

lemma setup_reachable_inv: "setup_reachable name token cfg \<Longrightarrow> setup_inv token cfg"
  by (induction rule: setup_reachable.induct) (auto intro: setup_start_inv setup_step_inv)

section \<open>Consequences\<close>

lemma setup_done_once:
  assumes "setup_reachable name token (sh, th)" "setup_done th i u h"
  shows "su_username sh = u \<and> su_hash sh = h \<and> su_token sh = [] \<and>
    (\<forall>j u' h'. setup_done th j u' h' \<longrightarrow> j = i)"
proof -
  have "shared_ok token sh th" using setup_reachable_inv [OF assms(1)] by (simp add: setup_inv_def)
  moreover from this assms(2) have "su_hash sh \<noteq> []" by (auto simp: shared_ok_def)
  ultimately obtain k where k: "su_token sh = []" "setup_done th k (su_username sh) (su_hash sh)"
    "\<forall>j u h. setup_done th j u h \<longrightarrow> j = k" by (auto simp: shared_ok_def)
  with assms(2) have "k = i" by blast
  with k assms(2) show ?thesis by (auto simp: setup_done_def)
qed

lemma setup_done_entitled:
  assumes "setup_reachable name token (sh, th)" "th i = Some (Ended req (Setup_Done u h))"
  shows "entitled token req u h"
  using setup_inv_phase [of token sh th i] setup_reachable_inv [OF assms(1)] assms(2) by fastforce

text \<open>One request alone leaves file and memory in agreement.\<close>

lemma perform_setup_alone:
  assumes "perform_setup req random os_ok sh = (result, sh')"
  shows "(case result of
      Setup_Done u h \<Rightarrow> su_hash sh = [] \<and> sr_token req = su_token sh \<and> os_ok \<and>
        sh' = sh\<lparr>su_username := u, su_hash := h, su_token := [], su_file := Some (u, h)\<rparr>
    | _ \<Rightarrow> sh' = sh)"
  using assms
  by (auto simp: perform_setup_def setup_check_def setup_decide_def setup_save_def setup_commit_def Let_def
      split: if_splits option.splits sum.splits)

section \<open>Executing the steps\<close>

datatype setup_event =
    Arrive nat setup_request
  | Check nat
  | Decide nat "bytes option"
  | Save nat bool
  | Commit nat

fun exec_event :: "setup_config \<Rightarrow> setup_event \<Rightarrow> setup_config option" where
  "exec_event (sh, th) (Arrive i req) = (if th i = None then Some (sh, th(i \<mapsto> Decoded req)) else None)"
| "exec_event (sh, th) (Check i) =
     (case th i of Some (Decoded req) \<Rightarrow> Some (sh, th(i \<mapsto> setup_check req sh)) | _ \<Rightarrow> None)"
| "exec_event (sh, th) (Decide i random) =
     (case th i of
        Some (Expecting req expected) \<Rightarrow>
          if (case random of None \<Rightarrow> True | Some salt \<Rightarrow> length salt = 16)
          then Some (sh, th(i \<mapsto> setup_decide req expected random sh)) else None
      | _ \<Rightarrow> None)"
| "exec_event (sh, th) (Save i os_ok) =
     (case th i of
        Some (Hashed req username hash) \<Rightarrow>
          (let (p, sh') = setup_save req username hash os_ok sh in Some (sh', th(i \<mapsto> p)))
      | _ \<Rightarrow> None)"
| "exec_event (sh, th) (Commit i) =
     (case th i of
        Some (Stored req username hash) \<Rightarrow>
          (let (p, sh') = setup_commit req username hash sh in Some (sh', th(i \<mapsto> p)))
      | _ \<Rightarrow> None)"

lemma exec_event_step: "exec_event cfg event = Some cfg' \<Longrightarrow> setup_step cfg cfg'"
  by (cases "(cfg, event)" rule: exec_event.cases)
    (auto split: if_splits option.splits setup_phase.splits prod.splits intro: setup_step.intros)

fun exec_events :: "setup_config \<Rightarrow> setup_event list \<Rightarrow> setup_config option" where
  "exec_events cfg [] = Some cfg"
| "exec_events cfg (event # events) =
     (case exec_event cfg event of None \<Rightarrow> None | Some cfg' \<Rightarrow> exec_events cfg' events)"

lemma exec_events_reachable:
  "exec_events cfg events = Some cfg' \<Longrightarrow> setup_reachable name token cfg \<Longrightarrow> setup_reachable name token cfg'"
proof (induction events arbitrary: cfg)
  case (Cons event events)
  then obtain next_cfg where e: "exec_event cfg event = Some next_cfg" "exec_events next_cfg events = Some cfg'"
    by (auto split: option.splits)
  show ?case
    by (rule Cons.IH [OF e(2) setup_reachable.step [OF Cons.prems(2) exec_event_step [OF e(1)]]])
qed simp

section \<open>Two requests at once\<close>

definition alice :: setup_request where
  "alice = \<lparr>sr_token = ''token'', sr_username = ''alice'', sr_password = ''correct horse battery''\<rparr>"

definition bob :: setup_request where
  "bob = \<lparr>sr_token = ''token'', sr_username = ''bob'', sr_password = ''staple battery horse''\<rparr>"

lemma alice_bob_policy:
  "validate_password ''alice'' ''correct horse battery'' = None" "trim_space ''alice'' = ''alice''"
  "validate_password ''bob'' ''staple battery horse'' = None" "trim_space ''bob'' = ''bob''"
  by code_simp+

lemma setup_decide_hashed:
  assumes "validate_password (sr_username req) (sr_password req) = None"
    "trim_space (sr_username req) = sr_username req" "sr_username req \<noteq> []" "length salt = 16"
  shows "\<exists>h. setup_decide req (sr_token req) (Some salt) sh = Hashed req (sr_username req) h \<and>
    validate_password_hash h = None \<and> h \<noteq> [] \<and> verify_password h (sr_password req)"
proof -
  obtain h where h: "hash_password (Some salt) (sr_password req) = Inr h"
    using validate_password_hashable [OF assms(1)] by blast
  have verified: "verify_password h (sr_password req)" using hash_password_entitles [OF h] assms(4) by simp
  then have "validate_password_hash h = None" "h \<noteq> []"
    by (auto simp: validate_password_hash_iff verify_password_iff well_formed_hash_def)
  with h verified assms(1-3) show ?thesis by (simp add: setup_decide_def setup_username_def)
qed

lemma setup_race:
  "\<exists>sh th h h'. setup_reachable ''admin'' ''token'' (sh, th) \<and>
     th 0 = Some (Ended alice (Setup_Done ''alice'' h)) \<and> th 1 = Some (Ended bob Already_Configured) \<and>
     su_username sh = ''alice'' \<and> su_hash sh = h \<and> verify_password h (sr_password alice) \<and>
     su_file sh = Some (''bob'', h') \<and> verify_password h' (sr_password bob)"
proof -
  let ?salt = "replicate 16 CHR ''s''" and ?start = "setup_start ''admin'' ''token''"
  obtain h where h: "setup_decide alice ''token'' (Some ?salt) ?start = Hashed alice ''alice'' h"
    "validate_password_hash h = None" "h \<noteq> []" "verify_password h (sr_password alice)"
    using setup_decide_hashed [of alice ?salt ?start] alice_bob_policy by (auto simp: alice_def)
  obtain h' where h': "setup_decide bob ''token'' (Some ?salt) ?start = Hashed bob ''bob'' h'"
    "validate_password_hash h' = None" "h' \<noteq> []" "verify_password h' (sr_password bob)"
    using setup_decide_hashed [of bob ?salt ?start] alice_bob_policy by (auto simp: bob_def)
  define sh where "sh = ?start\<lparr>su_username := ''alice'', su_hash := h, su_token := [], su_file := Some (''bob'', h')\<rparr>"
  have start: "setup_check req ?start = Expecting req ''token''" "su_hash ?start = []" for req
    by (simp_all add: setup_check_def setup_start_def)
  have "exec_events (?start, \<lambda>_. None)
      [Arrive 0 alice, Arrive 1 bob, Check 0, Check 1, Decide 0 (Some ?salt), Decide 1 (Some ?salt),
       Save 0 True, Save 1 True, Commit 0, Commit 1] =
    Some (sh, (\<lambda>_. None)(0 \<mapsto> Ended alice (Setup_Done ''alice'' h), 1 \<mapsto> Ended bob Already_Configured))"
    by (simp add: start h h' setup_save_def setup_commit_def sh_def fun_upd_twist)
  from exec_events_reachable [OF this setup_reachable.start] show ?thesis
    using h(4) h'(4) by (intro exI [of _ sh] exI [of _ h] exI [of _ h'] exI) (auto simp: sh_def)
qed

end
