(* ===== verification/Limiters.thy ===== *)
theory Limiters
  imports Prelude
begin

text \<open>
  The two rate limiters of \<open>internal/server/server.go\<close>: the minimum spacing of hardware
  writes, and the limit of five failed logins per address in fifteen minutes. Both are state
  machines; \<open>run_writes\<close> and \<open>run_logins\<close> run them over a history of calls.
\<close>

section \<open>The write limiter\<close>

text \<open>The state is the time of the last admitted write; the zero time means none.\<close>

definition write_allow :: "time \<Rightarrow> time \<Rightarrow> duration \<Rightarrow> (duration \<times> bool) \<times> time" where
  "write_allow prev now interval =
     (let elapsed = time_sub now prev
      in if \<not> is_zero_time prev \<and> elapsed < interval then ((interval - elapsed, False), prev)
         else ((0, True), now))"

text \<open>The calls at the given times, in order: the times that were admitted.\<close>

fun run_writes :: "duration \<Rightarrow> time \<Rightarrow> time list \<Rightarrow> time list" where
  "run_writes interval prev [] = []"
| "run_writes interval prev (now # later) =
     (case write_allow prev now interval of
        ((_, True), prev') \<Rightarrow> now # run_writes interval prev' later
      | ((_, False), prev') \<Rightarrow> run_writes interval prev' later)"

fun spaced :: "duration \<Rightarrow> time list \<Rightarrow> bool" where
  "spaced d (s # t # ts) \<longleftrightarrow> s + d \<le> t \<and> spaced d (t # ts)"
| "spaced d _ \<longleftrightarrow> True"

text \<open>An interval that the limiter's arithmetic represents exactly.\<close>

definition proper_interval :: "duration \<Rightarrow> bool" where
  "proper_interval d \<longleftrightarrow> 0 < d \<and> d \<le> max_duration"

lemma write_allow_iff:
  "proper_interval d \<Longrightarrow> snd (fst (write_allow prev now d)) \<longleftrightarrow> prev = 0 \<or> prev + d \<le> now"
  using time_sub_less_iff [of d now prev]
  by (auto simp: write_allow_def Let_def is_zero_time_def proper_interval_def min_duration_def)

lemma write_allow_state:
  "snd (write_allow prev now d) = (if snd (fst (write_allow prev now d)) then now else prev)"
  by (simp add: write_allow_def Let_def)

lemma run_writes_simps:
  "proper_interval d \<Longrightarrow> run_writes d prev (now # later) =
     (if prev = 0 \<or> prev + d \<le> now then now # run_writes d now later else run_writes d prev later)"
  using write_allow_iff [of d prev now] write_allow_state [of prev now d]
  by (auto split: prod.splits bool.splits)

lemma run_writes_after:
  "proper_interval d \<Longrightarrow> prev \<noteq> 0 \<Longrightarrow> list_all (\<lambda>t. t \<noteq> 0) calls \<Longrightarrow> spaced d (prev # run_writes d prev calls)"
proof (induction calls arbitrary: prev)
  case (Cons now later)
  then show ?case by (simp add: run_writes_simps del: run_writes.simps(2))
qed simp

lemma run_writes_spaced:
  "proper_interval d \<Longrightarrow> list_all (\<lambda>t. t \<noteq> 0) calls \<Longrightarrow> spaced d (run_writes d 0 calls)"
  using run_writes_after
  by (cases calls) (auto simp: run_writes_simps simp del: run_writes.simps(2))

lemma write_retry:
  assumes "proper_interval d" "fst (write_allow prev now d) = (retry, False)" "prev \<le> now"
  shows "0 < retry \<and> retry \<le> d \<and> snd (fst (write_allow prev (now + retry) d)) \<and>
    (\<forall>t < now + retry. \<not> snd (fst (write_allow prev t d)))"
proof -
  have prev: "prev \<noteq> 0" and early: "now < prev + d"
    using assms(2) write_allow_iff [OF assms(1), of prev now] by auto
  have "time_sub now prev = now - prev"
    using assms(1,3) early by (intro time_sub_exact) (auto simp: proper_interval_def min_duration_def)
  then have "retry = prev + d - now"
    using assms(2) by (auto simp: write_allow_def Let_def split: if_splits)
  with prev early assms(1,3) show ?thesis by (auto simp: write_allow_iff)
qed

section \<open>The login limiter\<close>

type_synonym login_records = "bytes \<Rightarrow> time list option"

definition new_login_limiter :: login_records where
  "new_login_limiter = (\<lambda>_. None)"

definition login_failures :: "login_records \<Rightarrow> bytes \<Rightarrow> time list" where
  "login_failures l address = (case l address of None \<Rightarrow> [] | Some ts \<Rightarrow> ts)"

definition login_window :: duration where
  "login_window = minutes 15"

definition login_allow :: "login_records \<Rightarrow> bytes \<Rightarrow> time \<Rightarrow> bool \<times> login_records" where
  "login_allow l address now =
     (let cutoff = now - login_window;
          recent = filter (\<lambda>attempt. attempt > cutoff) (login_failures l address)
      in (length recent < 5, l(address \<mapsto> recent)))"

definition login_failed :: "login_records \<Rightarrow> bytes \<Rightarrow> time \<Rightarrow> login_records" where
  "login_failed l address now = l(address \<mapsto> login_failures l address @ [now])"

definition login_succeeded :: "login_records \<Rightarrow> bytes \<Rightarrow> login_records" where
  "login_succeeded l address = l(address := None)"

text \<open>
  Attempts one after the other, each with its address, its time and whether its password is
  right. The result lists the failures that were admitted, with address and time.
\<close>

type_synonym attempt = "bytes \<times> time \<times> bool"

fun run_logins :: "login_records \<Rightarrow> attempt list \<Rightarrow> (bytes \<times> time) list" where
  "run_logins l [] = []"
| "run_logins l ((address, now, right) # later) =
     (case login_allow l address now of
        (False, l') \<Rightarrow> run_logins l' later
      | (True, l') \<Rightarrow>
          if right then run_logins (login_succeeded l' address) later
          else (address, now) # run_logins (login_failed l' address now) later)"

lemma login_failures_simps [simp]:
  "login_failures (l(a \<mapsto> ts)) b = (if b = a then ts else login_failures l b)"
  "login_failures (l(a := None)) b = (if b = a then [] else login_failures l b)"
  "login_failures new_login_limiter b = []"
  by (simp_all add: login_failures_def new_login_limiter_def)

text \<open>Failures admitted for one address, when none of its attempts succeeds.\<close>

definition failures_of :: "bytes \<Rightarrow> (bytes \<times> time) list \<Rightarrow> time list" where
  "failures_of address fs = map snd (filter (\<lambda>f. fst f = address) fs)"

lemma failures_of_simps [simp]:
  "failures_of a [] = []" "failures_of a ((b, t) # fs) = (if b = a then t # failures_of a fs else failures_of a fs)"
  by (simp_all add: failures_of_def)

text \<open>
  The window that ends at \<open>now\<close> holds the failures not older than fifteen minutes. Recorded
  failures outside every later window may be forgotten, so the invariant only speaks of windows
  that end at or after the last call.
\<close>

definition in_window :: "time \<Rightarrow> time list \<Rightarrow> time list" where
  "in_window now ts = filter (\<lambda>t. now - login_window < t \<and> t \<le> now) ts"

definition calls_in_order :: "time \<Rightarrow> attempt list \<Rightarrow> bool" where
  "calls_in_order start calls \<longleftrightarrow> sorted_wrt (\<le>) (start # map (\<lambda>(_, t, _). t) calls)"

definition never_right :: "bytes \<Rightarrow> attempt list \<Rightarrow> bool" where
  "never_right address calls \<longleftrightarrow> list_all (\<lambda>(a, _, right). a = address \<longrightarrow> \<not> right) calls"

lemma in_window_Nil [simp]: "in_window now [] = []"
  by (simp add: in_window_def)

lemma in_window_append: "in_window now (xs @ ys) = in_window now xs @ in_window now ys"
  by (simp add: in_window_def)

lemma in_window_Cons:
  "in_window now (t # ts) = (if now - login_window < t \<and> t \<le> now then t # in_window now ts else in_window now ts)"
  by (simp add: in_window_def)

lemma login_window_pos: "0 < login_window"
  by (simp add: login_window_def minutes_def seconds_def)

lemma run_logins_sorted:
  "calls_in_order start calls \<Longrightarrow> list_all (\<lambda>t. start \<le> t) (failures_of a (run_logins l calls))"
proof (induction l calls arbitrary: start rule: run_logins.induct)
  case (2 l address now right later)
  from "2.prems" have now: "start \<le> now" and rest: "calls_in_order now later" "calls_in_order start later"
    by (auto simp: calls_in_order_def)
  show ?case
  proof (cases "login_allow l address now")
    case (Pair ok l')
    then show ?thesis
      using 2(1) [of ok l' start] 2(2,3) [of ok l' start] now rest by (cases ok; cases right) auto
  qed
qed simp

lemma in_window_recent:
  "now \<le> e \<Longrightarrow> in_window e (filter (\<lambda>t. t > now - login_window) ts) = in_window e ts"
  by (induction ts) (auto simp: in_window_Cons in_window_def)

lemma in_window_later: "list_all (\<lambda>t. now \<le> t) ts \<Longrightarrow> e < now \<Longrightarrow> in_window e ts = []"
  by (auto simp: in_window_def list_all_iff filter_empty_conv)

lemma length_in_window: "length (in_window e ts) \<le> length ts"
  by (simp add: in_window_def)

lemma run_logins_bounded:
  assumes "calls_in_order start calls" "never_right a calls"
    and "\<forall>e\<ge>start. length (in_window e (login_failures l a)) \<le> 5"
  shows "\<forall>e\<ge>start. length (in_window e (login_failures l a @ failures_of a (run_logins l calls))) \<le> 5"
  using assms
proof (induction calls arbitrary: l start)
  case (Cons call later)
  obtain b now right where call: "call = (b, now, right)" by (cases call)
  from Cons.prems(1) have now: "start \<le> now" and order: "calls_in_order now later"
    by (auto simp: call calls_in_order_def)
  have wrong: "never_right a later" "b = a \<Longrightarrow> \<not> right"
    using Cons.prems(2) by (auto simp: call never_right_def)
  obtain ok l' where allow: "login_allow l b now = (ok, l')" by fastforce
  let ?recent = "filter (\<lambda>t. t > now - login_window) (login_failures l a)"
  have kept: "login_failures l' a = (if b = a then ?recent else login_failures l a)"
    and ok: "b = a \<Longrightarrow> ok \<Longrightarrow> length ?recent < 5"
    using allow by (auto simp: login_allow_def Let_def)
  define l'' where "l'' = (if \<not> ok then l' else if right then login_succeeded l' b else login_failed l' b now)"
  define fs where "fs = (if b = a \<and> ok then [now] else [])"
  have out: "failures_of a (run_logins l (call # later)) = fs @ failures_of a (run_logins l'' later)"
    using wrong(2) by (auto simp: call allow fs_def l''_def)
  have l'': "login_failures l'' a = (if b = a then ?recent @ fs else login_failures l a)"
    using wrong(2) kept by (auto simp: l''_def fs_def login_failed_def login_succeeded_def)
  have "\<forall>e\<ge>now. length (in_window e (login_failures l'' a)) \<le> 5"
  proof (intro allI impI)
    fix e assume e: "now \<le> e"
    show "length (in_window e (login_failures l'' a)) \<le> 5"
    proof (cases "b = a \<and> ok")
      case True
      then have "length (login_failures l'' a) \<le> 5" using ok l'' by (simp add: fs_def)
      then show ?thesis using length_in_window [of e "login_failures l'' a"] by linarith
    next
      case False
      then show ?thesis
        using Cons.prems(3) e now in_window_recent [OF e, of "login_failures l a"] by (simp add: l'' fs_def)
    qed
  qed
  note IH = Cons.IH [OF order wrong(1) this]
  show ?case
  proof (intro allI impI)
    fix e assume e: "start \<le> e"
    show "length (in_window e (login_failures l a @ failures_of a (run_logins l (call # later)))) \<le> 5"
    proof (cases "now \<le> e")
      case True
      have "in_window e (login_failures l a @ fs) = in_window e (login_failures l'' a)"
        using in_window_recent [OF True, of "login_failures l a"] by (auto simp: l'' in_window_append fs_def)
      then have "in_window e (login_failures l a @ failures_of a (run_logins l (call # later)))
          = in_window e (login_failures l'' a @ failures_of a (run_logins l'' later))"
        by (simp add: out in_window_append)
      then show ?thesis using IH True by simp
    next
      case False
      have "list_all (\<lambda>t. now \<le> t) (failures_of a (run_logins l'' later))"
        using run_logins_sorted [OF order] .
      then have "in_window e (fs @ failures_of a (run_logins l'' later)) = []"
        using False by (intro in_window_later [of now]) (auto simp: fs_def)
      then show ?thesis using Cons.prems(3) e by (simp add: out in_window_append)
    qed
  qed
qed simp

text \<open>From a fresh limiter: at most five failures in any fifteen minutes.\<close>

lemma fresh_logins_bounded:
  assumes "calls_in_order start calls" "never_right a calls"
  shows "length (in_window e (failures_of a (run_logins new_login_limiter calls))) \<le> 5"
proof (cases "start \<le> e")
  case True
  then show ?thesis
    using run_logins_bounded [OF assms, of new_login_limiter] by (simp add: in_window_def)
next
  case False
  then show ?thesis
    using in_window_later [OF run_logins_sorted [OF assms(1)]] by simp
qed

section \<open>Logins in flight\<close>

text \<open>
  \<open>handleLogin\<close> asks \<open>allow\<close> first and records the failure later, after the password has
  been hashed, so that requests overlap: \<open>inflight\<close> counts the admitted requests of an address
  that have not ended, at most \<open>k\<close> of them. A request ends with a failure, with a success, or with
  neither: an admitted one whose body does not decode, or that comes before first-run setup, leaves
  without telling the limiter. The log holds the failures of an address since its last success.
\<close>

record login_state =
  lg_records :: login_records
  lg_inflight :: "bytes \<Rightarrow> nat"
  lg_log :: "(bytes \<times> time) list"
  lg_clock :: time

inductive login_step :: "nat \<Rightarrow> login_state \<Rightarrow> login_state \<Rightarrow> bool" for k where
  admit: "lg_clock s \<le> now \<Longrightarrow> login_allow (lg_records s) a now = (True, l) \<Longrightarrow> lg_inflight s a < k \<Longrightarrow>
    login_step k s (s\<lparr>lg_records := l, lg_inflight := (lg_inflight s)(a := Suc (lg_inflight s a)), lg_clock := now\<rparr>)"
| refuse: "lg_clock s \<le> now \<Longrightarrow> login_allow (lg_records s) a now = (False, l) \<Longrightarrow>
    login_step k s (s\<lparr>lg_records := l, lg_clock := now\<rparr>)"
| wrong: "lg_clock s \<le> now \<Longrightarrow> lg_inflight s a = Suc n \<Longrightarrow>
    login_step k s (s\<lparr>lg_records := login_failed (lg_records s) a now, lg_inflight := (lg_inflight s)(a := n),
      lg_log := lg_log s @ [(a, now)], lg_clock := now\<rparr>)"
| right: "lg_inflight s a = Suc n \<Longrightarrow>
    login_step k s (s\<lparr>lg_records := login_succeeded (lg_records s) a, lg_inflight := (lg_inflight s)(a := n),
      lg_log := filter (\<lambda>f. fst f \<noteq> a) (lg_log s)\<rparr>)"
| leave: "lg_inflight s a = Suc n \<Longrightarrow>
    login_step k s (s\<lparr>lg_inflight := (lg_inflight s)(a := n)\<rparr>)"

inductive login_reachable :: "nat \<Rightarrow> login_state \<Rightarrow> bool" for k where
  fresh: "login_reachable k \<lparr>lg_records = new_login_limiter, lg_inflight = (\<lambda>_. 0), lg_log = [], lg_clock = t\<rparr>"
| step: "login_reachable k s \<Longrightarrow> login_step k s s' \<Longrightarrow> login_reachable k s'"

definition login_inv :: "nat \<Rightarrow> login_state \<Rightarrow> bool" where
  "login_inv k s \<longleftrightarrow>
     (\<forall>a. lg_inflight s a \<le> k \<and>
       (\<forall>e\<ge>lg_clock s.
          in_window e (failures_of a (lg_log s)) = in_window e (login_failures (lg_records s) a) \<and>
          length (in_window e (login_failures (lg_records s) a)) + lg_inflight s a \<le> 4 + k))"

lemma failures_of_append: "failures_of a (xs @ ys) = failures_of a xs @ failures_of a ys"
  by (simp add: failures_of_def)

lemma failures_of_forget:
  "failures_of a (filter (\<lambda>f. fst f \<noteq> b) fs) = (if a = b then [] else failures_of a fs)"
  by (induction fs) auto

lemma login_allow_result:
  assumes "login_allow l a now = (ok, l')"
  shows "ok \<longleftrightarrow> length (filter (\<lambda>t. t > now - login_window) (login_failures l a)) < 5"
    and "now \<le> e \<Longrightarrow> in_window e (login_failures l' b) = in_window e (login_failures l b)"
    and "login_failures l' a = filter (\<lambda>t. t > now - login_window) (login_failures l a)"
  using assms in_window_recent [of now e "login_failures l b"] by (auto simp: login_allow_def Let_def)

lemma login_inv_inflight: "login_inv k s \<Longrightarrow> lg_inflight s a = Suc n \<Longrightarrow> Suc n \<le> k"
  by (metis login_inv_def)

lemma login_step_inv: "login_step k s s' \<Longrightarrow> login_inv k s \<Longrightarrow> login_inv k s'"
proof (induction rule: login_step.induct)
  case (admit s now a l)
  note allow = login_allow_result [OF admit(2)]
  have "length (in_window e (login_failures l a)) \<le> 4" for e
    using allow(1,3) length_in_window [of e "login_failures l a"] by simp
  then have "length (in_window e (login_failures (lg_records s) a)) + lg_inflight s a \<le> 3 + k"
    if "now \<le> e" for e
  proof -
    have "length (in_window e (login_failures (lg_records s) a)) \<le> 4"
      using that allow(2) [OF that, of a] \<open>\<And>e. length (in_window e (login_failures l a)) \<le> 4\<close> by metis
    with admit(3) show ?thesis by linarith
  qed
  with admit allow(2) show ?case by (auto simp: login_inv_def)
next
  case (refuse s now a l)
  note allow = login_allow_result(2) [OF refuse(2)]
  from refuse allow show ?case by (auto simp: login_inv_def)
next
  case (wrong s now a n)
  note a = wrong(2) login_inv_inflight [OF wrong(3,2)]
  have "length (in_window e (login_failures (lg_records s) a)) + length (in_window e [now]) + n \<le> 4 + k"
    if "now \<le> e" for e
  proof -
    have "length (in_window e [now]) \<le> 1" by (simp add: in_window_def)
    moreover have "length (in_window e (login_failures (lg_records s) a)) + lg_inflight s a \<le> 4 + k"
      using wrong(1,3) that by (simp add: login_inv_def)
    ultimately show ?thesis using a(1) by linarith
  qed
  with wrong a show ?case
    by (auto simp: login_inv_def login_failed_def failures_of_append in_window_append)
next
  case (right s a n)
  note login_inv_inflight [OF right(2,1)]
  with right show ?case by (auto simp: login_inv_def login_succeeded_def failures_of_forget)
next
  case (leave s a n)
  have "m + n \<le> 4 + k" if "m + Suc n \<le> 4 + k" for m using that by simp
  with leave login_inv_inflight [OF leave(2,1)] show ?case
    by (auto simp: login_inv_def) (metis add_Suc_right Suc_leD)
qed

lemma login_reachable_inv: "login_reachable k s \<Longrightarrow> login_inv k s"
proof (induction rule: login_reachable.induct)
  case (fresh t)
  show ?case by (simp add: login_inv_def)
next
  case (step s s')
  then show ?case using login_step_inv by blast
qed

lemma login_reachable_bounded:
  "login_reachable k s \<Longrightarrow> length (in_window (lg_clock s) (failures_of a (lg_log s))) \<le> 4 + k"
proof -
  assume "login_reachable k s"
  then have "login_inv k s" by (rule login_reachable_inv)
  then have "in_window (lg_clock s) (failures_of a (lg_log s)) = in_window (lg_clock s) (login_failures (lg_records s) a)"
    "length (in_window (lg_clock s) (login_failures (lg_records s) a)) + lg_inflight s a \<le> 4 + k"
    by (auto simp: login_inv_def)
  then show ?thesis by simp
qed

section \<open>Executing the steps\<close>

datatype login_event = Ask bytes time | Fail bytes time | Succeed bytes | Leave bytes

fun login_exec :: "nat \<Rightarrow> login_state \<Rightarrow> login_event list \<Rightarrow> login_state option" where
  "login_exec k s [] = Some s"
| "login_exec k s (Ask a now # events) =
     (if now < lg_clock s then None
      else case login_allow (lg_records s) a now of
        (False, l) \<Rightarrow> login_exec k (s\<lparr>lg_records := l, lg_clock := now\<rparr>) events
      | (True, l) \<Rightarrow>
          if lg_inflight s a < k
          then login_exec k (s\<lparr>lg_records := l, lg_inflight := (lg_inflight s)(a := Suc (lg_inflight s a)),
                              lg_clock := now\<rparr>) events
          else None)"
| "login_exec k s (Fail a now # events) =
     (if now < lg_clock s then None
      else case lg_inflight s a of
        0 \<Rightarrow> None
      | Suc n \<Rightarrow> login_exec k (s\<lparr>lg_records := login_failed (lg_records s) a now,
            lg_inflight := (lg_inflight s)(a := n), lg_log := lg_log s @ [(a, now)], lg_clock := now\<rparr>) events)"
| "login_exec k s (Succeed a # events) =
     (case lg_inflight s a of
        0 \<Rightarrow> None
      | Suc n \<Rightarrow> login_exec k (s\<lparr>lg_records := login_succeeded (lg_records s) a,
            lg_inflight := (lg_inflight s)(a := n),
            lg_log := filter (\<lambda>f. fst f \<noteq> a) (lg_log s)\<rparr>) events)"
| "login_exec k s (Leave a # events) =
     (case lg_inflight s a of
        0 \<Rightarrow> None
      | Suc n \<Rightarrow> login_exec k (s\<lparr>lg_inflight := (lg_inflight s)(a := n)\<rparr>) events)"

lemma login_exec_reachable:
  "login_exec k s events = Some s' \<Longrightarrow> login_reachable k s \<Longrightarrow> login_reachable k s'"
proof (induction events arbitrary: s)
  case (Cons event events)
  show ?case
  proof (cases event)
    case (Ask a now)
    obtain ok l where allow: "login_allow (lg_records s) a now = (ok, l)" by fastforce
    show ?thesis
    proof (cases ok)
      case True
      with Cons.prems Ask allow
      have free: "lg_inflight s a < k" "lg_clock s \<le> now" and rest: "login_exec k (s\<lparr>lg_records := l,
          lg_inflight := (lg_inflight s)(a := Suc (lg_inflight s a)), lg_clock := now\<rparr>) events = Some s'"
        by (auto split: if_splits)
      from True allow have ok: "login_allow (lg_records s) a now = (True, l)" by simp
      show ?thesis
        by (rule Cons.IH [OF rest login_reachable.step [OF Cons.prems(2) login_step.admit [OF free(2) ok free(1)]]])
    next
      case False
      with Cons.prems Ask allow
      have later: "lg_clock s \<le> now" and rest: "login_exec k (s\<lparr>lg_records := l, lg_clock := now\<rparr>) events = Some s'"
        by (auto split: if_splits)
      from False allow have no: "login_allow (lg_records s) a now = (False, l)" by simp
      show ?thesis
        by (rule Cons.IH [OF rest login_reachable.step [OF Cons.prems(2) login_step.refuse [OF later no]]])
    qed
  next
    case (Fail a now)
    with Cons.prems obtain n where n: "lg_inflight s a = Suc n" "lg_clock s \<le> now"
      and rest: "login_exec k (s\<lparr>lg_records := login_failed (lg_records s) a now,
          lg_inflight := (lg_inflight s)(a := n), lg_log := lg_log s @ [(a, now)], lg_clock := now\<rparr>) events = Some s'"
      by (auto split: if_splits nat.splits)
    show ?thesis
      by (rule Cons.IH [OF rest login_reachable.step [OF Cons.prems(2) login_step.wrong [OF n(2,1)]]])
  next
    case (Succeed a)
    with Cons.prems obtain n where n: "lg_inflight s a = Suc n"
      and rest: "login_exec k (s\<lparr>lg_records := login_succeeded (lg_records s) a,
          lg_inflight := (lg_inflight s)(a := n), lg_log := filter (\<lambda>f. fst f \<noteq> a) (lg_log s)\<rparr>) events = Some s'"
      by (auto split: nat.splits)
    show ?thesis
      by (rule Cons.IH [OF rest login_reachable.step [OF Cons.prems(2) login_step.right [OF n]]])
  next
    case (Leave a)
    with Cons.prems obtain n where n: "lg_inflight s a = Suc n"
      and rest: "login_exec k (s\<lparr>lg_inflight := (lg_inflight s)(a := n)\<rparr>) events = Some s'"
      by (auto split: nat.splits)
    show ?thesis
      by (rule Cons.IH [OF rest login_reachable.step [OF Cons.prems(2) login_step.leave [OF n]]])
  qed
qed simp

definition login_fresh :: "time \<Rightarrow> login_state" where
  "login_fresh t = \<lparr>lg_records = new_login_limiter, lg_inflight = (\<lambda>_. 0), lg_log = [], lg_clock = t\<rparr>"

lemma login_reachable_fresh: "login_reachable k (login_fresh t)"
  unfolding login_fresh_def by (rule login_reachable.fresh)

text \<open>A request that leaves, four failures one after the other, and then two requests at once.\<close>

definition overlapping_logins :: "login_event list" where
  "overlapping_logins =
     (let a = ''192.168.1.7''
      in [Ask a 1, Leave a, Ask a 1, Fail a 2, Ask a 3, Fail a 4, Ask a 5, Fail a 6, Ask a 7, Fail a 8,
          Ask a 9, Ask a 10, Fail a 11, Fail a 12])"

lemma overlapping_logins_run:
  "\<exists>s. login_reachable 2 s \<and>
     length (in_window (lg_clock s) (failures_of ''192.168.1.7'' (lg_log s))) = 6"
proof -
  have run: "case login_exec 2 (login_fresh 0) overlapping_logins of
      None \<Rightarrow> False
    | Some s \<Rightarrow> length (in_window (lg_clock s) (failures_of ''192.168.1.7'' (lg_log s))) = 6"
    by code_simp
  then obtain s where s: "login_exec 2 (login_fresh 0) overlapping_logins = Some s"
    by (cases "login_exec 2 (login_fresh 0) overlapping_logins") auto
  from login_exec_reachable [OF s login_reachable_fresh] run s show ?thesis by auto
qed

end
