(* ===== verification/Auth_Properties.thy ===== *)
theory Auth_Properties
  imports Sessions Setup Limiters
begin

text \<open>
  The properties of authentication: password hashing and its policy, session tokens, the two
  rate limiters, and first-run setup under all interleavings of its requests.
\<close>

section \<open>Passwords\<close>

text \<open>C34. The loops of the key derivation compute PBKDF2 of RFC 8018 with HMAC-SHA-256, for every
  password, salt, number of iterations from one on, and key length, and the result has the length
  asked for.\<close>
theorem pbkdf2_is_rfc8018:
  "pbkdf2_sha256 password salt (int (Suc c)) n = rfc_pbkdf2 hmac_sha256 password salt (Suc c) n \<and>
   length (pbkdf2_sha256 password salt (int (Suc c)) n) = n"
  by (simp only: pbkdf2_rfc [symmetric] zero_less_Suc hmac.length_pbkdf2 simp_thms)

text \<open>A password verifies against an encoded hash exactly when the hash is well formed (the
  algorithm, 100000 to 2000000 iterations, a salt of 16 to 64 bytes and a digest of 32 bytes) and
  its digest is the derived key: no encoded text makes the server iterate more.\<close>
theorem verify_password_spec:
  "verify_password encoded password \<longleftrightarrow>
     (\<exists>n salt digest. well_formed_hash encoded n salt digest \<and> pbkdf2_sha256 password salt n 32 = digest)"
  by (rule verify_password_iff)

text \<open>Validating a hash is checking its format: the trial verification inside it never
  changes the answer, and the only error is that of an invalid hash.\<close>
theorem validation_checks_the_format:
  "validate_password_hash encoded =
     (if \<exists>n salt digest. well_formed_hash encoded n salt digest then None else Some ErrInvalidHash)"
  using validate_password_hash_iff [of encoded] validate_password_hash_error [of encoded] by auto

text \<open>C35. A hash that was made of a password validates, verifies that password, and verifies
  another one only if both derive the same key under its salt.\<close>
theorem hash_verify_roundtrip:
  assumes "hash_password (Some salt) password = Inr encoded" "length salt = salt_bytes"
  shows "validate_password_hash encoded = None \<and> verify_password encoded password \<and>
    (\<forall>other. verify_password encoded other \<longleftrightarrow>
       pbkdf2_sha256 other salt 210000 32 = pbkdf2_sha256 password salt 210000 32)"
proof -
  have "16 \<le> length salt" "length salt \<le> 64" using assms(2) by (simp_all add: salt_bytes_def)
  note wf = hash_password_well_formed [OF assms(1) this]
  with validate_password_hash_iff show ?thesis by (auto simp: verify_password_well_formed [OF wf])
qed

lemma hash_verify_roundtrip_witness:
  "\<exists>encoded. hash_password (Some (replicate 16 CHR ''s'')) ''correct horse battery staple'' = Inr encoded \<and>
     validate_password_hash encoded = None \<and> verify_password encoded ''correct horse battery staple''"
proof -
  obtain encoded where h: "hash_password (Some (replicate 16 CHR ''s'')) ''correct horse battery staple'' = Inr encoded"
    by (simp add: hash_password_def Let_def)
  have "length (replicate 16 CHR ''s'') = salt_bytes" by (simp add: salt_bytes_def)
  from hash_verify_roundtrip [OF h this] h show ?thesis by blast
qed

text \<open>A password that the setup policy accepts has at least twelve runes and at most 1024
  bytes and can always be hashed: the policy never lets through what hashing would refuse.\<close>
theorem accepted_passwords_can_be_hashed:
  assumes "validate_password username password = None"
  shows "12 \<le> rune_count password \<and> length password \<le> 1024 \<and>
    (\<exists>encoded. hash_password (Some salt) password = Inr encoded)"
  using validate_password_hashable [OF assms, of salt] assms
  by (auto simp: validate_password_def min_password_length_def split: if_splits)

lemma accepted_passwords_can_be_hashed_witness:
  "\<exists>encoded. hash_password (Some (replicate 16 CHR ''s'')) ''correct horse battery staple'' = Inr encoded"
proof -
  have "validate_password ''admin'' ''correct horse battery staple'' = None" by code_simp
  from accepted_passwords_can_be_hashed [OF this] show ?thesis by blast
qed

section \<open>Sessions\<close>

text \<open>C32. A token is accepted exactly when it has two parts, its second part decodes to the HMAC
  of its first part under the server's secret, and its first part decodes to a payload that names
  the server's user, has not expired and carries a nonce of eighteen bytes. The name that is
  returned is the server's user.\<close>
theorem accepted_tokens_are_signed:
  "validate_token s token now = Inr user \<longleftrightarrow>
     user = ses_username s \<and>
     (\<exists>payload raw expires nonce.
        token_says token payload raw (hmac_sha256 (ses_secret s) payload) \<and>
        payload_says raw user expires nonce \<and> unix now < expires \<and> length nonce = 18)"
  by (auto simp: validate_token_iff validate_payload_iff sign_def)

text \<open>C33. A token that was issued is accepted for the user it was issued to until the second it
  expires in, and never again after that.\<close>
theorem issued_token_until_expiry:
  assumes "new_sessions secret username lifetime = Inr s" "length nonce = 18"
    and "new_token s (Some nonce) now = Inr (token, expires)" "int64 (unix (now + lifetime))"
  shows "expires = now + lifetime \<and>
    validate_token s token later = (if unix later < unix expires then Inr username else Inl ErrInvalidToken)"
proof -
  have s: "good_sessions s" "s = \<lparr>ses_secret = secret, ses_username = username, ses_lifetime = lifetime\<rparr>"
    using assms(1) [unfolded new_sessions_iff] by blast+
  then have "int64 (unix (now + ses_lifetime s))" using assms(4) by simp
  from token_round_trip [OF s(1) this assms(2,3)] s(2) assms(3) show ?thesis
    by (auto simp: new_token_def Let_def)
qed

lemma issued_token_until_expiry_witness:
  "\<exists>s token expires.
     new_sessions (replicate 32 CHR ''k'') ''admin'' (minutes 720) = Inr s \<and>
     new_token s (Some (replicate 18 CHR ''n'')) (seconds 63900000000) = Inr (token, expires) \<and>
     validate_token s token (seconds 63900003600) = Inr ''admin'' \<and>
     validate_token s token expires = Inl ErrInvalidToken"
proof -
  let ?s = "\<lparr>ses_secret = replicate 32 CHR ''k'', ses_username = ''admin'', ses_lifetime = minutes 720\<rparr>"
  have s: "new_sessions (replicate 32 CHR ''k'') ''admin'' (minutes 720) = Inr ?s"
    by (simp add: new_sessions_def minutes_def seconds_def)
  obtain token expires where t: "new_token ?s (Some (replicate 18 CHR ''n'')) (seconds 63900000000) = Inr (token, expires)"
    by (simp add: new_token_def Let_def)
  have range: "int64 (unix (seconds 63900000000 + minutes 720))"
    by (simp add: int64_def unix_def seconds_def minutes_def)
  note accept = issued_token_until_expiry [OF s _ t range]
  have "unix (seconds 63900003600) < unix (seconds 63900000000 + minutes 720)"
    by (simp add: unix_def seconds_def minutes_def)
  with accept have "validate_token ?s token (seconds 63900003600) = Inr ''admin''"
    "validate_token ?s token expires = Inl ErrInvalidToken" by auto
  with s t show ?thesis by blast
qed

section \<open>Rate limiters\<close>

text \<open>Hardware writes are admitted at least the configured interval apart, however the calls
  come.\<close>
theorem admitted_writes_are_spaced:
  assumes "proper_interval d" "list_all (\<lambda>t. t \<noteq> 0) calls"
  shows "spaced d (run_writes d 0 calls)"
  using assms by (rule run_writes_spaced)

lemma admitted_writes_are_spaced_witness:
  "run_writes 150 0 [1000, 1100, 1149, 1150, 1151, 1400] = [1000, 1150, 1400] \<and> spaced 150 [1000, 1150, 1400]"
proof -
  have run: "run_writes 150 0 [1000, 1100, 1149, 1150, 1151, 1400] = [1000, 1150, 1400]" by code_simp
  have "proper_interval 150" by (simp add: proper_interval_def max_duration_def)
  from admitted_writes_are_spaced [OF this, of "[1000, 1100, 1149, 1150, 1151, 1400]"] run show ?thesis by simp
qed

text \<open>The delay that a refused write is told is exact: a retry after it is admitted, and none
  before.\<close>
theorem retry_delay_is_exact:
  assumes "proper_interval d" "fst (write_allow prev now d) = (retry, False)" "prev \<le> now"
  shows "0 < retry \<and> retry \<le> d \<and> snd (fst (write_allow prev (now + retry) d)) \<and>
    (\<forall>t < now + retry. \<not> snd (fst (write_allow prev t d)))"
  using assms by (rule write_retry)

lemma retry_delay_is_exact_witness:
  "fst (write_allow 1000 1100 150) = (50, False) \<and> snd (fst (write_allow 1000 1150 150))"
proof -
  have refused: "fst (write_allow 1000 1100 150) = (50, False)" by code_simp
  have "proper_interval 150" by (simp add: proper_interval_def max_duration_def)
  from retry_delay_is_exact [OF this refused] refused show ?thesis by simp
qed

text \<open>C39. With at most \<open>k\<close> logins of an address in flight at once, the limiter admits at most
  \<open>4 + k\<close> failures of that address in any fifteen minutes, counted since its last success, whether
  an admitted login then fails, succeeds, or leaves without either (a body that does not decode, or
  no password set yet); with logins one after the other this is the limit of five.\<close>
theorem login_failures_are_bounded:
  assumes "login_reachable k s"
  shows "length (in_window (lg_clock s) (failures_of address (lg_log s))) \<le> 4 + k"
  using assms by (rule login_reachable_bounded)

lemma login_failures_are_bounded_witness:
  "\<exists>s. login_reachable 2 s \<and> length (in_window (lg_clock s) (failures_of ''192.168.1.7'' (lg_log s))) = 6 \<and>
     length (in_window (lg_clock s) (failures_of ''192.168.1.7'' (lg_log s))) \<le> 4 + 2"
proof -
  obtain s where s: "login_reachable 2 s"
    "length (in_window (lg_clock s) (failures_of ''192.168.1.7'' (lg_log s))) = 6"
    using overlapping_logins_run by blast
  from login_failures_are_bounded [OF s(1), of "''192.168.1.7''"] s show ?thesis by blast
qed

text \<open>C40. The limit of five failures does not hold for logins that overlap: the limiter is asked
  before the password is hashed and told of the failure after it, so two logins in flight reach
  six failures in fifteen minutes.\<close>
theorem overlapping_logins_exceed_the_limit:
  "\<exists>s. login_reachable 2 s \<and> 5 < length (in_window (lg_clock s) (failures_of ''192.168.1.7'' (lg_log s)))"
  using overlapping_logins_run by (metis lessI eval_nat_numeral(2,3) semiring_norm(26,27,28))

section \<open>First-run setup\<close>

text \<open>C36. However setup requests interleave, at most one of them succeeds; from then on the
  credentials in memory are its own, and the token is gone.\<close>
theorem setup_succeeds_once:
  assumes "setup_reachable name token (sh, th)" "setup_done th i u h"
  shows "su_username sh = u \<and> su_hash sh = h \<and> su_token sh = [] \<and>
    (\<forall>j u' h'. setup_done th j u' h' \<longrightarrow> j = i)"
  using assms by (rule setup_done_once)

lemma setup_succeeds_once_witness:
  "\<exists>sh th h. setup_reachable ''admin'' ''token'' (sh, th) \<and> setup_done th 0 ''alice'' h \<and>
     su_username sh = ''alice'' \<and> su_hash sh = h \<and> su_token sh = []"
proof -
  obtain sh th h where r: "setup_reachable ''admin'' ''token'' (sh, th)" "setup_done th 0 ''alice'' h"
    using setup_race unfolding setup_done_def by blast
  from setup_succeeds_once [OF this] r show ?thesis by blast
qed

text \<open>C37. A setup request succeeds only with the server's token and an acceptable password, and
  the hash it installs verifies that password; the same holds of what the credentials file holds,
  whoever wrote it last.\<close>
theorem setup_needs_token_and_policy:
  assumes "setup_reachable name token (sh, th)"
  shows "(\<forall>i req u h. th i = Some (Ended req (Setup_Done u h)) \<longrightarrow> entitled token req u h) \<and>
    (\<forall>u h. su_file sh = Some (u, h) \<longrightarrow> (\<exists>req. entitled token req u h))"
  using setup_done_entitled [OF assms] setup_reachable_inv [OF assms] by (auto simp: setup_inv_def)

lemma setup_needs_token_and_policy_witness:
  "\<exists>sh th h req. setup_reachable ''admin'' ''token'' (sh, th) \<and> th 0 = Some (Ended req (Setup_Done ''alice'' h)) \<and>
     entitled ''token'' req ''alice'' h"
proof -
  obtain sh th h where r: "setup_reachable ''admin'' ''token'' (sh, th)" "setup_done th 0 ''alice'' h"
    using setup_race unfolding setup_done_def by blast
  then obtain req where "th 0 = Some (Ended req (Setup_Done ''alice'' h))" by (auto simp: setup_done_def)
  with setup_needs_token_and_policy [OF r(1)] r(1) show ?thesis by blast
qed

text \<open>C38. Two requests that both carry the server's token can leave the server and its file with
  different credentials: the file is written before the second check, outside the lock. In the run
  that is given, Alice's request succeeds and her name and password are the server's, while Bob's is
  refused as already configured, and yet the file holds his name and a hash of his password.\<close>
theorem refused_setup_may_be_saved:
  "\<exists>sh th h h'. setup_reachable ''admin'' ''token'' (sh, th) \<and>
     th 0 = Some (Ended alice (Setup_Done ''alice'' h)) \<and> th 1 = Some (Ended bob Already_Configured) \<and>
     sr_token alice = ''token'' \<and> sr_token bob = ''token'' \<and> sr_username bob = ''bob'' \<and>
     su_username sh = ''alice'' \<and> su_hash sh = h \<and> verify_password h (sr_password alice) \<and>
     su_file sh = Some (''bob'', h') \<and> verify_password h' (sr_password bob)"
  using setup_race by (auto simp: alice_def bob_def)

text \<open>One setup request alone changes nothing unless it succeeds; when it does, no password
  was set, its token was the server's, and memory and file hold the same new credentials.\<close>
theorem setup_alone_agrees_with_file:
  "case perform_setup req random os_ok sh of
     (Setup_Done u h, sh') \<Rightarrow>
       su_hash sh = [] \<and> sr_token req = su_token sh \<and> os_ok \<and>
       sh' = sh\<lparr>su_username := u, su_hash := h, su_token := [], su_file := Some (u, h)\<rparr>
   | (_, sh') \<Rightarrow> sh' = sh"
  using perform_setup_alone [of req random os_ok sh] by (auto split: prod.splits setup_result.splits)

end
