(* ===== verification/Go_Json.thy ===== *)
theory Go_Json
  imports Go_Utf8 Go_Numbers
begin

text \<open>
  The parts of Go's \<open>encoding/json\<close> that the program calls: the scanner with its limit on
  nesting, string literals with their escapes and replaced bytes, decoding into a struct of
  scalars (fields matched by name and then by case, null leaving a field alone, unknown fields
  refused or skipped), and the quoting of strings. The parser runs on fuel; \<open>json_parse_any_fuel\<close>
  shows that twice the length of the text is enough. The section on quoting shows that a
  quoted string of valid UTF-8 reads back as itself.
\<close>

datatype json =
    JNull
  | JBool bool
  | JNumber bytes
  | JString bytes
  | JArray "json list"
  | JObject "(bytes \<times> json) list"

abbreviation quote :: char where
  "quote \<equiv> CHR 0x22"

abbreviation backslash :: char where
  "backslash \<equiv> CHR 0x5C"

definition json_space :: "char \<Rightarrow> bool" where
  "json_space c \<longleftrightarrow> c \<in> {CHR '' '', CHR 0x09, CHR 0x0A, CHR 0x0D}"

definition skip_space :: "bytes \<Rightarrow> bytes" where
  "skip_space s = dropWhile json_space s"

section \<open>Strings\<close>

text \<open>Four hexadecimal digits.\<close>

fun hex4 :: "bytes \<Rightarrow> nat option" where
  "hex4 (a # b # c # d # _) =
     (if is_hex a \<and> is_hex b \<and> is_hex c \<and> is_hex d
      then Some (((unhex a * 16 + unhex b) * 16 + unhex c) * 16 + unhex d) else None)"
| "hex4 _ = None"

text \<open>After a backslash: the bytes an escape stands for and how many bytes it takes.\<close>

definition unicode_escape :: "bytes \<Rightarrow> (bytes \<times> nat) option" where
  "unicode_escape t =
     (case hex4 t of
        None \<Rightarrow> None
      | Some r \<Rightarrow>
          if 0xD800 \<le> r \<and> r < 0xE000 then
            (case (if has_prefix (drop 4 t) [backslash, CHR ''u''] then hex4 (drop 6 t) else None) of
               Some l \<Rightarrow>
                 if r < 0xDC00 \<and> 0xDC00 \<le> l \<and> l < 0xE000
                 then Some (utf8_encode (0x10000 + (r - 0xD800) * 1024 + (l - 0xDC00)), 11)
                 else Some (replacement_rune, 5)
             | None \<Rightarrow> Some (replacement_rune, 5))
          else Some (utf8_encode r, 5))"

definition json_escape :: "bytes \<Rightarrow> (bytes \<times> nat) option" where
  "json_escape s =
     (case s of
        [] \<Rightarrow> None
      | e # t \<Rightarrow>
          if e = quote \<or> e = backslash \<or> e = CHR ''/'' then Some ([e], 1)
          else if e = CHR ''b'' then Some ([CHR 0x08], 1)
          else if e = CHR ''f'' then Some ([CHR 0x0C], 1)
          else if e = CHR ''n'' then Some ([CHR 0x0A], 1)
          else if e = CHR ''r'' then Some ([CHR 0x0D], 1)
          else if e = CHR ''t'' then Some ([CHR 0x09], 1)
          else if e = CHR ''u'' then unicode_escape t
          else None)"

definition prepend :: "bytes \<Rightarrow> (bytes \<times> bytes) option \<Rightarrow> (bytes \<times> bytes) option" where
  "prepend d res = (case res of None \<Rightarrow> None | Some (t, rest) \<Rightarrow> Some (d @ t, rest))"

text \<open>A string literal after its opening quote: its value, and what follows the closing quote.\<close>

function json_string :: "bytes \<Rightarrow> (bytes \<times> bytes) option" where
  "json_string [] = None"
| "json_string (c # s) =
     (if c = quote then Some ([], s)
      else if c = backslash then
        (case json_escape s of None \<Rightarrow> None | Some (d, n) \<Rightarrow> prepend d (json_string (drop n s)))
      else if byte_of c < 32 then None
      else if byte_of c < 128 \<or> 1 < rune_width (c # s)
        then prepend (take (rune_width (c # s)) (c # s)) (json_string (drop (rune_width (c # s)) (c # s)))
      else prepend replacement_rune (json_string s))"
  by pat_completeness auto
termination
  by (relation "measure length") auto

declare json_string.simps(2) [simp del]

section \<open>Numbers\<close>

definition json_fraction :: "bytes \<Rightarrow> (bytes \<times> bytes) option" where
  "json_fraction s =
     (if has_prefix s ''.'' then
        (let ds = takeWhile is_digit (tl s)
         in if ds = [] then None else Some (CHR ''.'' # ds, drop (Suc (length ds)) s))
      else Some ([], s))"

definition json_exponent :: "bytes \<Rightarrow> (bytes \<times> bytes) option" where
  "json_exponent s =
     (if has_prefix s ''e'' \<or> has_prefix s ''E'' then
        (let sign = (if has_prefix (tl s) ''+'' \<or> has_prefix (tl s) ''-'' then 1 else 0);
             ds = takeWhile is_digit (drop (Suc sign) s)
         in if ds = [] then None
            else Some (take (Suc sign + length ds) s, drop (Suc sign + length ds) s))
      else Some ([], s))"

definition json_number :: "bytes \<Rightarrow> (bytes \<times> bytes) option" where
  "json_number s =
     (let sign = (if has_prefix s ''-'' then ''-'' else []);
          ds = takeWhile is_digit (drop (length sign) s);
          whole = (if has_prefix ds ''0'' then ''0'' else ds)
      in if whole = [] then None
         else case json_fraction (drop (length sign + length whole) s) of
           None \<Rightarrow> None
         | Some (fraction, s') \<Rightarrow>
             (case json_exponent s' of
                None \<Rightarrow> None
              | Some (exponent, s'') \<Rightarrow> Some (sign @ whole @ fraction @ exponent, s'')))"

section \<open>Values\<close>

text \<open>The first argument is fuel, the second how deep arrays and objects may still nest.\<close>

fun json_value :: "nat \<Rightarrow> nat \<Rightarrow> bytes \<Rightarrow> (json \<times> bytes) option"
  and json_elements :: "nat \<Rightarrow> nat \<Rightarrow> bytes \<Rightarrow> (json list \<times> bytes) option"
  and json_members :: "nat \<Rightarrow> nat \<Rightarrow> bytes \<Rightarrow> ((bytes \<times> json) list \<times> bytes) option"
where
  "json_value 0 d s = None"
| "json_value (Suc n) d s =
     (case skip_space s of
        [] \<Rightarrow> None
      | c # t \<Rightarrow>
          if c = quote then map_option (\<lambda>(x, r). (JString x, r)) (json_string t)
          else if c = CHR ''{'' then
            (if d = 0 then None
             else if has_prefix (skip_space t) ''}'' then Some (JObject [], tl (skip_space t))
             else map_option (\<lambda>(ms, r). (JObject ms, r)) (json_members n (d - 1) t))
          else if c = CHR ''['' then
            (if d = 0 then None
             else if has_prefix (skip_space t) '']'' then Some (JArray [], tl (skip_space t))
             else map_option (\<lambda>(vs, r). (JArray vs, r)) (json_elements n (d - 1) t))
          else if has_prefix (c # t) ''null'' then Some (JNull, drop 4 (c # t))
          else if has_prefix (c # t) ''true'' then Some (JBool True, drop 4 (c # t))
          else if has_prefix (c # t) ''false'' then Some (JBool False, drop 5 (c # t))
          else map_option (\<lambda>(x, r). (JNumber x, r)) (json_number (c # t)))"
| "json_elements 0 d s = None"
| "json_elements (Suc n) d s =
     (case json_value n d s of
        None \<Rightarrow> None
      | Some (v, r) \<Rightarrow>
          (case skip_space r of
             [] \<Rightarrow> None
           | c # t \<Rightarrow>
               if c = CHR '','' then map_option (\<lambda>(vs, r'). (v # vs, r')) (json_elements n d t)
               else if c = CHR '']'' then Some ([v], t)
               else None))"
| "json_members 0 d s = None"
| "json_members (Suc n) d s =
     (case skip_space s of
        [] \<Rightarrow> None
      | q # t \<Rightarrow>
          if q \<noteq> quote then None
          else (case json_string t of
             None \<Rightarrow> None
           | Some (key, r) \<Rightarrow>
               (case skip_space r of
                  [] \<Rightarrow> None
                | c # u \<Rightarrow>
                    if c \<noteq> CHR '':'' then None
                    else (case json_value n d u of
                       None \<Rightarrow> None
                     | Some (v, r') \<Rightarrow>
                         (case skip_space r' of
                            [] \<Rightarrow> None
                          | e # w \<Rightarrow>
                              if e = CHR '','' then
                                map_option (\<lambda>(ms, r''). ((key, v) # ms, r'')) (json_members n d w)
                              else if e = CHR ''}'' then Some ([(key, v)], w)
                              else None)))))"

definition max_nesting :: nat where
  "max_nesting = 10000"

definition json_parse :: "bytes \<Rightarrow> (json \<times> bytes) option" where
  "json_parse s = json_value (2 * length s + 2) max_nesting s"

section \<open>Decoding into a struct\<close>

type_synonym 'r json_field = "bytes \<times> (json \<Rightarrow> 'r \<Rightarrow> 'r option)"

definition string_field :: "(bytes \<Rightarrow> 'r \<Rightarrow> 'r) \<Rightarrow> json \<Rightarrow> 'r \<Rightarrow> 'r option" where
  "string_field upd v r = (case v of JNull \<Rightarrow> Some r | JString s \<Rightarrow> Some (upd s r) | _ \<Rightarrow> None)"

definition bool_field :: "(bool \<Rightarrow> 'r \<Rightarrow> 'r) \<Rightarrow> json \<Rightarrow> 'r \<Rightarrow> 'r option" where
  "bool_field upd v r = (case v of JNull \<Rightarrow> Some r | JBool b \<Rightarrow> Some (upd b r) | _ \<Rightarrow> None)"

definition int_field :: "(int \<Rightarrow> 'r \<Rightarrow> 'r) \<Rightarrow> json \<Rightarrow> 'r \<Rightarrow> 'r option" where
  "int_field upd v r =
     (case v of
        JNull \<Rightarrow> Some r
      | JNumber lit \<Rightarrow> (case atoi lit of None \<Rightarrow> None | Some i \<Rightarrow> Some (upd i r))
      | _ \<Rightarrow> None)"

text \<open>Pointer fields: null makes them nil.\<close>

definition bool_pointer :: "(bool option \<Rightarrow> 'r \<Rightarrow> 'r) \<Rightarrow> json \<Rightarrow> 'r \<Rightarrow> 'r option" where
  "bool_pointer upd v r =
     (case v of JNull \<Rightarrow> Some (upd None r) | JBool b \<Rightarrow> Some (upd (Some b) r) | _ \<Rightarrow> None)"

definition int_pointer :: "(int option \<Rightarrow> 'r \<Rightarrow> 'r) \<Rightarrow> json \<Rightarrow> 'r \<Rightarrow> 'r option" where
  "int_pointer upd v r =
     (case v of
        JNull \<Rightarrow> Some (upd None r)
      | JNumber lit \<Rightarrow> (case atoi lit of None \<Rightarrow> None | Some i \<Rightarrow> Some (upd (Some i) r))
      | _ \<Rightarrow> None)"

definition find_field :: "'r json_field list \<Rightarrow> bytes \<Rightarrow> 'r json_field option" where
  "find_field flds key =
     (case find (\<lambda>f. fst f = key) flds of
        Some f \<Rightarrow> Some f
      | None \<Rightarrow> find (\<lambda>f. equal_fold (fst f) key) flds)"

fun decode_members :: "bool \<Rightarrow> 'r json_field list \<Rightarrow> (bytes \<times> json) list \<Rightarrow> 'r \<Rightarrow> 'r option" where
  "decode_members strict flds [] r = Some r"
| "decode_members strict flds ((key, v) # ms) r =
     (case find_field flds key of
        None \<Rightarrow> if strict then None else decode_members strict flds ms r
      | Some (_, setter) \<Rightarrow>
          (case setter v r of None \<Rightarrow> None | Some r' \<Rightarrow> decode_members strict flds ms r'))"

definition decode_struct :: "bool \<Rightarrow> 'r json_field list \<Rightarrow> json \<Rightarrow> 'r \<Rightarrow> 'r option" where
  "decode_struct strict flds v r =
     (case v of JNull \<Rightarrow> Some r | JObject ms \<Rightarrow> decode_members strict flds ms r | _ \<Rightarrow> None)"

section \<open>Quoting\<close>

definition hex_digit :: "nat \<Rightarrow> char" where
  "hex_digit n = char_of (if n < 10 then 48 + n else 87 + n)"

definition quote_byte :: "char \<Rightarrow> bytes" where
  "quote_byte c =
     (if c = quote \<or> c = backslash then [backslash, c]
      else if c = CHR 0x08 then [backslash, CHR ''b'']
      else if c = CHR 0x0C then [backslash, CHR ''f'']
      else if c = CHR 0x0A then [backslash, CHR ''n'']
      else if c = CHR 0x0D then [backslash, CHR ''r'']
      else if c = CHR 0x09 then [backslash, CHR ''t'']
      else if byte_of c < 32 \<or> c = CHR ''<'' \<or> c = CHR ''>'' \<or> c = CHR ''&''
        then [backslash, CHR ''u'', CHR ''0'', CHR ''0'', hex_digit (byte_of c div 16), hex_digit (byte_of c mod 16)]
      else [c])"

function quote_body :: "bytes \<Rightarrow> bytes" where
  "quote_body [] = []"
| "quote_body (c # s) =
     (if byte_of c < 128 then quote_byte c @ quote_body s
      else if rune_width (c # s) = 1 then backslash # ''ufffd'' @ quote_body s
      else if has_prefix (c # s) [CHR 0xE2, CHR 0x80, CHR 0xA8]
        then backslash # ''u2028'' @ quote_body (drop 3 (c # s))
      else if has_prefix (c # s) [CHR 0xE2, CHR 0x80, CHR 0xA9]
        then backslash # ''u2029'' @ quote_body (drop 3 (c # s))
      else take (rune_width (c # s)) (c # s) @ quote_body (drop (rune_width (c # s)) (c # s)))"
  by pat_completeness auto
termination
  by (relation "measure length") auto

declare quote_body.simps(2) [simp del]

definition json_quote :: "bytes \<Rightarrow> bytes" where
  "json_quote s = quote # quote_body s @ [quote]"

section \<open>What a value consumes\<close>

lemma prepend_Some:
  "prepend d res = Some (v, r) \<longleftrightarrow> (\<exists>t. res = Some (t, r) \<and> v = d @ t)"
  by (auto simp: prepend_def split: option.splits)

lemma json_string_shorter: "json_string s = Some (v, r) \<Longrightarrow> length r < length s"
proof (induction s arbitrary: v rule: json_string.induct)
  case (2 c s)
  note ih = 2(1-3) and parsed = 2(4) [unfolded json_string.simps(2) [of c s]]
  have shorter: "length (drop (rune_width (c # s)) (c # s)) \<le> length s"
    using rune_width_pos [of "c # s"] unfolding length_drop list.size by linarith
  show ?case
  proof (cases "c = quote \<or> c = backslash")
    case True
    then show ?thesis
      using parsed ih(1) by (fastforce simp: prepend_Some split: if_splits option.splits)
  next
    case False
    then show ?thesis
      using parsed ih(2,3) shorter by (fastforce simp: prepend_Some split: if_splits)
  qed
qed simp

lemma skip_space_le: "length (skip_space s) \<le> length s"
  by (simp add: skip_space_def length_dropWhile_le)

lemma skip_space_Cons: "skip_space s = c # t \<Longrightarrow> length t < length s"
  using skip_space_le [of s] by simp

lemma has_prefix_nonempty: "has_prefix s p \<Longrightarrow> p \<noteq> [] \<Longrightarrow> s \<noteq> []"
  by (cases s; cases p) auto

lemma json_fraction_le: "json_fraction s = Some (x, r) \<Longrightarrow> length r \<le> length s"
  by (auto simp: json_fraction_def Let_def split: if_splits)

lemma json_exponent_le: "json_exponent s = Some (x, r) \<Longrightarrow> length r \<le> length s"
  by (auto simp: json_exponent_def Let_def split: if_splits)

lemma json_number_shorter: "json_number s = Some (x, r) \<Longrightarrow> length r < length s"
proof -
  assume parsed: "json_number s = Some (x, r)"
  define sign where "sign = (if has_prefix s ''-'' then ''-'' else [])"
  define ds where "ds = takeWhile is_digit (drop (length sign) s)"
  define whole where "whole = (if has_prefix ds ''0'' then ''0'' else ds)"
  note num = parsed [unfolded json_number_def Let_def, folded sign_def, folded ds_def, folded whole_def]
  have "whole \<noteq> []" using num by auto
  moreover have "s \<noteq> []" using calculation by (auto simp: whole_def ds_def split: if_splits)
  ultimately have "length (drop (length sign + length whole) s) < length s" by (cases s) auto
  with num show ?thesis
    by (fastforce dest: json_fraction_le json_exponent_le split: option.splits if_splits)
qed

lemmas shorter_facts = json_string_shorter json_number_shorter skip_space_Cons

lemma tl_shorter: "has_prefix (skip_space t) [c] \<Longrightarrow> length (tl (skip_space t)) < length t"
  using skip_space_le [of t] by (cases "skip_space t") auto

lemma json_value_shorter:
  "json_value n d s = Some (v, r) \<Longrightarrow> length r < length s"
  "json_elements n d s = Some (vs, r) \<Longrightarrow> length r < length s"
  "json_members n d s = Some (ms, r) \<Longrightarrow> length r < length s"
proof (induction n d s and n d s and n d s arbitrary: v r and vs r and ms r
    rule: json_value_json_elements_json_members.induct)
  case (2 n d s)
  show ?case
  proof (cases "skip_space s")
    case (Cons c t)
    note len = skip_space_Cons [OF Cons]
    with 2 Cons show ?thesis
      by (fastforce dest: shorter_facts tl_shorter split: if_splits)
  qed (use 2 in simp)
next
  case (4 n d s)
  then show ?case
    by (fastforce dest: skip_space_Cons split: option.splits list.splits if_splits)
next
  case (6 n d s)
  then show ?case
    by (fastforce dest: shorter_facts split: option.splits list.splits if_splits)
qed simp_all

text \<open>With fuel of twice the length, one more unit changes nothing.\<close>

lemma json_value_step_stable:
  "2 * length s < n \<Longrightarrow> json_value (Suc n) d s = json_value n d s"
  "2 * length s + 1 < n \<Longrightarrow> json_elements (Suc n) d s = json_elements n d s"
  "2 * length s + 1 < n \<Longrightarrow> json_members (Suc n) d s = json_members n d s"
proof (induction n d s and n d s and n d s rule: json_value_json_elements_json_members.induct)
  case (2 n d s)
  show ?case
  proof (cases "skip_space s")
    case (Cons c t)
    have len: "2 * length t + 1 < n" using skip_space_Cons [OF Cons] "2.prems" by simp
    have m: "json_members (Suc n) (d - 1) t = json_members n (d - 1) t"
      if "c = CHR ''{''" "d \<noteq> 0" "\<not> has_prefix (skip_space t) ''}''"
      using that len by (intro "2.IH"(1) [OF Cons]) simp_all
    have e: "json_elements (Suc n) (d - 1) t = json_elements n (d - 1) t"
      if "c = CHR ''[''" "d \<noteq> 0" "\<not> has_prefix (skip_space t) '']''"
      using that len by (intro "2.IH"(2) [OF Cons]) simp_all
    show ?thesis
    proof (cases "c = CHR ''{'' \<or> c = CHR ''[''")
      case True
      then show ?thesis
        using m e by (auto simp del: json_members.simps json_elements.simps simp add: Cons)
    next
      case False
      then show ?thesis
        by (simp only: json_value.simps(2) Cons list.case de_Morgan_disj simp_thms if_False)
    qed
  qed simp
next
  case (4 n d s)
  have v: "json_value (Suc n) d s = json_value n d s" using 4 by simp
  show ?case
  proof (cases "json_value n d s")
    case (Some p)
    then obtain x r where p: "json_value n d s = Some (x, r)" by (cases p) auto
    have e: "json_elements (Suc n) d t = json_elements n d t" if "skip_space r = CHR '','' # t" for t
      using json_value_shorter(1) [OF p] skip_space_Cons [OF that] "4.prems"
      by (intro "4.IH"(2) [OF p refl that refl]) simp_all
    show ?thesis
      unfolding json_elements.simps(2) [of "Suc n" d s] json_elements.simps(2) [of n d s] v p
      by (simp add: e del: json_elements.simps split: list.split)
  next
    case None
    then show ?thesis unfolding json_elements.simps(2) [of "Suc n" d s] json_elements.simps(2) [of n d s] v by simp
  qed
next
  case (6 n d s)
  have v: "json_value (Suc n) d u = json_value n d u"
    if "skip_space s = quote # t" "json_string t = Some (key, r)" "skip_space r = CHR '':'' # u" for t key r u
    using skip_space_Cons [OF that(1)] json_string_shorter [OF that(2)] skip_space_Cons [OF that(3)] "6.prems"
    by (intro "6.IH"(1) [OF that(1) _ that(2) refl that(3)]) simp_all
  have m: "json_members (Suc n) d w = json_members n d w"
    if "skip_space s = quote # t" "json_string t = Some (key, r)" "skip_space r = CHR '':'' # u"
      "json_value n d u = Some (x, r')" "skip_space r' = CHR '','' # w" for t key r u x r' w
    using skip_space_Cons [OF that(1)] json_string_shorter [OF that(2)] skip_space_Cons [OF that(3)]
      json_value_shorter(1) [OF that(4)] skip_space_Cons [OF that(5)] "6.prems"
    by (intro "6.IH"(2) [OF that(1) _ that(2) refl that(3) _ that(4) refl that(5)]) simp_all
  show ?case
    unfolding json_members.simps(2) [of "Suc n" d s] json_members.simps(2) [of n d s]
    by (auto simp: v m simp del: json_members.simps json_value.simps split: list.split option.split)
qed simp_all

lemma json_value_enough:
  assumes "2 * length s < n" shows "json_value n d s = json_value (2 * length s + 1) d s"
proof -
  define m where "m = 2 * length s + 1"
  have "json_value (m + k) d s = json_value m d s" for k
  proof (induction k)
    case (Suc k)
    have "json_value (Suc (m + k)) d s = json_value (m + k) d s"
      by (rule json_value_step_stable(1)) (simp add: m_def)
    with Suc show ?case by (simp only: add_Suc_right)
  qed simp
  from this [of "n - m"] assms show ?thesis by (simp only: m_def) simp
qed

lemma json_parse_any_fuel: "2 * length s < n \<Longrightarrow> json_value n max_nesting s = json_parse s"
  unfolding json_parse_def
  by (rule trans [OF json_value_enough json_value_enough [symmetric]]) simp_all

section \<open>Quoting and parsing\<close>

lemma hex_digit_facts: "n < 16 \<Longrightarrow> is_hex (hex_digit n) \<and> unhex (hex_digit n) = n"
  by (auto simp: hex_digit_def is_hex_def unhex_def)

lemma json_escape_unicode:
  assumes "hex4 t = Some n" "n < 0xD800"
  shows "json_escape (CHR ''u'' # t) = Some (utf8_encode n, 5)"
  using assms by (simp add: json_escape_def unicode_escape_def)

lemma quote_byte_control:
  assumes "byte_of c < 128"
  shows "json_escape (CHR ''u'' # CHR ''0'' # CHR ''0'' # hex_digit (byte_of c div 16) # hex_digit (byte_of c mod 16) # s) =
    Some ([c], 5)"
proof -
  have "byte_of c div 16 < 16" "byte_of c mod 16 < 16" using assms by auto
  from this [THEN hex_digit_facts] have
    "hex4 (CHR ''0'' # CHR ''0'' # hex_digit (byte_of c div 16) # hex_digit (byte_of c mod 16) # s) = Some (byte_of c)"
    by (simp add: is_hex_def unhex_def)
  with assms show ?thesis by (simp add: json_escape_unicode utf8_encode_def)
qed

lemma json_string_plain:
  "c \<noteq> quote \<Longrightarrow> c \<noteq> backslash \<Longrightarrow> \<not> byte_of c < 32 \<Longrightarrow> byte_of c < 128 \<Longrightarrow>
   json_string (c # s) = prepend [c] (json_string s)"
  by (simp add: json_string.simps(2))

lemma json_string_escaped:
  "json_escape (e @ s) = Some (d, length e) \<Longrightarrow> json_string (backslash # e @ s) = prepend d (json_string s)"
  by (simp add: json_string.simps(2) [of backslash])

lemma json_escape_short:
  "json_escape (quote # s) = Some ([quote], 1)" "json_escape (backslash # s) = Some ([backslash], 1)"
  "json_escape (CHR ''b'' # s) = Some ([CHR 0x08], 1)" "json_escape (CHR ''f'' # s) = Some ([CHR 0x0C], 1)"
  "json_escape (CHR ''n'' # s) = Some ([CHR 0x0A], 1)" "json_escape (CHR ''r'' # s) = Some ([CHR 0x0D], 1)"
  "json_escape (CHR ''t'' # s) = Some ([CHR 0x09], 1)"
  by (simp_all add: json_escape_def)

lemma json_string_quote_byte:
  assumes "byte_of c < 128"
  shows "json_string (quote_byte c @ s) = prepend [c] (json_string s)"
proof -
  have short: "json_string (backslash # e # s) = prepend [c] (json_string s)"
    if "json_escape (e # s) = Some ([c], 1)" for e
    using json_string_escaped [of "[e]" s "[c]"] that by simp
  show ?thesis
  proof (cases "c \<in> {quote, backslash, CHR 0x08, CHR 0x0C, CHR 0x0A, CHR 0x0D, CHR 0x09}")
    case True
    then have "\<exists>e. quote_byte c = [backslash, e] \<and> json_escape (e # s) = Some ([c], 1)"
      by (auto simp: quote_byte_def json_escape_short)
    with short show ?thesis by auto
  next
    case False
    let ?u = "[CHR ''u'', CHR ''0'', CHR ''0'', hex_digit (byte_of c div 16), hex_digit (byte_of c mod 16)]"
    show ?thesis
    proof (cases "quote_byte c = [c]")
      case True
      then show ?thesis using False assms json_string_plain [of c s] by (auto simp: quote_byte_def split: if_splits)
    next
      case other: False
      then have "quote_byte c = backslash # ?u" using False by (auto simp: quote_byte_def split: if_splits)
      moreover have "json_escape (?u @ s) = Some ([c], length ?u)" using quote_byte_control [OF assms] by simp
      ultimately show ?thesis using json_string_escaped [of ?u s] by simp
    qed
  qed
qed

lemma json_string_rune:
  assumes "1 < rune_width (c # s)" "\<not> byte_of c < 128"
  shows "json_string (take (rune_width (c # s)) (c # s) @ t) = prepend (take (rune_width (c # s)) (c # s)) (json_string t)"
proof -
  let ?w = "rune_width (c # s)"
  let ?d = "take ?w (c # s)"
  have len: "length ?d = ?w" using rune_width_le [of "c # s"] by simp
  have w: "rune_width (?d @ t) = ?w"
  proof -
    have "rune_width ?d = ?w"
      using assms(1) by (rule rune_width_take)
    with assms(1) rune_width_append [of ?d t] show ?thesis by simp
  qed
  have "c \<noteq> quote" "c \<noteq> backslash" using assms(2) by auto
  moreover obtain d where d: "?d = c # d" using assms(1) by (cases ?w) auto
  moreover have "rune_width (c # d @ t) = Suc (length d)" "1 < Suc (length d)"
    using w len assms(1) unfolding d by simp_all
  ultimately show ?thesis
    using assms(2) unfolding d by (simp add: json_string.simps(2))
qed

lemma utf8_separators:
  "utf8_encode 8232 = [CHR 0xE2, CHR 0x80, CHR 0xA8]" "utf8_encode 8233 = [CHR 0xE2, CHR 0x80, CHR 0xA9]"
  by (simp_all add: utf8_encode_def char_of_def bit_Suc_0_iff)

lemma json_string_separators:
  "json_string (backslash # ''u2028'' @ t) = prepend [CHR 0xE2, CHR 0x80, CHR 0xA8] (json_string t)"
  "json_string (backslash # ''u2029'' @ t) = prepend [CHR 0xE2, CHR 0x80, CHR 0xA9] (json_string t)"
  by (rule json_string_escaped;
      simp add: json_escape_def unicode_escape_def is_hex_def unhex_def utf8_separators)+

lemma rune_width_separators:
  "rune_width (CHR 0xE2 # CHR 0x80 # CHR 0xA8 # s) = 3" "rune_width (CHR 0xE2 # CHR 0x80 # CHR 0xA9 # s) = 3"
  by (simp_all add: rune_width_def byte_in_def)

lemma json_string_invalid:
  "json_string (backslash # ''ufffd'' @ t) = prepend replacement_rune (json_string t)"
proof (rule json_string_escaped)
  have "utf8_encode 65533 = replacement_rune"
    by (simp add: utf8_encode_def replacement_rune_def char_of_def bit_Suc_0_iff)
  then show "json_escape (''ufffd'' @ t) = Some (replacement_rune, length ''ufffd'')"
    by (simp add: json_escape_def unicode_escape_def is_hex_def unhex_def)
qed

lemma json_string_quoted: "json_string (quote_body s @ quote # rest) = Some (to_valid_utf8 s, rest)"
proof (induction s rule: quote_body.induct)
  case (2 c s)
  let ?w = "rune_width (c # s)"
  show ?case
  proof (cases "byte_of c < 128 \<or> ?w = 1")
    case True
    with 2 show ?thesis
      by (auto simp: quote_body.simps(2) to_valid_utf8.simps(2) json_string_quote_byte prepend_Some
          json_string_invalid [simplified])
  next
    case False
    then have wide: "1 < ?w" "\<not> byte_of c < 128" using rune_width_pos [of "c # s"] by linarith+
    consider r where "c # s = [CHR 0xE2, CHR 0x80, CHR 0xA8] @ r"
      | r where "c # s = [CHR 0xE2, CHR 0x80, CHR 0xA9] @ r"
      | "\<not> has_prefix (c # s) [CHR 0xE2, CHR 0x80, CHR 0xA8]" "\<not> has_prefix (c # s) [CHR 0xE2, CHR 0x80, CHR 0xA9]"
      unfolding has_prefix_iff by blast
    then show ?thesis
    proof cases
      case (1 r)
      with 2 False show ?thesis
        by (simp add: quote_body.simps(2) to_valid_utf8.simps(2) rune_width_separators
            json_string_separators [simplified] prepend_Some)
    next
      case (2 r)
      with "2.IH" False show ?thesis
        by (simp add: quote_body.simps(2) to_valid_utf8.simps(2) rune_width_separators
            json_string_separators [simplified] prepend_Some)
    next
      case 3
      have "json_string (quote_body (drop ?w (c # s)) @ quote # rest) = Some (to_valid_utf8 (drop ?w (c # s)), rest)"
        using 3 False by (intro "2.IH") simp_all
      moreover have "quote_body (c # s) = take ?w (c # s) @ quote_body (drop ?w (c # s))"
        using 3 False by (auto simp: quote_body.simps(2))
      moreover have "to_valid_utf8 (c # s) = take ?w (c # s) @ to_valid_utf8 (drop ?w (c # s))"
        using False by (auto simp: to_valid_utf8.simps(2))
      ultimately show ?thesis
        using json_string_rune [OF wide] by (simp add: prepend_Some del: take_Suc_Cons drop_Suc_Cons)
    qed
  qed
qed (simp add: json_string.simps(2))

lemma json_string_quote_body: "valid_utf8 s \<Longrightarrow> json_string (quote_body s @ quote # rest) = Some (s, rest)"
  by (simp add: json_string_quoted to_valid_utf8_valid)

end
