(* ===== verification/Json_Print.thy ===== *)
theory Json_Print
  imports Go_Json
begin

text \<open>
  What \<open>json.Marshal\<close> writes: a value without white space, strings quoted and with HTML escaped
  (\<open>json_quote\<close> of \<open>Go_Json\<close>). A byte that is no UTF-8 is written as U+FFFD, so what is read
  back from a text is \<open>readable\<close> of the value (\<open>json_parse_text\<close>). Fuel is treated as a limit:
  a fact about the parser holds \<open>eventually\<close>, and \<open>json_parse_any_fuel\<close> brings it back to the
  fuel that \<open>json_parse\<close> has.
\<close>

section \<open>Printing\<close>

fun json_text :: "json \<Rightarrow> bytes"
  and elements_text :: "json list \<Rightarrow> bytes"
  and members_text :: "(bytes \<times> json) list \<Rightarrow> bytes"
where
  "json_text JNull = ''null''"
| "json_text (JBool b) = (if b then ''true'' else ''false'')"
| "json_text (JNumber n) = n"
| "json_text (JString s) = json_quote s"
| "json_text (JArray vs) = CHR ''['' # elements_text vs @ '']''"
| "json_text (JObject ms) = CHR ''{'' # members_text ms @ ''}''"
| "elements_text [] = []"
| "elements_text (v # vs) = json_text v @ (if vs = [] then [] else CHR '','' # elements_text vs)"
| "members_text [] = []"
| "members_text ((key, v) # ms) =
     json_quote key @ CHR '':'' # json_text v @ (if ms = [] then [] else CHR '','' # members_text ms)"

section \<open>What is read back\<close>

fun readable :: "json \<Rightarrow> json" where
  "readable (JString s) = JString (to_valid_utf8 s)"
| "readable (JArray vs) = JArray (map readable vs)"
| "readable (JObject ms) = JObject (map (\<lambda>(key, v). (to_valid_utf8 key, readable v)) ms)"
| "readable v = v"

text \<open>Every number in a value is a literal of the grammar.\<close>

fun printable :: "json \<Rightarrow> bool" where
  "printable (JNumber n) \<longleftrightarrow> json_number n = Some (n, [])"
| "printable (JArray vs) \<longleftrightarrow> list_all printable vs"
| "printable (JObject ms) \<longleftrightarrow> list_all (\<lambda>(key, v). printable v) ms"
| "printable v \<longleftrightarrow> True"

fun nesting :: "json \<Rightarrow> nat" where
  "nesting (JArray vs) = Suc (fold max (map nesting vs) 0)"
| "nesting (JObject ms) = Suc (fold max (map (\<lambda>(key, v). nesting v) ms) 0)"
| "nesting v = 0"

lemma fold_max_le_iff: "fold max ns (m :: nat) \<le> d \<longleftrightarrow> m \<le> d \<and> list_all (\<lambda>n. n \<le> d) ns"
  by (induction ns arbitrary: m) auto

lemma nesting_le_iff:
  "nesting (JArray vs) \<le> d \<longleftrightarrow> 0 < d \<and> list_all (\<lambda>v. nesting v \<le> d - 1) vs"
  "nesting (JObject ms) \<le> d \<longleftrightarrow> 0 < d \<and> list_all (\<lambda>(key, v). nesting v \<le> d - 1) ms"
  by (cases d; auto simp: fold_max_le_iff list_all_iff)+

section \<open>Numbers\<close>

text \<open>What may follow a value inside a text.\<close>

definition closes :: "bytes \<Rightarrow> bool" where
  "closes rest \<longleftrightarrow> rest = [] \<or> hd rest = CHR '','' \<or> hd rest = CHR '']'' \<or> hd rest = CHR ''}''"

lemma closes_simps [simp]:
  "closes []" "closes (CHR '','' # s)" "closes (CHR '']'' # s)" "closes (CHR ''}'' # s)"
  by (simp_all add: closes_def)

lemma closes_not_number:
  assumes "closes rest"
  shows "takeWhile is_digit rest = []" "\<not> has_prefix rest ''.''" "\<not> has_prefix rest ''e''" "\<not> has_prefix rest ''E''"
  using assms by (cases rest; auto simp: closes_def is_digit_def)+

lemma takeWhile_closes:
  assumes "closes rest" shows "takeWhile is_digit (s @ rest) = takeWhile is_digit s"
  by (induction s) (simp_all add: closes_not_number(1) [OF assms])

lemma has_prefix_closes:
  assumes "closes rest" "c \<in> {CHR ''.'', CHR ''e'', CHR ''E'', CHR ''+'', CHR ''-'', CHR ''0''}"
  shows "has_prefix (s @ rest) [c] = has_prefix s [c]"
  using assms by (cases s; cases rest; auto simp: closes_def has_prefix_iff)

lemma json_fraction_append:
  assumes "json_fraction s = Some (x, r)" "closes rest"
  shows "json_fraction (s @ rest) = Some (x, r @ rest)"
proof (cases "has_prefix s ''.''")
  case True
  then obtain t where "s = CHR ''.'' # t" by (auto simp: has_prefix_iff)
  with assms length_takeWhile_le [of is_digit t] show ?thesis
    by (auto simp: json_fraction_def has_prefix_closes takeWhile_closes Let_def split: if_splits)
next
  case False
  with assms show ?thesis by (simp add: json_fraction_def has_prefix_closes)
qed

lemma json_exponent_append:
  assumes "json_exponent s = Some (x, r)" "closes rest"
  shows "json_exponent (s @ rest) = Some (x, r @ rest)"
proof (cases "has_prefix s ''e'' \<or> has_prefix s ''E''")
  case True
  then obtain c t where s: "s = c # t" "c = CHR ''e'' \<or> c = CHR ''E''" by (auto simp: has_prefix_iff)
  define sign where "sign = (if has_prefix t ''+'' \<or> has_prefix t ''-'' then 1 else 0 :: nat)"
  define ds where "ds = takeWhile is_digit (drop sign t)"
  have ds: "ds \<noteq> []" "x = take (Suc sign + length ds) s" "r = drop (Suc sign + length ds) s"
    using assms(1) True s by (auto simp: json_exponent_def Let_def sign_def [symmetric] ds_def [symmetric] split: if_splits)
  have le: "sign + length ds \<le> length t"
    using length_takeWhile_le [of is_digit "drop sign t"] ds(1) by (cases "sign \<le> length t") (auto simp: ds_def)
  have "sign \<le> length t" using le by simp
  then have "takeWhile is_digit (drop sign (t @ rest)) = ds"
    using takeWhile_closes [OF assms(2), of "drop sign t"] by (simp add: ds_def)
  then show ?thesis
    using ds le s assms(2) True
    by (simp add: json_exponent_def Let_def has_prefix_closes [of _ _ t] has_prefix_closes [of _ _ s] sign_def [symmetric])
qed (use assms in \<open>simp add: json_exponent_def has_prefix_closes\<close>)

lemma json_number_append:
  assumes "json_number lit = Some (x, r)" "closes rest"
  shows "json_number (lit @ rest) = Some (x, r @ rest)"
proof -
  define sign where "sign = (if has_prefix lit ''-'' then ''-'' else [])"
  define ds where "ds = takeWhile is_digit (drop (length sign) lit)"
  define whole where "whole = (if has_prefix ds ''0'' then ''0'' else ds)"
  define s where "s = drop (length sign + length whole) lit"
  note num = assms(1) [unfolded json_number_def Let_def, folded sign_def, folded ds_def, folded whole_def, folded s_def]
  have "whole \<noteq> []" using num by auto
  have sign_le: "length sign \<le> length lit" by (cases lit) (auto simp: sign_def has_prefix_iff)
  have "length ds \<le> length (drop (length sign) lit)" unfolding ds_def by (rule length_takeWhile_le)
  moreover have "length whole \<le> length ds" by (cases ds) (auto simp: whole_def has_prefix_iff)
  ultimately have le: "length sign + length whole \<le> length lit" using sign_le by simp
  have minus: "has_prefix (lit @ rest) ''-'' = has_prefix lit ''-''"
    using assms(2) by (rule has_prefix_closes) simp
  have ds': "takeWhile is_digit (drop (length sign) (lit @ rest)) = ds"
    using sign_le takeWhile_closes [OF assms(2)] by (simp add: ds_def)
  have after: "drop (length sign + length whole) (lit @ rest) = s @ rest"
    using le by (simp add: s_def)
  obtain f s' e s'' where parts: "json_fraction s = Some (f, s')" "json_exponent s' = Some (e, s'')"
      "x = sign @ whole @ f @ e" "r = s''"
    using num \<open>whole \<noteq> []\<close> by (auto split: option.splits)
  have "json_number (lit @ rest) =
      (case json_fraction (s @ rest) of
         None \<Rightarrow> None
       | Some (fraction, s') \<Rightarrow>
           (case json_exponent s' of
              None \<Rightarrow> None
            | Some (exponent, s'') \<Rightarrow> Some (sign @ whole @ fraction @ exponent, s'')))"
    unfolding json_number_def Let_def minus sign_def [symmetric] ds' whole_def [symmetric] after
    using \<open>whole \<noteq> []\<close> by simp
  then show ?thesis
    using json_fraction_append [OF parts(1) assms(2)] json_exponent_append [OF parts(2) assms(2)] parts(3,4) by simp
qed

lemma json_number_head:
  assumes "json_number lit = Some (x, r)"
  shows "\<exists>c t. lit = c # t \<and> (c = CHR ''-'' \<or> is_digit c)"
  using assms
  by (cases lit) (auto simp: json_number_def Let_def has_prefix_iff split: if_splits)

section \<open>Values\<close>

text \<open>The first byte of a text is neither white space nor a closing bracket.\<close>

lemma json_text_head:
  "printable v \<Longrightarrow> \<exists>c t. json_text v = c # t \<and> \<not> json_space c \<and> c \<noteq> CHR '']''"
  by (cases v) (fastforce simp: json_quote_def json_space_def is_digit_def dest: json_number_head)+

lemma skip_space_text: "printable v \<Longrightarrow> skip_space (json_text v @ rest) = json_text v @ rest"
  using json_text_head [of v] by (auto simp: skip_space_def)

lemma skip_space_closes: "closes rest \<Longrightarrow> skip_space rest = rest"
  by (cases rest) (auto simp: closes_def skip_space_def json_space_def)

lemma eventually_Suc: "eventually (\<lambda>n. P (Suc n)) sequentially \<Longrightarrow> eventually P sequentially"
  by (simp only: eventually_sequentially_Suc)

text \<open>A text of a value, of elements and of members is read back in full.\<close>

lemma json_value_number:
  assumes "json_number lit = Some (lit, [])" "closes rest"
  shows "json_value (Suc n) d (lit @ rest) = Some (JNumber lit, rest)"
proof -
  obtain c t where lit: "lit = c # t" "c = CHR ''-'' \<or> is_digit c" using json_number_head [OF assms(1)] by auto
  then have "\<not> json_space c" "c \<noteq> quote" "c \<noteq> CHR ''{''" "c \<noteq> CHR ''[''" "c \<noteq> CHR ''n''" "c \<noteq> CHR ''t''" "c \<noteq> CHR ''f''"
    by (auto simp: json_space_def is_digit_def)
  with lit json_number_append [OF assms] show ?thesis
    by (simp add: skip_space_def has_prefix_iff)
qed

theorem json_text_parsed:
  "printable v \<Longrightarrow> nesting v \<le> d \<Longrightarrow> closes rest \<Longrightarrow>
     eventually (\<lambda>n. json_value n d (json_text v @ rest) = Some (readable v, rest)) sequentially"
  "list_all printable vs \<Longrightarrow> list_all (\<lambda>v. nesting v \<le> d) vs \<Longrightarrow> vs \<noteq> [] \<Longrightarrow>
     eventually (\<lambda>n. json_elements n d (elements_text vs @ CHR '']'' # rest) = Some (map readable vs, rest)) sequentially"
  "list_all (\<lambda>(key, v). printable v) ms \<Longrightarrow> list_all (\<lambda>(key, v). nesting v \<le> d) ms \<Longrightarrow> ms \<noteq> [] \<Longrightarrow>
     eventually (\<lambda>n. json_members n d (members_text ms @ CHR ''}'' # rest) =
       Some (map (\<lambda>(key, v). (to_valid_utf8 key, readable v)) ms, rest)) sequentially"
proof (induction v and vs and ms arbitrary: d rest and d rest and d rest
    rule: json_text_elements_text_members_text.induct)
  case 1
  show ?case by (rule eventually_Suc) (simp add: skip_space_def json_space_def)
next
  case (2 b)
  show ?case by (rule eventually_Suc) (simp add: skip_space_def json_space_def)
next
  case (3 n)
  then show ?case by - (rule eventually_Suc, simp add: json_value_number del: json_value.simps)
next
  case (4 s)
  show ?case
    by (rule eventually_Suc) (simp add: json_quote_def skip_space_def json_space_def json_string_quoted)
next
  case (5 vs)
  obtain d' where d: "d = Suc d'" using "5.prems"(2) by (cases d) (auto simp: nesting_le_iff)
  show ?case
  proof (cases "vs = []")
    case True
    show ?thesis
      by (rule eventually_Suc) (simp add: True d skip_space_def json_space_def)
  next
    case False
    have "eventually (\<lambda>n. json_elements n d' (elements_text vs @ CHR '']'' # rest) = Some (map readable vs, rest)) sequentially"
      using "5.prems" False unfolding nesting_le_iff d by (intro "5.IH") simp_all
    moreover have "\<not> has_prefix (skip_space (elements_text vs @ CHR '']'' # rest)) '']''"
    proof -
      obtain v vs' where vs: "vs = v # vs'" using False by (cases vs) auto
      with "5.prems"(1) json_text_head [of v] obtain c t where
        "json_text v = c # t" "\<not> json_space c" "c \<noteq> CHR '']''" by auto
      then show ?thesis by (simp add: vs skip_space_def has_prefix_iff)
    qed
    ultimately show ?thesis
      by - (rule eventually_Suc, auto elim!: eventually_mono simp: d skip_space_def json_space_def)
  qed
next
  case (6 ms)
  obtain d' where d: "d = Suc d'" using "6.prems"(2) by (cases d) (auto simp: nesting_le_iff)
  show ?case
  proof (cases "ms = []")
    case True
    show ?thesis
      by (rule eventually_Suc) (simp add: True d skip_space_def json_space_def)
  next
    case False
    have "eventually (\<lambda>n. json_members n d' (members_text ms @ CHR ''}'' # rest) =
        Some (map (\<lambda>(key, v). (to_valid_utf8 key, readable v)) ms, rest)) sequentially"
      using "6.prems" False unfolding nesting_le_iff d by (intro "6.IH") simp_all
    moreover have "\<not> has_prefix (skip_space (members_text ms @ CHR ''}'' # rest)) ''}''"
      using False by (cases ms) (auto simp: json_quote_def skip_space_def json_space_def)
    ultimately show ?thesis
      by - (rule eventually_Suc, auto elim!: eventually_mono simp: d skip_space_def json_space_def)
  qed
next
  case (8 v vs)
  let ?rest = "if vs = [] then CHR '']'' # rest else CHR '','' # elements_text vs @ CHR '']'' # rest"
  have "eventually (\<lambda>n. json_value n d (json_text v @ ?rest) = Some (readable v, ?rest)) sequentially"
    using "8.prems" by (intro "8.IH"(1)) simp_all
  moreover have "eventually (\<lambda>n. vs \<noteq> [] \<longrightarrow>
      json_elements n d (elements_text vs @ CHR '']'' # rest) = Some (map readable vs, rest)) sequentially"
    using "8.IH"(2) [of d rest] "8.prems" by (cases "vs = []") simp_all
  ultimately have "eventually (\<lambda>n. json_elements (Suc n) d (json_text v @ ?rest) = Some (map readable (v # vs), rest)) sequentially"
    by eventually_elim (simp add: skip_space_closes)
  then show ?case by - (rule eventually_Suc, simp split: if_splits)
next
  case (10 key v ms)
  let ?rest = "if ms = [] then CHR ''}'' # rest else CHR '','' # members_text ms @ CHR ''}'' # rest"
  have "eventually (\<lambda>n. json_value n d (json_text v @ ?rest) = Some (readable v, ?rest)) sequentially"
    using "10.prems" by (intro "10.IH"(1)) simp_all
  moreover have "eventually (\<lambda>n. ms \<noteq> [] \<longrightarrow> json_members n d (members_text ms @ CHR ''}'' # rest) =
      Some (map (\<lambda>(key, v). (to_valid_utf8 key, readable v)) ms, rest)) sequentially"
    using "10.IH"(2) [of d rest] "10.prems" by (cases "ms = []") simp_all
  ultimately have "eventually (\<lambda>n. json_members (Suc n) d (json_quote key @ CHR '':'' # json_text v @ ?rest) =
      Some ((to_valid_utf8 key, readable v) # map (\<lambda>(key, v). (to_valid_utf8 key, readable v)) ms, rest)) sequentially"
    by eventually_elim (simp add: skip_space_def json_space_def json_quote_def json_string_quoted)
  then show ?case by - (rule eventually_Suc, simp split: if_splits)
qed simp_all

theorem json_parse_text:
  assumes "printable v" "nesting v \<le> max_nesting"
  shows "json_parse (json_text v) = Some (readable v, [])"
proof -
  obtain N where N: "\<And>n. N \<le> n \<Longrightarrow> json_value n max_nesting (json_text v) = Some (readable v, [])"
    using json_text_parsed(1) [OF assms, of "[]"] by (auto simp: eventually_sequentially)
  let ?n = "max N (Suc (2 * length (json_text v)))"
  have "json_value ?n max_nesting (json_text v) = json_parse (json_text v)"
    by (rule json_parse_any_fuel) simp
  with N [of ?n] show ?thesis by simp
qed

end
