(* ===== verification/Go_Time.thy ===== *)
theory Go_Time
  imports Go_Numbers
begin

text \<open>
  The calendar of Go's \<open>time\<close> package, in UTC: the date and the clock of an instant, and
  \<open>MarshalJSON\<close>, which writes RFC 3339 with the fraction's trailing zeros left out and fails
  outside of the years 0 to 9999. \<open>date_days\<close> counts days the other way round, by the rule
  for leap years alone, and \<open>date_of_days\<close> is shown to be its inverse.
\<close>

section \<open>Dates\<close>

record date =
  dt_year :: int
  dt_month :: nat
  dt_day :: int

definition leap_year :: "int \<Rightarrow> bool" where
  "leap_year y \<longleftrightarrow> y mod 4 = 0 \<and> (y mod 100 \<noteq> 0 \<or> y mod 400 = 0)"

definition month_lengths :: "int \<Rightarrow> int list" where
  "month_lengths y = [31, if leap_year y then 29 else 28, 31, 30, 31, 30, 31, 31, 30, 31, 30, 31]"

text \<open>The month and the day of the month of a day of the year, counted from 0.\<close>

fun month_day :: "int list \<Rightarrow> nat \<Rightarrow> int \<Rightarrow> nat \<times> int" where
  "month_day [] m d = (m, d + 1)"
| "month_day (l # ls) m d = (if d < l then (m, d + 1) else month_day ls (Suc m) (d - l))"

text \<open>The year and the day of the year of a day since 1 January of the year 1.\<close>

definition year_day :: "int \<Rightarrow> int \<times> int" where
  "year_day days =
     (let n400 = days div 146097; r400 = days mod 146097;
          n100 = min 3 (r400 div 36524); r100 = r400 - 36524 * n100;
          n4 = r100 div 1461; r4 = r100 mod 1461;
          n1 = min 3 (r4 div 365)
      in (400 * n400 + 100 * n100 + 4 * n4 + n1 + 1, r4 - 365 * n1))"

definition date_of_days :: "int \<Rightarrow> date" where
  "date_of_days days =
     (let (y, d) = year_day days; (m, day) = month_day (month_lengths y) 1 d
      in \<lparr>dt_year = y, dt_month = m, dt_day = day\<rparr>)"

section \<open>RFC 3339\<close>

definition day_length :: duration where
  "day_length = seconds 86400"

text \<open>A number with leading zeros, up to a width.\<close>

fun padded :: "nat \<Rightarrow> nat \<Rightarrow> bytes" where
  "padded 0 n = []"
| "padded (Suc k) n = padded k (n div 10) @ [digit_char (n mod 10)]"

text \<open>A fraction, with a dot unless it is zero, and no zeros at its end.\<close>

definition fraction_text :: "nat \<Rightarrow> nat \<Rightarrow> bytes" where
  "fraction_text k n =
     (if n = 0 then [] else CHR ''.'' # rev (dropWhile (\<lambda>c. c = CHR ''0'') (rev (padded k n))))"

definition rfc3339_nano :: "time \<Rightarrow> bytes option" where
  "rfc3339_nano t =
     (let d = date_of_days (t div day_length); clock = t mod day_length; s = clock div 1000000000
      in if dt_year d < 0 \<or> 9999 < dt_year d then None
         else Some (padded 4 (nat (dt_year d)) @ ''-'' @ padded 2 (dt_month d) @ ''-'' @ padded 2 (nat (dt_day d))
           @ ''T'' @ padded 2 (nat (s div 3600)) @ '':'' @ padded 2 (nat (s div 60 mod 60)) @ '':'' @ padded 2 (nat (s mod 60))
           @ fraction_text 9 (nat (clock mod 1000000000)) @ ''Z''))"

section \<open>Dates and days\<close>

definition year_days :: "int \<Rightarrow> int" where
  "year_days y = (y - 1) * 365 + (y - 1) div 4 - (y - 1) div 100 + (y - 1) div 400"

definition year_length :: "int \<Rightarrow> int" where
  "year_length y = (if leap_year y then 366 else 365)"

lemma div_step: "0 < (k :: int) \<Longrightarrow> y div k = (y - 1) div k + (if y mod k = 0 then 1 else 0)"
proof -
  assume k: "0 < k"
  have y: "y = k * (y div k) + y mod k" "0 \<le> y mod k" "y mod k < k" using k by simp_all
  show ?thesis
  proof (cases "y mod k = 0")
    case True
    have "(y - 1) div k = y div k - 1"
      using y True by (intro int_div_pos_eq [of _ _ _ "k - 1"]) (simp_all add: right_diff_distrib)
    with True show ?thesis by simp
  next
    case False
    have "(y - 1) div k = y div k"
      using y False by (intro int_div_pos_eq [of _ _ _ "y mod k - 1"]) simp_all
    with False show ?thesis by simp
  qed
qed

lemma leap_year_terms:
  assumes "c \<longrightarrow> b" "b \<longrightarrow> a"
  shows "(if a \<and> (\<not> b \<or> c) then 366 else 365 :: int) =
       365 + (if a then 1 else 0) - (if b then 1 else 0) + (if c then 1 else 0)"
  using assms by (cases a; cases b; cases c) simp_all

text \<open>The days before a year are those of all years before it.\<close>

lemma year_days_step: "year_days (y + 1) = year_days y + year_length y" "year_days 1 = 0"
proof -
  show "year_days 1 = 0" by (simp add: year_days_def)
  have "year_length y = 365 + (if y mod 4 = 0 then 1 else 0) - (if y mod 100 = 0 then 1 else 0)
      + (if y mod 400 = 0 then 1 else 0)"
    unfolding year_length_def leap_year_def
    by (rule leap_year_terms) (auto simp: mod_eq_0_iff_dvd intro: dvd_trans)
  moreover have "year_days (y + 1) = y * 365 + y div 4 - y div 100 + y div 400"
    by (simp add: year_days_def)
  ultimately show "year_days (y + 1) = year_days y + year_length y"
    unfolding year_days_def [of y] div_step [of 4 y, simplified] div_step [of 100 y, simplified]
      div_step [of 400 y, simplified] by (simp only: int_distrib mult_1 add_diff_eq diff_add_eq add_ac)
qed

definition date_days :: "date \<Rightarrow> int" where
  "date_days d =
     year_days (dt_year d) + sum_list (take (dt_month d - 1) (month_lengths (dt_year d))) + dt_day d - 1"

definition valid_date :: "date \<Rightarrow> bool" where
  "valid_date d \<longleftrightarrow>
     1 \<le> dt_month d \<and> dt_month d \<le> 12 \<and> 1 \<le> dt_day d \<and> dt_day d \<le> month_lengths (dt_year d) ! (dt_month d - 1)"

text \<open>A period of four parts of which the last may be longer by one.\<close>

lemma quarter_facts:
  assumes "0 \<le> (r :: int)" "r \<le> 4 * k" "0 < k" "n = min 3 (r div k)"
  shows "0 \<le> n" "n \<le> 3" "0 \<le> r - k * n" "n < 3 \<Longrightarrow> r - k * n < k" "r - k * n \<le> k"
proof -
  define q where "q = r div k"
  have q: "k * q \<le> r" "r < k * q + k"
    using mult_div_mod_eq [of k r] pos_mod_bound [OF assms(3), of r] pos_mod_sign [OF assms(3), of r]
    unfolding q_def by linarith+
  have nonneg: "0 \<le> q" using assms(1,3) by (simp add: q_def pos_imp_zdiv_nonneg_iff)
  show "0 \<le> n" "n \<le> 3" using nonneg assms(4) by (auto simp: q_def)
  have "0 \<le> r - k * n \<and> (n < 3 \<longrightarrow> r - k * n < k) \<and> r - k * n \<le> k"
  proof (cases "q \<le> 3")
    case True
    with q assms(4) show ?thesis by (simp add: q_def)
  next
    case False
    then have "k * 4 \<le> k * q" using assms(3) by (intro mult_left_mono) simp_all
    moreover have "n = 3" using False assms(4) by (simp add: q_def)
    ultimately show ?thesis using q assms(2,3) by (simp only:) linarith
  qed
  then show "0 \<le> r - k * n" "n < 3 \<Longrightarrow> r - k * n < k" "r - k * n \<le> k" by simp_all
qed

lemma leap_year_last:
  assumes "y = 400 * a + 100 * b + 4 * c + (4 :: int)" "0 \<le> c" "c \<le> 24" "c = 24 \<longrightarrow> b = 3"
  shows "leap_year y"
proof (cases "c = 24")
  case True
  with assms have "y = 400 * (a + 1)" by simp
  then show ?thesis by (simp add: leap_year_def mod_mult_right_eq)
next
  case False
  have "y = 4 * (100 * a + 25 * b + c + 1)" using assms by simp
  moreover have "y mod 100 = 4 * c + 4"
    by (rule int_mod_pos_eq [of _ _ "4 * a + b"]) (use assms False in simp_all)
  ultimately show ?thesis using assms(2) by (simp add: leap_year_def)
qed

lemma year_day_days:
  assumes "year_day n = (y, d)"
  shows "year_days y + d = n \<and> 0 \<le> d \<and> d < year_length y"
proof -
  define n400 where "n400 = n div 146097"
  define r400 where "r400 = n mod 146097"
  define n100 where "n100 = min 3 (r400 div 36524)"
  define r100 where "r100 = r400 - 36524 * n100"
  define n4 where "n4 = r100 div 1461"
  define r4 where "r4 = r100 mod 1461"
  define n1 where "n1 = min 3 (r4 div 365)"
  have "(400 * n400 + 100 * n100 + 4 * n4 + n1 + 1, r4 - 365 * n1) = (y, d)"
    unfolding assms [symmetric] year_day_def Let_def n400_def n1_def n4_def r4_def r100_def n100_def r400_def by (rule refl)
  then have y: "y = 400 * n400 + 100 * n100 + 4 * n4 + n1 + 1" "d = r4 - 365 * n1"
    by (simp_all only: prod.inject)
  have n: "n = 146097 * n400 + r400" "0 \<le> r400" "r400 \<le> 4 * 36524"
    using pos_mod_bound [of 146097 n] unfolding n400_def r400_def by (simp_all del: pos_mod_bound)
  note c = quarter_facts [OF n(2,3) zero_less_numeral n100_def, folded r100_def]
  have n4: "r100 = 1461 * n4 + r4" "0 \<le> r4" "r4 \<le> 4 * 365"
    using pos_mod_bound [of 1461 r100] unfolding n4_def r4_def by (simp_all del: pos_mod_bound)
  have n4_range: "0 \<le> n4" "n4 \<le> 24"
    using c(3,5) n4 by linarith+
  note q = quarter_facts [OF n4(2,3) zero_less_numeral n1_def]
  have "y - 1 = 400 * n400 + (100 * n100 + 4 * n4 + n1)" "y - 1 = 100 * (4 * n400 + n100) + (4 * n4 + n1)"
    "y - 1 = 4 * (100 * n400 + 25 * n100 + n4) + n1"
    using y(1) by simp_all
  then have "(y - 1) div 400 = n400" "(y - 1) div 100 = 4 * n400 + n100" "(y - 1) div 4 = 100 * n400 + 25 * n100 + n4"
    using c(1,2) q(1,2) n4_range by (auto intro: int_div_pos_eq)
  then have "year_days y + d = n"
    using y n(1) n4(1) r100_def by (simp add: year_days_def)
  moreover have "d < year_length y"
  proof (cases "d < 365")
    case True
    then show ?thesis by (simp add: year_length_def)
  next
    case False
    then have last: "n1 = 3" "r4 = 1460" using q n4 y(2) by linarith+
    have "n4 = 24 \<longrightarrow> n100 = 3" using c(2,4) n4(1) last(2) by linarith
    then have "leap_year y"
      using y(1) last(1) n4_range by (intro leap_year_last [of y n400 n100 n4]) simp_all
    with q(5) y(2) show ?thesis by (simp add: year_length_def)
  qed
  ultimately show ?thesis using y(2) q(3) by simp
qed

lemma month_day_facts:
  assumes "month_day ls m d = (m', day)" "0 \<le> d" "d < sum_list ls"
  shows "m \<le> m' \<and> m' < m + length ls \<and> 1 \<le> day \<and> day \<le> ls ! (m' - m) \<and>
    sum_list (take (m' - m) ls) + day - 1 = d"
  using assms
proof (induction ls m d rule: month_day.induct)
  case (2 l ls m d)
  show ?case
  proof (cases "d < l")
    case False
    then have "Suc m \<le> m' \<and> m' < Suc m + length ls \<and> 1 \<le> day \<and> day \<le> ls ! (m' - Suc m) \<and>
        sum_list (take (m' - Suc m) ls) + day - 1 = d - l"
      using 2 by (intro "2.IH") simp_all
    moreover from this have "Suc m \<le> m'" by blast
    then have "m' - m = Suc (m' - Suc m)" by simp
    ultimately show ?thesis by simp
  qed (use 2 in auto)
qed simp

text \<open>The date of a day is a date of the calendar, and the day is the number of days before it.\<close>

lemma date_of_days_correct: "valid_date (date_of_days n) \<and> date_days (date_of_days n) = n"
proof -
  obtain y d where yd: "year_day n = (y, d)" by fastforce
  obtain m day where md: "month_day (month_lengths y) 1 d = (m, day)" by fastforce
  note day = year_day_days [OF yd]
  have "sum_list (month_lengths y) = year_length y" "length (month_lengths y) = 12"
    by (simp_all add: month_lengths_def year_length_def)
  moreover have "date_of_days n = \<lparr>dt_year = y, dt_month = m, dt_day = day\<rparr>"
    unfolding date_of_days_def yd by (simp only: Let_def prod.case md)
  ultimately show ?thesis
    using month_day_facts [OF md] day by (simp add: valid_date_def date_days_def)
qed

lemma month_length_le: "i < 12 \<Longrightarrow> month_lengths y ! i \<le> 31"
proof -
  assume "i < 12"
  then have "month_lengths y ! i \<in> set (month_lengths y)" by (intro nth_mem) (simp add: month_lengths_def)
  then show ?thesis by (auto simp: month_lengths_def split: if_splits)
qed

section \<open>Reading an instant\<close>

text \<open>What the text of an instant says: its fields at their places.\<close>

definition read_number :: "nat \<Rightarrow> nat \<Rightarrow> bytes \<Rightarrow> int" where
  "read_number i k s = (case parse_digits 0 (take k (drop i s)) of None \<Rightarrow> 0 | Some n \<Rightarrow> int n)"

definition read_fraction :: "nat \<Rightarrow> bytes \<Rightarrow> int" where
  "read_fraction k s =
     (let ds = takeWhile is_digit (tl s)
      in if has_prefix s ''.'' then read_number 0 (length ds) ds * 10 ^ (k - length ds) else 0)"

definition read_rfc3339 :: "bytes \<Rightarrow> time" where
  "read_rfc3339 s =
     date_days \<lparr>dt_year = read_number 0 4 s, dt_month = nat (read_number 5 2 s), dt_day = read_number 8 2 s\<rparr> * day_length
       + seconds (read_number 11 2 s * 3600 + read_number 14 2 s * 60 + read_number 17 2 s) + read_fraction 9 (drop 19 s)"

lemma length_padded [simp]: "length (padded k n) = k"
  by (induction k n rule: padded.induct) simp_all

lemma parse_padded: "parse_digits 0 (padded k n) = Some (n mod 10 ^ k)"
proof (induction k n rule: padded.induct)
  case (2 k n)
  have "n mod 10 ^ Suc k = 10 * (n div 10 mod 10 ^ k) + n mod 10" by (simp add: mod_mult2_eq)
  with 2 show ?case by (simp add: parse_digits_append)
qed simp

lemma padded_digits: "list_all is_digit (padded k n)"
  by (induction k n rule: padded.induct) (simp_all add: is_digit_def)

lemma parse_zeros: "parse_digits a (replicate j CHR ''0'') = Some (a * 10 ^ j)"
  by (induction j arbitrary: a) (simp_all add: digit_value_def)

text \<open>The digits of a fraction, and the zeros that were left out.\<close>

lemma fraction_text_digits:
  assumes "n < 10 ^ k" "n \<noteq> 0"
  obtains q j v where "fraction_text k n = CHR ''.'' # q" "list_all is_digit q" "q \<noteq> []" "length q + j = k"
    "parse_digits 0 q = Some v" "v * 10 ^ j = n"
proof -
  let ?zero = "\<lambda>c. c = CHR ''0''"
  define q where "q = rev (dropWhile ?zero (rev (padded k n)))"
  define j where "j = length (takeWhile ?zero (rev (padded k n)))"
  have zeros: "takeWhile ?zero (rev (padded k n)) = replicate j CHR ''0''"
    unfolding j_def by (rule replicate_length_same [symmetric]) (auto dest: set_takeWhileD)
  have split: "padded k n = q @ replicate j CHR ''0''"
    using takeWhile_dropWhile_id [of ?zero "rev (padded k n)"] unfolding zeros q_def
    by (metis rev_append rev_replicate rev_rev_ident)
  obtain v where v: "parse_digits 0 q = Some v" "v * 10 ^ j = n"
    using parse_padded [of k n] assms(1) by (auto simp: split parse_digits_append parse_zeros split: option.splits)
  show thesis
  proof
    show "fraction_text k n = CHR ''.'' # q" using assms(2) by (simp add: fraction_text_def q_def)
    show "list_all is_digit q" using padded_digits [of k n] by (simp add: split)
    show "q \<noteq> []" using v assms(2) by auto
    show "length q + j = k" using length_padded [of k n] by (simp add: split)
  qed (fact v)+
qed

lemma takeWhile_digits:
  "list_all is_digit q \<Longrightarrow> post = [] \<or> \<not> is_digit (hd post) \<Longrightarrow> takeWhile is_digit (q @ post) = q"
  by (induction q) (cases post; simp)+

lemma read_fraction_text:
  assumes "n < 10 ^ k" "post = [] \<or> \<not> is_digit (hd post) \<and> \<not> has_prefix post ''.''"
  shows "read_fraction k (fraction_text k n @ post) = int n"
proof (cases "n = 0")
  case True
  then show ?thesis using assms(2) by (auto simp: read_fraction_def fraction_text_def has_prefix_iff)
next
  case False
  from fraction_text_digits [OF assms(1) False] obtain q j v where q: "fraction_text k n = CHR ''.'' # q"
    "list_all is_digit q" "length q + j = k" "parse_digits 0 q = Some v" "v * 10 ^ j = n" .
  have "takeWhile is_digit (q @ post) = q" using q(2) assms(2) by (intro takeWhile_digits) auto
  moreover have "k - length q = j" using q(3) by simp
  ultimately have "read_fraction k (CHR ''.'' # q @ post) = int v * 10 ^ j"
    using q(4) by (simp add: read_fraction_def has_prefix_iff read_number_def)
  also have "\<dots> = int n" by (simp only: q(5) [symmetric] of_nat_mult of_nat_power of_nat_numeral)
  finally show ?thesis by (simp add: q(1))
qed

lemma read_number_at:
  assumes "length pre = i" "n < 10 ^ k"
  shows "read_number i k (pre @ padded k n @ post) = int n"
  using assms parse_padded [of k n] by (simp add: read_number_def)

lemma clock_parts:
  assumes "0 \<le> (s :: int)" "s < 86400"
  shows "nat (s div 3600) < 10 ^ 2" "nat (s div 60 mod 60) < 10 ^ 2" "nat (s mod 60) < 10 ^ 2"
    "int (nat (s div 3600)) * 3600 + int (nat (s div 60 mod 60)) * 60 + int (nat (s mod 60)) = s"
proof -
  have "s div 60 div 60 = s div 3600" using zdiv_zmult2_eq [of 60 s 60] by simp
  then have "s div 3600 * 3600 + s div 60 mod 60 * 60 + s mod 60 = s"
    using div_mult_mod_eq [of "s div 60" 60] mult_div_mod_eq [of 60 s] by (simp only: algebra_simps)
  moreover have "0 \<le> s div 3600" "0 \<le> s div 60 mod 60" "0 \<le> s mod 60" using assms(1) by simp_all
  ultimately show "int (nat (s div 3600)) * 3600 + int (nat (s div 60 mod 60)) * 60 + int (nat (s mod 60)) = s"
    by (simp only: nat_0_le)
  have "s div 3600 < 24" using assms(2) by (simp add: div_less_iff_less_mult)
  then show "nat (s div 3600) < 10 ^ 2" by simp
  have "s div 60 mod 60 < 60" "s mod 60 < 60" by simp_all
  then show "nat (s div 60 mod 60) < 10 ^ 2" "nat (s mod 60) < 10 ^ 2" by simp_all
qed

theorem read_rfc3339_nano:
  assumes "rfc3339_nano t = Some s"
  shows "read_rfc3339 s = t"
proof -
  define d where "d = date_of_days (t div day_length)"
  define clock where "clock = t mod day_length"
  define k where "k = clock div 1000000000"
  define f where "f = clock mod 1000000000"
  have year: "0 \<le> dt_year d" "dt_year d \<le> 9999" and s: "s = padded 4 (nat (dt_year d)) @ ''-'' @ padded 2 (dt_month d)
      @ ''-'' @ padded 2 (nat (dt_day d)) @ ''T'' @ padded 2 (nat (k div 3600)) @ '':'' @ padded 2 (nat (k div 60 mod 60))
      @ '':'' @ padded 2 (nat (k mod 60)) @ fraction_text 9 (nat f) @ ''Z''"
    using assms by (auto simp: rfc3339_nano_def Let_def d_def clock_def k_def f_def split: if_splits)
  have pos: "0 < day_length" by (simp add: day_length_def seconds_def)
  have clock: "0 \<le> clock" "clock < 86400 * 1000000000"
    using pos_mod_sign [OF pos, of t] pos_mod_bound [OF pos, of t]
    unfolding clock_def day_length_def seconds_def by simp_all
  then have k: "0 \<le> k" "k < 86400" by (simp_all add: k_def div_less_iff_less_mult)
  note date = date_of_days_correct [of "t div day_length", folded d_def]
  then have month: "1 \<le> dt_month d" "dt_month d \<le> 12" "1 \<le> dt_day d" "dt_day d \<le> 31"
    using month_length_le [of "dt_month d - 1" "dt_year d"] unfolding valid_date_def by linarith+
  let ?p = "\<lambda>w n. padded w n"
  have "read_number 0 4 s = dt_year d"
    unfolding s using year by (subst read_number_at [of "[]", simplified]) simp_all
  moreover have "read_number 5 2 s = int (dt_month d)"
    using month read_number_at [of "?p 4 (nat (dt_year d)) @ ''-''" 5] by (simp add: s)
  moreover have "read_number 8 2 s = dt_day d"
    using month read_number_at [of "?p 4 (nat (dt_year d)) @ ''-'' @ ?p 2 (dt_month d) @ ''-''" 8] by (simp add: s)
  moreover have "read_number 11 2 s = int (nat (k div 3600))"
    using clock_parts(1) [OF k] read_number_at [of "?p 4 (nat (dt_year d)) @ ''-'' @ ?p 2 (dt_month d) @ ''-'' @ ?p 2 (nat (dt_day d)) @ ''T''" 11]
    by (simp add: s)
  moreover have "read_number 14 2 s = int (nat (k div 60 mod 60))"
    using clock_parts(2) [OF k] read_number_at [of "?p 4 (nat (dt_year d)) @ ''-'' @ ?p 2 (dt_month d) @ ''-'' @ ?p 2 (nat (dt_day d))
      @ ''T'' @ ?p 2 (nat (k div 3600)) @ '':''" 14]
    by (simp add: s)
  moreover have "read_number 17 2 s = int (nat (k mod 60))"
    using clock_parts(3) [OF k] read_number_at [of "?p 4 (nat (dt_year d)) @ ''-'' @ ?p 2 (dt_month d) @ ''-'' @ ?p 2 (nat (dt_day d))
      @ ''T'' @ ?p 2 (nat (k div 3600)) @ '':'' @ ?p 2 (nat (k div 60 mod 60)) @ '':''" 17]
    by (simp add: s)
  moreover have "read_fraction 9 (drop 19 s) = f"
    using read_fraction_text [of "nat f" 9 "''Z''"] by (simp add: s f_def is_digit_def)
  moreover have same: "date_days \<lparr>dt_year = dt_year d, dt_month = dt_month d, dt_day = dt_day d\<rparr> = date_days d"
    by (simp add: date_days_def)
  ultimately have "read_rfc3339 s = date_days d * day_length + k * 1000000000 + f"
    using clock_parts(4) [OF k] by (simp add: read_rfc3339_def seconds_def same)
  also have "\<dots> = t div day_length * day_length + clock"
    using date div_mult_mod_eq [of clock 1000000000] by (simp add: k_def f_def)
  finally show ?thesis by (simp add: clock_def)
qed

end
