(* ===== verification/Json_State.thy ===== *)
theory Json_State
  imports Json_Print Go_Time Controller
begin

text \<open>
  What a client is sent: \<open>json.Marshal\<close> of the \<open>State\<close> of \<open>internal/sysfs/controller.go\<close>,
  with the names of the fields in their tags. A pointer that is nil and a slice that is nil are
  null. A temperature is the shortest decimal of its \<open>float64\<close>, which for a reading of fewer
  than sixteen digits is the exact quotient that the model keeps. Marshalling fails only for an
  instant outside of the years 0 to 9999.
\<close>

section \<open>Numbers\<close>

definition json_int :: "int \<Rightarrow> json" where
  "json_int v = JNumber (itoa v)"

text \<open>A number of thousandths.\<close>

definition degrees_text :: "rat \<Rightarrow> bytes" where
  "degrees_text t =
     (let m = \<lfloor>t * 1000\<rfloor>; n = nat \<bar>m\<bar>
      in (if m < 0 then ''-'' else []) @ nat_digits (n div 1000) @ fraction_text 3 (n mod 1000))"

definition json_degrees :: "rat \<Rightarrow> json" where
  "json_degrees t = JNumber (degrees_text t)"

definition json_option :: "('a \<Rightarrow> json) \<Rightarrow> 'a option \<Rightarrow> json" where
  "json_option f v = (case v of None \<Rightarrow> JNull | Some x \<Rightarrow> f x)"

section \<open>The state\<close>

definition json_capabilities :: "capabilities \<Rightarrow> json" where
  "json_capabilities c =
     JObject [(''fanControl'', JBool (cap_fan_control c)), (''fanTelemetry'', JBool (cap_fan_telemetry c)),
       (''thermalProfile'', JBool (cap_thermal_profile c)), (''batteryLimiter'', JBool (cap_battery_limiter c)),
       (''batteryCalibration'', JBool (cap_battery_calibration c)), (''backlightTimeout'', JBool (cap_backlight_timeout c)),
       (''lcdOverride'', JBool (cap_lcd_override c)), (''usbCharging'', JBool (cap_usb_charging c)),
       (''bootAnimationSound'', JBool (cap_boot_animation_sound c)), (''keyboardPerZone'', JBool (cap_keyboard_per_zone c)),
       (''keyboardEffects'', JBool (cap_keyboard_effects c)), (''cpuTemperature'', JBool (cap_cpu_temperature c)),
       (''gpuTemperature'', JBool (cap_gpu_temperature c))]"

definition json_profile_option :: "profile_option \<Rightarrow> json" where
  "json_profile_option p =
     JObject [(''value'', JString (opt_value p)), (''label'', JString (opt_label p)),
       (''description'', JString (opt_description p))]"

definition json_profile :: "profile_state \<Rightarrow> json" where
  "json_profile p =
     JObject [(''value'', JString (prof_value p)), (''label'', JString (prof_label p)),
       (''available'', json_option (\<lambda>opts. JArray (map json_profile_option opts)) (prof_available p))]"

definition json_fans :: "fan_state \<Rightarrow> json" where
  "json_fans f =
     JObject [(''mode'', JString (fans_mode f)), (''cpu'', json_int (fans_cpu f)), (''gpu'', json_int (fans_gpu f)),
       (''cpuRpm'', json_option json_int (fans_cpu_rpm f)), (''gpuRpm'', json_option json_int (fans_gpu_rpm f)),
       (''manualAllowed'', JBool (fans_manual_allowed f))]"

definition json_temperatures :: "temperature_state \<Rightarrow> json" where
  "json_temperatures t =
     JObject [(''cpu'', json_option json_degrees (temp_cpu t)), (''gpu'', json_option json_degrees (temp_gpu t))]"

definition json_settings :: "settings_state \<Rightarrow> json" where
  "json_settings s =
     JObject [(''batteryLimiter'', JBool (set_battery_limiter s)), (''batteryCalibration'', JBool (set_battery_calibration s)),
       (''backlightTimeout'', JBool (set_backlight_timeout s)), (''lcdOverride'', JBool (set_lcd_override s)),
       (''usbCharging'', json_int (set_usb_charging_level s)), (''bootAnimationSound'', JBool (set_boot_animation_sound s))]"

definition json_zone :: "zone_setting \<Rightarrow> json" where
  "json_zone z =
     JObject [(''zone1'', JString (zone1 z)), (''zone2'', JString (zone2 z)), (''zone3'', JString (zone3 z)),
       (''zone4'', JString (zone4 z)), (''brightness'', json_int (zone_brightness z))]"

definition json_effect :: "effect_setting \<Rightarrow> json" where
  "json_effect e =
     JObject [(''mode'', json_int (eff_mode e)), (''speed'', json_int (eff_speed e)),
       (''brightness'', json_int (eff_brightness e)), (''direction'', json_int (eff_direction e)),
       (''red'', json_int (eff_red e)), (''green'', json_int (eff_green e)), (''blue'', json_int (eff_blue e))]"

definition json_keyboard :: "keyboard_state \<Rightarrow> json" where
  "json_keyboard k =
     JObject [(''perZone'', json_option json_zone (kb_per_zone k)), (''effect'', json_option json_effect (kb_effect k))]"

text \<open>The slice of the degraded sections is nil until a section is appended to it.\<close>

definition json_degraded :: "bytes list \<Rightarrow> json" where
  "json_degraded d = (if d = [] then JNull else JArray (map JString d))"

definition json_state :: "hw_state \<Rightarrow> json option" where
  "json_state st =
     (case rfc3339_nano (st_timestamp st) of
        None \<Rightarrow> None
      | Some stamp \<Rightarrow>
          Some (JObject [(''timestamp'', JString stamp), (''powerSource'', JString (st_power_source st)),
            (''profile'', json_profile (st_profile st)), (''fans'', json_fans (st_fans st)),
            (''temperatures'', json_temperatures (st_temperatures st)), (''settings'', json_settings (st_settings st)),
            (''keyboard'', json_keyboard (st_keyboard st)), (''capabilities'', json_capabilities (st_capabilities st)),
            (''driverVersion'', JString (st_driver_version st)), (''degraded'', json_degraded (st_degraded st))]))"

definition marshal_state :: "hw_state \<Rightarrow> bytes option" where
  "marshal_state st = map_option json_text (json_state st)"

text \<open>The payload of a caller that ignores the error.\<close>

definition payload_of :: "hw_state \<Rightarrow> bytes" where
  "payload_of st = (case marshal_state st of None \<Rightarrow> [] | Some text \<Rightarrow> text)"

end
