(* ===== verification/Sha1.thy ===== *)
theory Sha1
  imports Sha256
begin

text \<open>
  SHA-1 (FIPS 180-4) over byte strings, as \<open>crypto/sha1\<close> computes it for the key of a WebSocket
  handshake. Padding, blocks and the conversions between bytes and words are those of SHA-256.
\<close>

record sha1_state =
  s1_a :: w32
  s1_b :: w32
  s1_c :: w32
  s1_d :: w32
  s1_e :: w32

definition rotl :: "nat \<Rightarrow> w32 \<Rightarrow> w32" where
  "rotl n w = rotr (32 - n) w"

definition sha1_init :: sha1_state where
  "sha1_init = \<lparr>s1_a = 1732584193, s1_b = 4023233417, s1_c = 2562383102, s1_d = 271733878, s1_e = 3285377520\<rparr>"

text \<open>The eighty words of a block, newest first while they are made.\<close>

fun sha1_extend :: "nat \<Rightarrow> w32 list \<Rightarrow> w32 list" where
  "sha1_extend 0 ws = ws"
| "sha1_extend (Suc n) ws =
     sha1_extend n (rotl 1 (ws ! 2 XOR ws ! 7 XOR ws ! 13 XOR ws ! 15) # ws)"

definition sha1_schedule :: "bytes \<Rightarrow> w32 list" where
  "sha1_schedule block = rev (sha1_extend 64 (rev (words_of_bytes block)))"

text \<open>The function and the constant of each group of twenty rounds.\<close>

datatype sha1_group = Choice | Parity | Majority | Parity_Again

definition sha1_groups :: "sha1_group list" where
  "sha1_groups = concat (map (replicate 20) [Choice, Parity, Majority, Parity_Again])"

fun sha1_mix :: "sha1_group \<Rightarrow> w32 \<Rightarrow> w32 \<Rightarrow> w32 \<Rightarrow> w32" where
  "sha1_mix Choice b c d = (b AND c) OR (NOT b AND d)"
| "sha1_mix Majority b c d = (b AND c) OR (b AND d) OR (c AND d)"
| "sha1_mix _ b c d = b XOR c XOR d"

fun sha1_constant :: "sha1_group \<Rightarrow> w32" where
  "sha1_constant Choice = 1518500249"
| "sha1_constant Parity = 1859775393"
| "sha1_constant Majority = 2400959708"
| "sha1_constant Parity_Again = 3395469782"

definition sha1_round :: "sha1_group \<times> w32 \<Rightarrow> sha1_state \<Rightarrow> sha1_state" where
  "sha1_round gw s =
     \<lparr>s1_a = rotl 5 (s1_a s) + sha1_mix (fst gw) (s1_b s) (s1_c s) (s1_d s) + s1_e s
        + sha1_constant (fst gw) + snd gw,
      s1_b = s1_a s, s1_c = rotl 30 (s1_b s), s1_d = s1_c s, s1_e = s1_d s\<rparr>"

definition sha1_block :: "bytes \<Rightarrow> sha1_state \<Rightarrow> sha1_state" where
  "sha1_block block s =
     (let t = fold sha1_round (zip sha1_groups (sha1_schedule block)) s
      in \<lparr>s1_a = s1_a s + s1_a t, s1_b = s1_b s + s1_b t, s1_c = s1_c s + s1_c t,
          s1_d = s1_d s + s1_d t, s1_e = s1_e s + s1_e t\<rparr>)"

definition sha1 :: "bytes \<Rightarrow> bytes" where
  "sha1 msg =
     (let padded = sha_pad msg;
          s = fold sha1_block (blocks_of (length padded div 64) padded) sha1_init
      in concat (map bytes_of_word [s1_a s, s1_b s, s1_c s, s1_d s, s1_e s]))"

lemma length_sha1 [simp]: "length (sha1 msg) = 20"
  by (simp add: sha1_def Let_def bytes_of_word_def)

end
