(* ===== verification/Go_Net.thy ===== *)
theory Go_Net
  imports Go_Numbers
begin

text \<open>
  The parts of Go's \<open>net\<close> and \<open>net/url\<close> (Go 1.23) that the program calls:
  \<open>net.SplitHostPort\<close>, and \<open>url.Parse\<close> as far as its error and the host it returns.
\<close>

section \<open>Cutting strings\<close>

definition before_char :: "char \<Rightarrow> bytes \<Rightarrow> bytes" where
  "before_char c s = takeWhile (\<lambda>x. x \<noteq> c) s"

definition after_char :: "char \<Rightarrow> bytes \<Rightarrow> bytes" where
  "after_char c s = drop 1 (dropWhile (\<lambda>x. x \<noteq> c) s)"

text \<open>The text before and after the last occurrence of a character, if there is one.\<close>

definition cut_last :: "char \<Rightarrow> bytes \<Rightarrow> (bytes \<times> bytes) option" where
  "cut_last c s =
     (if c \<in> set s
      then Some (rev (after_char c (rev s)), rev (before_char c (rev s)))
      else None)"

lemma before_after: "c \<in> set s \<Longrightarrow> s = before_char c s @ c # after_char c s"
  by (induction s) (auto simp: before_char_def after_char_def)

lemma before_char_no_sep [simp]: "c \<notin> set (before_char c s)"
  by (auto simp: before_char_def dest: set_takeWhileD)

lemma before_char_absent [simp]: "c \<notin> set s \<Longrightarrow> before_char c s = s"
  by (induction s) (auto simp: before_char_def)

lemma after_char_absent: "c \<notin> set s \<Longrightarrow> after_char c s = []"
  by (induction s) (auto simp: after_char_def)

lemma cut_last_Some:
  "cut_last c s = Some (a, b) \<Longrightarrow> s = a @ c # b \<and> c \<notin> set b"
proof -
  assume cut: "cut_last c s = Some (a, b)"
  then have "c \<in> set (rev s)" and ab: "a = rev (after_char c (rev s))" "b = rev (before_char c (rev s))"
    by (auto simp: cut_last_def split: if_splits)
  from before_after [OF this(1)] have "rev s = before_char c (rev s) @ c # after_char c (rev s)" .
  then have "s = rev (before_char c (rev s) @ c # after_char c (rev s))" by (metis rev_rev_ident)
  then show ?thesis using ab by simp
qed

section \<open>\<open>net.SplitHostPort\<close>\<close>

definition split_host_port :: "bytes \<Rightarrow> (bytes \<times> bytes) option" where
  "split_host_port hostport =
     (case cut_last CHR '':'' hostport of
        None \<Rightarrow> None
      | Some (front, port) \<Rightarrow>
          if has_prefix hostport ''['' then
            (if CHR '']'' \<notin> set hostport then None
             else
               let host = before_char CHR '']'' (tl hostport); rest = after_char CHR '']'' hostport
               in if rest = CHR '':'' # port \<and> CHR ''['' \<notin> set (tl hostport) \<and> CHR '']'' \<notin> set rest
                  then Some (host, port) else None)
          else if CHR '':'' \<in> set front then None
          else if CHR ''['' \<in> set hostport \<or> CHR '']'' \<in> set hostport then None
          else Some (front, port))"

section \<open>\<open>url.Parse\<close>\<close>

text \<open>\<open>shouldEscape\<close> for the two host modes, which agree.\<close>

definition host_char :: "char \<Rightarrow> bool" where
  "host_char c \<longleftrightarrow> is_alpha c \<or> is_digit c \<or>
     c \<in> {CHR ''!'', CHR ''$'', CHR ''&'', CHR 0x27, CHR ''('', CHR '')'', CHR ''*'', CHR ''+'', CHR '','',
          CHR '';'', CHR ''='', CHR '':'', CHR ''['', CHR '']'', CHR ''<'', CHR ''>'', CHR 0x22,
          CHR ''-'', CHR ''_'', CHR ''.'', CHR ''~''}"

datatype escape_mode = Host_Mode | Zone_Mode | Other_Mode

text \<open>\<open>%25\<close> is always admitted; another escape depends on the byte it stands for.\<close>

definition escape_admitted :: "escape_mode \<Rightarrow> char \<Rightarrow> char \<Rightarrow> bool" where
  "escape_admitted mode h l \<longleftrightarrow>
     (h = CHR ''2'' \<and> l = CHR ''5'') \<or>
     (case mode of
        Host_Mode \<Rightarrow> 8 \<le> unhex h
      | Zone_Mode \<Rightarrow> unhex h * 16 + unhex l = 32 \<or> host_char (char_of (unhex h * 16 + unhex l))
      | Other_Mode \<Rightarrow> True)"

fun unescape :: "escape_mode \<Rightarrow> bytes \<Rightarrow> bytes option" where
  "unescape mode [] = Some []"
| "unescape mode (c # s) =
     (if c = CHR ''%'' then
        (case s of
           h # l # rest \<Rightarrow>
             if is_hex h \<and> is_hex l \<and> escape_admitted mode h l
             then map_option (\<lambda>t. char_of (unhex h * 16 + unhex l) # t) (unescape mode rest)
             else None
         | _ \<Rightarrow> None)
      else if mode \<noteq> Other_Mode \<and> byte_of c < 128 \<and> \<not> host_char c then None
      else map_option (\<lambda>t. c # t) (unescape mode s))"

definition valid_optional_port :: "bytes \<Rightarrow> bool" where
  "valid_optional_port s \<longleftrightarrow> s = [] \<or> (hd s = CHR '':'' \<and> list_all is_digit (tl s))"

text \<open>The text from the first occurrence of \<open>%25\<close> on splits a bracketed host into address and zone.\<close>

fun cut_zone :: "bytes \<Rightarrow> (bytes \<times> bytes) option" where
  "cut_zone [] = None"
| "cut_zone (c # s) =
     (if has_prefix (c # s) ''%25'' then Some ([], c # s)
      else map_option (\<lambda>(a, b). (c # a, b)) (cut_zone s))"

definition parse_host :: "bytes \<Rightarrow> bytes option" where
  "parse_host host =
     (if has_prefix host ''['' then
        (case cut_last CHR '']'' host of
           None \<Rightarrow> None
         | Some (inside, port) \<Rightarrow>
             if \<not> valid_optional_port port then None
             else (case cut_zone inside of
                 Some (address, zone) \<Rightarrow>
                   (case (unescape Host_Mode address, unescape Zone_Mode zone,
                          unescape Host_Mode (CHR '']'' # port)) of
                      (Some h1, Some h2, Some h3) \<Rightarrow> Some (h1 @ h2 @ h3)
                    | _ \<Rightarrow> None)
               | None \<Rightarrow> unescape Host_Mode host))
      else
        (case cut_last CHR '':'' host of
           Some (_, port) \<Rightarrow> if valid_optional_port (CHR '':'' # port) then unescape Host_Mode host else None
         | None \<Rightarrow> unescape Host_Mode host))"

definition userinfo_char :: "char \<Rightarrow> bool" where
  "userinfo_char c \<longleftrightarrow> is_alpha c \<or> is_digit c \<or>
     c \<in> {CHR ''-'', CHR ''.'', CHR ''_'', CHR '':'', CHR ''~'', CHR ''!'', CHR ''$'', CHR ''&'', CHR 0x27,
          CHR ''('', CHR '')'', CHR ''*'', CHR ''+'', CHR '','', CHR '';'', CHR ''='', CHR ''%'', CHR ''@''}"

definition parse_authority :: "bytes \<Rightarrow> bytes option" where
  "parse_authority authority =
     (case cut_last CHR ''@'' authority of
        None \<Rightarrow> parse_host authority
      | Some (userinfo, host) \<Rightarrow>
          (case parse_host host of
             None \<Rightarrow> None
           | Some h \<Rightarrow>
               if list_all userinfo_char userinfo
                 \<and> unescape Other_Mode (before_char CHR '':'' userinfo) \<noteq> None
                 \<and> unescape Other_Mode (after_char CHR '':'' userinfo) \<noteq> None
               then Some h else None))"

text \<open>The scheme and what follows it; \<open>None\<close> is the error of a leading colon.\<close>

definition get_scheme :: "bytes \<Rightarrow> (bytes \<times> bytes) option" where
  "get_scheme raw =
     (let run = takeWhile (\<lambda>c. is_alpha c \<or> is_digit c \<or> c \<in> {CHR ''+'', CHR ''-'', CHR ''.''}) raw;
          rest = drop (length run) raw
      in if run = [] then (if has_prefix raw '':'' then None else Some ([], raw))
         else if \<not> is_alpha (hd run) then Some ([], raw)
         else if has_prefix rest '':'' then Some (run, tl rest)
         else Some ([], raw))"

definition strip_query :: "bytes \<Rightarrow> bytes" where
  "strip_query rest = before_char CHR ''?'' rest"

text \<open>The host of a URL without its fragment; the empty host is a URL that has none.\<close>

definition parse_url :: "bytes \<Rightarrow> bytes option" where
  "parse_url raw =
     (if \<exists>c\<in>set raw. byte_of c < 32 \<or> byte_of c = 127 then None
      else if raw = ''*'' then Some []
      else case get_scheme raw of
        None \<Rightarrow> None
      | Some (scheme, rest0) \<Rightarrow>
          (let rest = strip_query rest0
           in if \<not> has_prefix rest ''/'' \<and> scheme \<noteq> [] then Some []
              else if \<not> has_prefix rest ''/'' \<and> CHR '':'' \<in> set (before_char CHR ''/'' rest) then None
              else if (scheme \<noteq> [] \<or> \<not> has_prefix rest ''///'') \<and> has_prefix rest ''//'' then
                (let authority = before_char CHR ''/'' (drop 2 rest);
                     path = drop (length authority) (drop 2 rest)
                 in case parse_authority authority of
                      None \<Rightarrow> None
                    | Some host \<Rightarrow> if unescape Other_Mode path = None then None else Some host)
              else if unescape Other_Mode rest = None then None
              else Some []))"

definition url_host :: "bytes \<Rightarrow> bytes option" where
  "url_host raw =
     (case parse_url (before_char CHR ''#'' raw) of
        None \<Rightarrow> None
      | Some host \<Rightarrow> if unescape Other_Mode (after_char CHR ''#'' raw) = None then None else Some host)"

section \<open>An origin as browsers send it\<close>

definition name_char :: "char \<Rightarrow> bool" where
  "name_char c \<longleftrightarrow> is_alpha c \<or> is_digit c \<or> c = CHR ''-'' \<or> c = CHR ''.''"

lemma not_name_char:
  "\<not> name_char CHR '':''" "\<not> name_char CHR ''/''" "\<not> name_char CHR ''@''" "\<not> name_char CHR ''['' "
  "\<not> name_char CHR ''%''" "\<not> name_char CHR ''#''" "\<not> name_char CHR ''?''"
  by (simp_all add: name_char_def is_alpha_def is_digit_def)

lemma name_char_facts:
  assumes "name_char c"
  shows "host_char c" "c \<noteq> CHR '':''" "c \<noteq> CHR ''/''" "c \<noteq> CHR ''@''" "c \<noteq> CHR ''['' " "c \<noteq> CHR ''%''"
    "c \<noteq> CHR ''#''" "c \<noteq> CHR ''?''" "32 \<le> byte_of c" "byte_of c \<noteq> 127"
proof -
  show "host_char c" using assms unfolding name_char_def host_char_def by blast
  show "32 \<le> byte_of c" "byte_of c \<noteq> 127"
    using assms by (auto simp: name_char_def is_alpha_def is_digit_def)
qed (use assms not_name_char in auto)

lemma unescape_host_chars:
  "list_all (\<lambda>c. host_char c \<and> c \<noteq> CHR ''%'') s \<Longrightarrow> unescape mode s = Some s"
  by (induction s) auto

text \<open>A host is a name, with a port or without.\<close>

definition plain_host :: "bytes \<Rightarrow> bytes \<Rightarrow> bytes \<Rightarrow> bool" where
  "plain_host host name port \<longleftrightarrow>
     name \<noteq> [] \<and> list_all name_char name \<and>
     (host = name \<and> port = [] \<or> host = name @ CHR '':'' # port \<and> list_all is_digit port)"

lemma digit_name_char: "is_digit c \<Longrightarrow> name_char c"
  by (simp add: name_char_def)

lemma plain_host_chars:
  assumes "plain_host host name port" "c \<in> set host"
  shows "host_char c" "c \<noteq> CHR ''/''" "c \<noteq> CHR ''@''" "c \<noteq> CHR ''%''" "c \<noteq> CHR ''#''" "c \<noteq> CHR ''?''"
    "c \<noteq> CHR ''['' " "32 \<le> byte_of c" "byte_of c \<noteq> 127"
proof -
  have "name_char c \<or> c = CHR '':''"
    using assms by (auto simp: plain_host_def list_all_iff digit_name_char)
  then have "host_char c \<and> c \<noteq> CHR ''/'' \<and> c \<noteq> CHR ''@'' \<and> c \<noteq> CHR ''%'' \<and> c \<noteq> CHR ''#'' \<and> c \<noteq> CHR ''?'' \<and>
      c \<noteq> CHR ''['' \<and> 32 \<le> byte_of c \<and> byte_of c \<noteq> 127"
  proof
    assume "name_char c"
    from name_char_facts [OF this] show ?thesis by blast
  qed (simp add: host_char_def)
  then show "host_char c" "c \<noteq> CHR ''/''" "c \<noteq> CHR ''@''" "c \<noteq> CHR ''%''" "c \<noteq> CHR ''#''" "c \<noteq> CHR ''?''"
    "c \<noteq> CHR ''['' " "32 \<le> byte_of c" "byte_of c \<noteq> 127" by blast+
qed

lemma cut_last_unique: "c \<notin> set b \<Longrightarrow> cut_last c (a @ c # b) = Some (a, b)"
proof -
  assume "c \<notin> set b"
  then have "c \<notin> set (rev b)" by simp
  then have "takeWhile (\<lambda>x. x \<noteq> c) (rev b @ c # rev a) = rev b"
    "dropWhile (\<lambda>x. x \<noteq> c) (rev b @ c # rev a) = c # rev a"
    by (induction "rev b") (auto simp: takeWhile_append dropWhile_append)
  then show ?thesis by (simp add: cut_last_def before_char_def after_char_def)
qed

lemma parse_host_plain:
  assumes "plain_host host name port" shows "parse_host host = Some host"
proof -
  have un: "unescape Host_Mode host = Some host"
    using plain_host_chars [OF assms] by (intro unescape_host_chars) (auto simp: list_all_iff)
  have no: "\<not> has_prefix host ''['' "
    using plain_host_chars(7) [OF assms] by (cases host) auto
  show ?thesis
  proof (cases "CHR '':'' \<in> set host")
    case False
    then show ?thesis using un no by (simp add: parse_host_def cut_last_def)
  next
    case True
    then have h: "host = name @ CHR '':'' # port" "list_all is_digit port" "list_all name_char name"
      using assms name_char_facts(2) by (auto simp: plain_host_def list_all_iff)
    then have "CHR '':'' \<notin> set port" by (auto simp: list_all_iff is_digit_def)
    then have "cut_last CHR '':'' host = Some (name, port)" unfolding h(1) by (rule cut_last_unique)
    then show ?thesis using un no h(2) by (simp add: parse_host_def valid_optional_port_def)
  qed
qed

lemma url_host_origin:
  assumes "plain_host host name port" "scheme \<in> {''http'', ''https''}"
  shows "url_host (scheme @ ''://'' @ host) = Some host"
proof -
  let ?raw = "scheme @ ''://'' @ host"
  note chars = plain_host_chars [OF assms(1)]
  have hash: "CHR ''#'' \<notin> set ?raw" and query: "CHR ''?'' \<notin> set (''//'' @ host)"
    and slash: "CHR ''/'' \<notin> set host" and at: "CHR ''@'' \<notin> set host"
    using assms(2) chars(2,3,5,6) by (auto dest: chars(2,3,5,6))
  have ctl: "\<not> (\<exists>c\<in>set ?raw. byte_of c < 32 \<or> byte_of c = 127)"
    using assms(2) chars(8,9) by fastforce
  have sch: "get_scheme ?raw = Some (scheme, ''//'' @ host)"
    using assms(2) by (auto simp: get_scheme_def is_alpha_def is_digit_def)
  have "parse_authority host = Some host"
    using at parse_host_plain [OF assms(1)] by (simp add: parse_authority_def cut_last_def)
  then have "parse_url ?raw = Some host"
    using ctl sch slash query assms(2)
    by (auto simp: parse_url_def strip_query_def before_char_absent [OF query] before_char_absent [OF slash])
  moreover have "after_char CHR ''#'' ?raw = []"
    using hash by (rule after_char_absent)
  ultimately show ?thesis using hash by (simp add: url_host_def)
qed

end
