(* ===== verification/Go_Http.thy ===== *)
theory Go_Http
  imports Go_Net Go_Path
begin

text \<open>
  The parts of Go's \<open>net/http\<close> (Go 1.23) that the server calls: requests and their headers, the
  reading of cookies, and the choice of a handler by \<open>ServeMux\<close>. A request is what the
  \<open>net/http\<close> server hands to a handler: header names are canonical, the path is given decoded and
  as it was escaped, and the host has left the headers.
\<close>

section \<open>Requests\<close>

record http_request =
  rq_method :: bytes
  rq_path :: bytes
  rq_escaped :: bytes
  rq_host :: bytes
  rq_remote :: bytes
  rq_headers :: "(bytes \<times> bytes) list"
  rq_body :: bytes

text \<open>All values of a header in order, and the first one or nothing.\<close>

definition header_list :: "http_request \<Rightarrow> bytes \<Rightarrow> bytes list" where
  "header_list r name = map snd (filter (\<lambda>h. fst h = name) (rq_headers r))"

definition header_get :: "http_request \<Rightarrow> bytes \<Rightarrow> bytes" where
  "header_get r name = (case header_list r name of [] \<Rightarrow> [] | v # _ \<Rightarrow> v)"

section \<open>Cookies\<close>

definition http_space :: "char \<Rightarrow> bool" where
  "http_space c \<longleftrightarrow> c \<in> {CHR '' '', CHR 0x09, CHR 0x0A, CHR 0x0D}"

definition trim_http :: "bytes \<Rightarrow> bytes" where
  "trim_http s = rev (dropWhile http_space (rev (dropWhile http_space s)))"

definition cookie_byte :: "char \<Rightarrow> bool" where
  "cookie_byte c \<longleftrightarrow> 32 \<le> byte_of c \<and> byte_of c < 127 \<and> c \<notin> {CHR 0x22, CHR '';'', CHR 0x5C}"

definition unquote_cookie :: "bytes \<Rightarrow> bytes" where
  "unquote_cookie v =
     (if 1 < length v \<and> hd v = CHR 0x22 \<and> List.last v = CHR 0x22 then butlast (tl v) else v)"

text \<open>
  One part of a cookie header as the value of the cookie with the given name. The name asked for
  is a token, so a part with that name has a valid name.
\<close>

definition cookie_part :: "bytes \<Rightarrow> bytes \<Rightarrow> bytes option" where
  "cookie_part name part =
     (let p = trim_http part;
          v = unquote_cookie (after_char CHR ''='' p)
      in if p \<noteq> [] \<and> trim_http (before_char CHR ''='' p) = name \<and> list_all cookie_byte v
         then Some v else None)"

fun first_some :: "('a \<Rightarrow> 'b option) \<Rightarrow> 'a list \<Rightarrow> 'b option" where
  "first_some f [] = None"
| "first_some f (x # xs) = (case f x of None \<Rightarrow> first_some f xs | Some y \<Rightarrow> Some y)"

definition request_cookie :: "http_request \<Rightarrow> bytes \<Rightarrow> bytes option" where
  "request_cookie r name =
     first_some (cookie_part name) (concat (map (\<lambda>line. split CHR '';'' (trim_http line)) (header_list r ''Cookie'')))"

section \<open>Choosing a handler\<close>

text \<open>\<open>cleanPath\<close> keeps a trailing slash.\<close>

definition clean_path :: "bytes \<Rightarrow> bytes" where
  "clean_path p =
     (if p = [] then ''/''
      else let p' = (if hd p = slash then p else slash # p); np = path_clean p'
        in if List.last p' = slash \<and> np \<noteq> ''/'' then np @ ''/'' else np)"

text \<open>The segments after the first slash, decoded where they can be; a final slash leaves an empty one.\<close>

definition path_segments :: "bytes \<Rightarrow> bytes list" where
  "path_segments p =
     map (\<lambda>s. case unescape Other_Mode s of None \<Rightarrow> s | Some t \<Rightarrow> t) (split slash (tl p))"

text \<open>
  A pattern is a list of literal segments, with or without the final slash that makes it a
  subtree. \<open>mux_match\<close> gives the handler of the first pattern that fits; the patterns of the
  server are such that at most one exact pattern or proper subtree fits, and the root fits last.
\<close>

type_synonym 'h mux = "((bytes list \<times> bool) \<times> 'h) list"

definition pattern_fits :: "bytes list \<Rightarrow> bytes list \<times> bool \<Rightarrow> bool" where
  "pattern_fits segs p \<longleftrightarrow>
     (if snd p then length (fst p) < length segs \<and> take (length (fst p)) segs = fst p else segs = fst p)"

definition mux_match :: "'h mux \<Rightarrow> bytes \<Rightarrow> 'h option" where
  "mux_match mux p =
     (if p = [] then None
      else map_option snd (find (\<lambda>e. pattern_fits (path_segments p) (fst e)) mux))"

text \<open>
  \<open>findHandler\<close>: a path that is not clean and a subtree without its slash are redirected, except
  that \<open>CONNECT\<close> takes the path as it is.
\<close>

datatype 'h mux_target = Handler 'h | Redirect | No_Handler

definition subtree_missing_slash :: "'h mux \<Rightarrow> bytes \<Rightarrow> bool" where
  "subtree_missing_slash mux p \<longleftrightarrow>
     p \<noteq> [] \<and> List.last p \<noteq> slash \<and>
     (\<exists>e\<in>set mux. fst (fst e) = path_segments p \<and> snd (fst e)) \<and>
     \<not> (\<exists>e\<in>set mux. fst (fst e) = path_segments p \<and> \<not> snd (fst e))"

definition mux_target :: "'h mux \<Rightarrow> http_request \<Rightarrow> 'h mux_target" where
  "mux_target mux r =
     (let p = (if rq_method r = ''CONNECT'' then rq_escaped r else clean_path (rq_escaped r))
      in if subtree_missing_slash mux p then Redirect
         else if p \<noteq> rq_escaped r then Redirect
         else case mux_match mux p of None \<Rightarrow> No_Handler | Some h \<Rightarrow> Handler h)"

section \<open>Laws\<close>

lemma first_some_Some: "first_some f xs = Some y \<Longrightarrow> \<exists>x\<in>set xs. f x = Some y"
  by (induction xs) (auto split: option.splits)

lemma dropWhile_none: "list_all (\<lambda>c. \<not> P c) s \<Longrightarrow> dropWhile P s = s"
  by (cases s) auto

lemma trim_http_id: "list_all (\<lambda>c. \<not> http_space c) s \<Longrightarrow> trim_http s = s"
  by (simp add: trim_http_def dropWhile_none)

text \<open>A header that holds one cookie of plain characters gives that cookie back.\<close>

definition cookie_char :: "char \<Rightarrow> bool" where
  "cookie_char c \<longleftrightarrow> cookie_byte c \<and> \<not> http_space c"

lemma cookie_char_facts [simp]:
  "\<not> cookie_char CHR '';''" "\<not> cookie_char CHR 0x22" "\<not> cookie_char CHR '' ''"
  by (simp_all add: cookie_char_def cookie_byte_def http_space_def)

lemma split_single: "c \<notin> set s \<Longrightarrow> split c s = [s]"
  by (induction s) auto

lemma before_after_first:
  "c \<notin> set a \<Longrightarrow> before_char c (a @ c # b) = a \<and> after_char c (a @ c # b) = b"
  by (induction a) (auto simp: before_char_def after_char_def)

lemma cookie_part_plain:
  assumes "list_all cookie_char name" "CHR ''='' \<notin> set name" "list_all cookie_char v"
  shows "cookie_part name (name @ CHR ''='' # v) = Some v"
proof -
  have plain: "list_all (\<lambda>c. \<not> http_space c) (name @ CHR ''='' # v)"
    using assms by (auto simp: list_all_iff cookie_char_def http_space_def)
  have "hd v \<noteq> CHR 0x22" if "1 < length v" using assms(3) that by (cases v) auto
  then have "\<not> (1 < length v \<and> hd v = CHR 0x22 \<and> List.last v = CHR 0x22)" by blast
  then have "unquote_cookie v = v" unfolding unquote_cookie_def by (rule if_not_P)
  moreover have "trim_http name = name" "list_all cookie_byte v"
    using assms by (auto simp: list_all_iff cookie_char_def intro!: trim_http_id)
  ultimately show ?thesis
    using before_after_first [OF assms(2), of v] trim_http_id [OF plain] by (simp add: cookie_part_def Let_def)
qed

lemma request_cookie_plain:
  assumes "header_list r ''Cookie'' = [name @ CHR ''='' # v]"
    and "list_all cookie_char name" "CHR ''='' \<notin> set name" "list_all cookie_char v"
  shows "request_cookie r name = Some v"
proof -
  have plain: "list_all (\<lambda>c. \<not> http_space c) (name @ CHR ''='' # v)"
    using assms(2,4) by (auto simp: list_all_iff cookie_char_def http_space_def)
  have no_sep: "CHR '';'' \<notin> set (name @ CHR ''='' # v)"
    using assms(2,4) by (auto simp: list_all_iff)
  have "concat (map (\<lambda>line. split CHR '';'' (trim_http line)) [name @ CHR ''='' # v]) = [name @ CHR ''='' # v]"
    by (simp only: list.map concat.simps append_Nil2 trim_http_id [OF plain] split_single [OF no_sep])
  then show ?thesis
    unfolding request_cookie_def assms(1) by (simp only: first_some.simps cookie_part_plain [OF assms(2-4)] option.case)
qed

end
