(* ===== verification/Server.thy ===== *)
theory Server
  imports Sessions Setup Limiters Controller_Runs Json_State WebSocket
begin

text \<open>
  The HTTP server of \<open>internal/server/server.go\<close>: its configuration and state, what it checks of
  a request, its handlers, and the choice among them. A handler is a function of what the
  environment gives one request, the request, the server and the hardware; it returns the reply,
  the server and the hardware after it. Handlers are taken one after the other here; how the
  locked sections of setup and of the limiters interleave is in \<open>Setup\<close> and \<open>Limiters\<close>. Of an
  error reply the status and the code are kept, not the message. The reply to a request that was
  hijacked is what its handler left; nothing of it is sent.
\<close>

section \<open>Configuration and state\<close>

record server_config =
  cf_username :: bytes
  cf_hash :: bytes
  cf_credentials :: bytes
  cf_sessions :: "sessions option"
  cf_secure :: bool
  cf_write_interval :: duration
  cf_telemetry :: duration

record 'w server =
  sv_sessions :: sessions
  sv_secure :: bool
  sv_interval :: duration
  sv_telemetry :: duration
  sv_controller :: "'w controller"
  sv_hub :: hub
  sv_last_write :: time
  sv_logins :: login_records
  sv_degraded :: bytes
  sv_setup :: setup_shared

datatype start_error = Incomplete_Authentication | No_Password_Source | No_Setup_Token

text \<open>\<open>random\<close> is what \<open>rand.Read\<close> gives, \<open>stored\<close> what the credentials file holds at the start.\<close>

definition new_server ::
  "server_config \<Rightarrow> bytes option \<Rightarrow> (bytes \<times> bytes) option \<Rightarrow> 'w controller
     \<Rightarrow> (start_error, 'w server) result" where
  "new_server cf random stored c =
     (case cf_sessions cf of
        None \<Rightarrow> Inl Incomplete_Authentication
      | Some sessions \<Rightarrow>
          if cf_username cf = [] then Inl Incomplete_Authentication
          else if cf_hash cf = [] \<and> cf_credentials cf = [] then Inl No_Password_Source
          else if cf_hash cf = [] \<and> random = None then Inl No_Setup_Token
          else Inr \<lparr>sv_sessions = sessions, sv_secure = cf_secure cf,
            sv_interval = (if cf_write_interval cf \<le> 0 then 150000000 else cf_write_interval cf),
            sv_telemetry = (if cf_telemetry cf \<le> 0 then seconds 2 else cf_telemetry cf),
            sv_controller = c, sv_hub = new_hub, sv_last_write = 0,
            sv_logins = new_login_limiter, sv_degraded = [],
            sv_setup = \<lparr>su_config_username = cf_username cf, su_username = cf_username cf, su_hash = cf_hash cf,
              su_token = (if cf_hash cf = [] then raw_url_encode (the random) else []), su_file = stored\<rparr>\<rparr>)"

definition setup_token :: "'w server \<Rightarrow> bytes" where
  "setup_token s = su_token (sv_setup s)"

definition setup_required :: "'w server \<Rightarrow> bool" where
  "setup_required s \<longleftrightarrow> su_hash (sv_setup s) = []"

definition credentials :: "'w server \<Rightarrow> bytes \<times> bytes" where
  "credentials s = (su_username (sv_setup s), su_hash (sv_setup s))"

section \<open>Replies\<close>

record cookie =
  ck_name :: bytes
  ck_value :: bytes
  ck_path :: bytes
  ck_expires :: "time option"
  ck_max_age :: int
  ck_http_only :: bool
  ck_secure :: bool
  ck_strict :: bool

datatype reply_body =
    Error_Body bytes
  | Setup_Body bool nat
  | Auth_Body bool bytes
  | State_Body hw_state
  | Asset_Body bytes
  | Switched_Body nat
  | Plain_Body

type_synonym headers = "bytes \<Rightarrow> bytes option"

record reply =
  rp_status :: nat
  rp_headers :: headers
  rp_cookies :: "cookie list"
  rp_body :: reply_body

definition write_json :: "nat \<Rightarrow> reply_body \<Rightarrow> reply" where
  "write_json status body =
     \<lparr>rp_status = status,
      rp_headers = [''Content-Type'' \<mapsto> ''application/json; charset=utf-8'', ''Cache-Control'' \<mapsto> ''no-store''],
      rp_cookies = [], rp_body = body\<rparr>"

definition write_error :: "nat \<Rightarrow> bytes \<Rightarrow> reply" where
  "write_error status code = write_json status (Error_Body code)"

definition add_header :: "bytes \<Rightarrow> bytes \<Rightarrow> reply \<Rightarrow> reply" where
  "add_header name v rep = rep\<lparr>rp_headers := (rp_headers rep)(name \<mapsto> v)\<rparr>"

definition method_not_allowed :: "bytes list \<Rightarrow> reply" where
  "method_not_allowed methods = add_header ''Allow'' (join '', '' methods) (write_error 405 ''method'')"

definition plain_reply :: "nat \<Rightarrow> reply" where
  "plain_reply status = \<lparr>rp_status = status, rp_headers = (\<lambda>_. None), rp_cookies = [], rp_body = Plain_Body\<rparr>"

section \<open>What is checked of a request\<close>

definition same_origin :: "http_request \<Rightarrow> bool" where
  "same_origin r \<longleftrightarrow>
     (let raw = header_get r ''Origin''
      in raw = [] \<or> (case url_host raw of None \<Rightarrow> False | Some host \<Rightarrow> equal_fold host (rq_host r)))"

definition valid_mutation :: "http_request \<Rightarrow> bool" where
  "valid_mutation r \<longleftrightarrow> same_origin r \<and> header_get r ''X-Requested-With'' = ''phnctl''"

definition client_ip :: "http_request \<Rightarrow> bytes" where
  "client_ip r = (case split_host_port (rq_remote r) of None \<Rightarrow> rq_remote r | Some (host, _) \<Rightarrow> host)"

definition body_limit :: nat where
  "body_limit = 65536"

definition decode_json :: "'r json_field list \<Rightarrow> 'r \<Rightarrow> http_request \<Rightarrow> 'r option" where
  "decode_json flds zero r =
     (case json_parse (take body_limit (rq_body r)) of
        None \<Rightarrow> None
      | Some (v, rest) \<Rightarrow>
          (case decode_struct True flds v zero of
             None \<Rightarrow> None
           | Some x \<Rightarrow> if skip_space rest = [] then Some x else None))"

section \<open>Bodies of requests\<close>

record login_request =
  lr_username :: bytes
  lr_password :: bytes

record fans_request =
  fr_mode :: bytes
  fr_cpu :: int
  fr_gpu :: int
  fr_confirmed :: bool

record setting_request =
  sq_enabled :: "bool option"
  sq_value :: "int option"
  sq_confirmed :: bool

definition setup_fields :: "setup_request json_field list" where
  "setup_fields =
     [(''token'', string_field (\<lambda>v r. r\<lparr>sr_token := v\<rparr>)), (''username'', string_field (\<lambda>v r. r\<lparr>sr_username := v\<rparr>)),
      (''password'', string_field (\<lambda>v r. r\<lparr>sr_password := v\<rparr>))]"

definition login_fields :: "login_request json_field list" where
  "login_fields =
     [(''username'', string_field (\<lambda>v r. r\<lparr>lr_username := v\<rparr>)), (''password'', string_field (\<lambda>v r. r\<lparr>lr_password := v\<rparr>))]"

definition profile_fields :: "bytes json_field list" where
  "profile_fields = [(''profile'', string_field (\<lambda>v r. v))]"

definition fans_fields :: "fans_request json_field list" where
  "fans_fields =
     [(''mode'', string_field (\<lambda>v r. r\<lparr>fr_mode := v\<rparr>)), (''cpu'', int_field (\<lambda>v r. r\<lparr>fr_cpu := v\<rparr>)),
      (''gpu'', int_field (\<lambda>v r. r\<lparr>fr_gpu := v\<rparr>)), (''confirmed'', bool_field (\<lambda>v r. r\<lparr>fr_confirmed := v\<rparr>))]"

definition setting_fields :: "setting_request json_field list" where
  "setting_fields =
     [(''enabled'', bool_pointer (\<lambda>v r. r\<lparr>sq_enabled := v\<rparr>)), (''value'', int_pointer (\<lambda>v r. r\<lparr>sq_value := v\<rparr>)),
      (''confirmed'', bool_field (\<lambda>v r. r\<lparr>sq_confirmed := v\<rparr>))]"

definition zone_fields :: "zone_setting json_field list" where
  "zone_fields =
     [(''zone1'', string_field (\<lambda>v z. z\<lparr>zone1 := v\<rparr>)), (''zone2'', string_field (\<lambda>v z. z\<lparr>zone2 := v\<rparr>)),
      (''zone3'', string_field (\<lambda>v z. z\<lparr>zone3 := v\<rparr>)), (''zone4'', string_field (\<lambda>v z. z\<lparr>zone4 := v\<rparr>)),
      (''brightness'', int_field (\<lambda>v z. z\<lparr>zone_brightness := v\<rparr>))]"

definition effect_fields :: "effect_setting json_field list" where
  "effect_fields =
     [(''mode'', int_field (\<lambda>v e. e\<lparr>eff_mode := v\<rparr>)), (''speed'', int_field (\<lambda>v e. e\<lparr>eff_speed := v\<rparr>)),
      (''brightness'', int_field (\<lambda>v e. e\<lparr>eff_brightness := v\<rparr>)), (''direction'', int_field (\<lambda>v e. e\<lparr>eff_direction := v\<rparr>)),
      (''red'', int_field (\<lambda>v e. e\<lparr>eff_red := v\<rparr>)), (''green'', int_field (\<lambda>v e. e\<lparr>eff_green := v\<rparr>)),
      (''blue'', int_field (\<lambda>v e. e\<lparr>eff_blue := v\<rparr>))]"

definition zero_zone :: zone_setting where
  "zero_zone = \<lparr>zone1 = [], zone2 = [], zone3 = [], zone4 = [], zone_brightness = 0\<rparr>"

definition zero_effect :: effect_setting where
  "zero_effect = \<lparr>eff_mode = 0, eff_speed = 0, eff_brightness = 0, eff_direction = 0, eff_red = 0,
     eff_green = 0, eff_blue = 0\<rparr>"

section \<open>Handlers\<close>

text \<open>
  What one request meets: the time, the random bytes for a salt and for a nonce, whether the
  credentials file can be replaced, and the connection that hijacking gives.
\<close>

record environment =
  env_now :: time
  env_salt :: "bytes option"
  env_nonce :: "bytes option"
  env_save :: bool
  env_hijack :: "conn option"

type_synonym 'w answer = "reply \<times> 'w server \<times> 'w"
type_synonym 'w handler = "environment \<Rightarrow> http_request \<Rightarrow> 'w server \<Rightarrow> 'w \<Rightarrow> 'w answer"

definition session_cookie :: bytes where
  "session_cookie = ''phnctl_session''"

definition issue_session :: "environment \<Rightarrow> bytes \<Rightarrow> 'w server \<Rightarrow> reply" where
  "issue_session env username s =
     (case new_token (sv_sessions s) (env_nonce env) (env_now env) of
        Inl _ \<Rightarrow> write_error 500 ''internal''
      | Inr (token, expires) \<Rightarrow>
          (write_json 200 (Auth_Body True username))\<lparr>rp_cookies :=
            [\<lparr>ck_name = session_cookie, ck_value = token, ck_path = ''/'', ck_expires = Some expires, ck_max_age = 0,
              ck_http_only = True, ck_secure = sv_secure s, ck_strict = True\<rparr>]\<rparr>)"

definition handle_perform_setup :: "'w handler" where
  "handle_perform_setup env r s w =
     (if \<not> same_origin r then (write_error 403 ''origin'', s, w)
      else
        let address = client_ip r; now = env_now env;
            (ok, logins) = login_allow (sv_logins s) address now; s = s\<lparr>sv_logins := logins\<rparr>
        in if \<not> ok then (write_error 429 ''rate_limited'', s, w)
           else case decode_json setup_fields \<lparr>sr_token = [], sr_username = [], sr_password = []\<rparr> r of
             None \<Rightarrow> (write_error 400 ''invalid_request'', s, w)
           | Some request \<Rightarrow>
               (case perform_setup request (env_salt env) (env_save env) (sv_setup s) of
                  (result, setup) \<Rightarrow>
                    let s = s\<lparr>sv_setup := setup\<rparr>
                    in (case result of
                          Already_Configured \<Rightarrow> (write_error 409 ''already_configured'', s, w)
                        | Bad_Setup_Token \<Rightarrow>
                            (write_error 401 ''invalid_token'', s\<lparr>sv_logins := login_failed (sv_logins s) address now\<rparr>, w)
                        | Weak_Password _ \<Rightarrow> (write_error 400 ''weak_password'', s, w)
                        | Setup_Internal \<Rightarrow> (write_error 500 ''internal'', s, w)
                        | Setup_Done username _ \<Rightarrow>
                            (let s = s\<lparr>sv_logins := login_succeeded (sv_logins s) address\<rparr>
                             in (issue_session env username s, s, w)))))"

definition handle_setup :: "'w handler" where
  "handle_setup env r s w =
     (if rq_method r = ''GET'' then (write_json 200 (Setup_Body (setup_required s) min_password_length), s, w)
      else if rq_method r = ''POST'' then handle_perform_setup env r s w
      else (method_not_allowed [''GET'', ''POST''], s, w))"

definition handle_login :: "'w handler" where
  "handle_login env r s w =
     (if rq_method r \<noteq> ''POST'' then (method_not_allowed [''POST''], s, w)
      else if \<not> same_origin r then (write_error 403 ''origin'', s, w)
      else
        let address = client_ip r; now = env_now env;
            (ok, logins) = login_allow (sv_logins s) address now; s = s\<lparr>sv_logins := logins\<rparr>
        in if \<not> ok then (write_error 429 ''rate_limited'', s, w)
           else case decode_json login_fields \<lparr>lr_username = [], lr_password = []\<rparr> r of
             None \<Rightarrow> (write_error 400 ''invalid_request'', s, w)
           | Some request \<Rightarrow>
               (let (username, hash) = credentials s
                in if hash = [] then (write_error 409 ''setup_required'', s, w)
                   else if lr_username request \<noteq> username \<or> \<not> verify_password hash (lr_password request)
                   then (write_error 401 ''invalid_credentials'', s\<lparr>sv_logins := login_failed (sv_logins s) address now\<rparr>, w)
                   else let s = s\<lparr>sv_logins := login_succeeded (sv_logins s) address\<rparr>
                     in (issue_session env username s, s, w)))"

definition handle_logout :: "'w handler" where
  "handle_logout env r s w =
     (if rq_method r \<noteq> ''POST'' then (method_not_allowed [''POST''], s, w)
      else if \<not> valid_mutation r then (write_error 403 ''origin'', s, w)
      else ((write_json 200 (Auth_Body False []))\<lparr>rp_cookies :=
              [\<lparr>ck_name = session_cookie, ck_value = [], ck_path = ''/'', ck_expires = None, ck_max_age = -1,
                ck_http_only = True, ck_secure = sv_secure s, ck_strict = True\<rparr>]\<rparr>, s, w))"

definition handle_state :: "'w handler" where
  "handle_state env r s w =
     (if rq_method r \<noteq> ''GET'' then (method_not_allowed [''GET''], s, w)
      else case snapshot (sv_controller s) w (env_now env) of
        (Inl _, c) \<Rightarrow> (write_error 503 ''hardware'', s\<lparr>sv_controller := c\<rparr>, w)
      | (Inr state, c) \<Rightarrow> (write_json 200 (State_Body state), s\<lparr>sv_controller := c\<rparr>, w))"

text \<open>The seconds of \<open>Retry-After\<close>, to the nearest second and at least one.\<close>

definition retry_seconds :: "duration \<Rightarrow> int" where
  "retry_seconds d = max 1 ((d + 500000000) div 1000000000)"

definition prepare_mutation ::
  "'r json_field list \<Rightarrow> 'r \<Rightarrow> environment \<Rightarrow> http_request \<Rightarrow> 'w server \<Rightarrow> (reply, 'r) result \<times> 'w server" where
  "prepare_mutation flds zero env r s =
     (if \<not> valid_mutation r then (Inl (write_error 403 ''origin''), s)
      else case decode_json flds zero r of
        None \<Rightarrow> (Inl (write_error 400 ''invalid_request''), s)
      | Some request \<Rightarrow>
          (case write_allow (sv_last_write s) (env_now env) (sv_interval s) of
             ((retry, False), stamp) \<Rightarrow>
               (Inl (add_header ''Retry-After'' (itoa (retry_seconds retry)) (write_error 429 ''rate_limited'')),
                s\<lparr>sv_last_write := stamp\<rparr>)
           | ((_, True), stamp) \<Rightarrow> (Inr request, s\<lparr>sv_last_write := stamp\<rparr>)))"

definition error_reply :: "ctl_error \<Rightarrow> reply" where
  "error_reply e =
     (if e = ErrUnsupported then write_error 404 ''unsupported''
      else if e = ErrConflict then write_error 409 ''conflict''
      else if e = ErrConfirmation then write_error 409 ''confirmation_required''
      else write_error 400 ''validation'')"

definition finish_mutation :: "(ctl_error, hw_state) result \<Rightarrow> 'w server \<Rightarrow> reply \<times> 'w server" where
  "finish_mutation res s =
     (case res of
        Inl e \<Rightarrow> (error_reply e, s)
      | Inr state \<Rightarrow> (write_json 200 (State_Body state), s\<lparr>sv_hub := broadcast (payload_of state) (sv_hub s)\<rparr>))"

text \<open>An operation of the controller, followed by \<open>finishMutation\<close>.\<close>

definition operate :: "('w controller \<Rightarrow> 'w \<Rightarrow> time \<Rightarrow> 'w outcome) \<Rightarrow> environment \<Rightarrow> 'w server \<Rightarrow> 'w \<Rightarrow> 'w answer" where
  "operate f env s w =
     (let (res, c, w') = f (sv_controller s) w (env_now env);
          (rep, s') = finish_mutation res (s\<lparr>sv_controller := c\<rparr>)
      in (rep, s', w'))"

definition handle_profile :: "'w handler" where
  "handle_profile env r s w =
     (if rq_method r \<noteq> ''PUT'' then (method_not_allowed [''PUT''], s, w)
      else case prepare_mutation profile_fields [] env r s of
        (Inl rep, s) \<Rightarrow> (rep, s, w)
      | (Inr profile, s) \<Rightarrow> operate (set_profile profile) env s w)"

definition requested_fans :: "fans_request \<Rightarrow> fan_setting option" where
  "requested_fans request =
     (if fr_mode request = ''auto'' then Some \<lparr>fan_cpu = 0, fan_gpu = 0\<rparr>
      else if fr_mode request = ''max'' then Some \<lparr>fan_cpu = 100, fan_gpu = 100\<rparr>
      else if fr_mode request = ''manual'' then Some \<lparr>fan_cpu = fr_cpu request, fan_gpu = fr_gpu request\<rparr>
      else None)"

definition handle_fans :: "'w handler" where
  "handle_fans env r s w =
     (if rq_method r \<noteq> ''PUT'' then (method_not_allowed [''PUT''], s, w)
      else case prepare_mutation fans_fields \<lparr>fr_mode = [], fr_cpu = 0, fr_gpu = 0, fr_confirmed = False\<rparr> env r s of
        (Inl rep, s) \<Rightarrow> (rep, s, w)
      | (Inr request, s) \<Rightarrow>
          (case requested_fans request of
             None \<Rightarrow> (write_error 400 ''validation'', s, w)
           | Some setting \<Rightarrow> operate (set_fans setting (fr_confirmed request)) env s w))"

definition handle_setting :: "'w handler" where
  "handle_setting env r s w =
     (if rq_method r \<noteq> ''PUT'' then (method_not_allowed [''PUT''], s, w)
      else let name = trim_prefix (rq_path r) ''/api/settings/''
      in case prepare_mutation setting_fields \<lparr>sq_enabled = None, sq_value = None, sq_confirmed = False\<rparr> env r s of
        (Inl rep, s) \<Rightarrow> (rep, s, w)
      | (Inr request, s) \<Rightarrow>
          if name = ''usb-charging'' then
            (case sq_value request of
               None \<Rightarrow> (write_error 400 ''validation'', s, w)
             | Some v \<Rightarrow> operate (set_usb_charging v) env s w)
          else (case sq_enabled request of
            None \<Rightarrow> (write_error 400 ''validation'', s, w)
          | Some enabled \<Rightarrow> operate (set_boolean name enabled (sq_confirmed request)) env s w))"

definition handle_per_zone :: "'w handler" where
  "handle_per_zone env r s w =
     (if rq_method r \<noteq> ''PUT'' then (method_not_allowed [''PUT''], s, w)
      else case prepare_mutation zone_fields zero_zone env r s of
        (Inl rep, s) \<Rightarrow> (rep, s, w)
      | (Inr request, s) \<Rightarrow> operate (set_per_zone request) env s w)"

definition handle_effect :: "'w handler" where
  "handle_effect env r s w =
     (if rq_method r \<noteq> ''PUT'' then (method_not_allowed [''PUT''], s, w)
      else case prepare_mutation effect_fields zero_effect env r s of
        (Inl rep, s) \<Rightarrow> (rep, s, w)
      | (Inr request, s) \<Rightarrow> operate (set_effect request) env s w)"

text \<open>After a failed handshake the connection is the handler's, and no reply is sent.\<close>

definition handle_websocket :: "'w handler" where
  "handle_websocket env r s w =
     (if \<not> same_origin r then (write_error 403 ''origin'', s, w)
      else case upgrade r (env_hijack env) of
        Inl Handshake_Failed \<Rightarrow> (plain_reply 0, s, w)
      | Inl _ \<Rightarrow> (write_error 400 ''websocket'', s, w)
      | Inr c \<Rightarrow>
          (let (i, h) = hub_add c (sv_hub s);
               (res, ctl) = snapshot (sv_controller s) w (env_now env);
               h' = (case res of Inl _ \<Rightarrow> h | Inr state \<Rightarrow> snd (hub_write i text_op (payload_of state) h))
           in ((plain_reply 101)\<lparr>rp_body := Switched_Body i\<rparr>, s\<lparr>sv_hub := h', sv_controller := ctl\<rparr>, w)))"

text \<open>
  The assets that are embedded, and \<open>http.FileServer\<close> over them, without conditional requests and
  ranges: a directory is answered with its index, an index by its name and a file with a slash after
  it with a redirection. An error takes the caching header away again.
\<close>

definition assets :: "bytes list" where
  "assets = [''/app.css'', ''/app.js'', ''/index.html'']"

definition file_server :: "bytes \<Rightarrow> reply" where
  "file_server p =
     (let upath = (if has_prefix p ''/'' then p else ''/'' @ p); name = path_clean upath
      in if has_suffix upath ''/index.html'' then plain_reply 301
         else if \<not> valid_utf8 name then plain_reply 500
         else if name = ''/'' then
           (if has_suffix upath ''/'' then (plain_reply 200)\<lparr>rp_body := Asset_Body ''/index.html''\<rparr> else plain_reply 301)
         else if name \<in> set assets then
           (if has_suffix upath ''/'' then plain_reply 301 else (plain_reply 200)\<lparr>rp_body := Asset_Body name\<rparr>)
         else plain_reply 404)"

definition handle_static :: "'w handler" where
  "handle_static env r s w =
     (if rq_method r \<noteq> ''GET'' \<and> rq_method r \<noteq> ''HEAD'' then (method_not_allowed [''GET'', ''HEAD''], s, w)
      else if has_prefix (rq_path r) ''/api/'' then (plain_reply 404, s, w)
      else let rep = file_server (rq_path r)
      in (if rp_status rep \<ge> 400 then rep
          else add_header ''Cache-Control'' (if rq_path r = ''/'' then ''no-store'' else ''public, max-age=3600'') rep, s, w))"

section \<open>The gate and the routes\<close>

definition require_auth :: "'w handler \<Rightarrow> 'w handler" where
  "require_auth h env r s w =
     (if setup_required s then (write_error 403 ''setup_required'', s, w)
      else case request_cookie r session_cookie of
        None \<Rightarrow> (write_error 401 ''unauthorized'', s, w)
      | Some v \<Rightarrow>
          (case validate_token (sv_sessions s) v (env_now env) of
             Inl _ \<Rightarrow> (write_error 401 ''unauthorized'', s, w)
           | Inr _ \<Rightarrow> h env r s w))"

definition routes :: "'w handler mux" where
  "routes =
     [(([''api'', ''setup''], False), handle_setup), (([''api'', ''login''], False), handle_login),
      (([''api'', ''logout''], False), require_auth handle_logout), (([''api'', ''state''], False), require_auth handle_state),
      (([''api'', ''ws''], False), require_auth handle_websocket), (([''api'', ''profile''], False), require_auth handle_profile),
      (([''api'', ''fans''], False), require_auth handle_fans), (([''api'', ''settings''], True), require_auth handle_setting),
      (([''api'', ''keyboard'', ''per-zone''], False), require_auth handle_per_zone),
      (([''api'', ''keyboard'', ''effect''], False), require_auth handle_effect), (([], True), handle_static)]"

definition security_headers :: "bool \<Rightarrow> headers" where
  "security_headers secure =
     [''Content-Security-Policy'' \<mapsto>
        ''default-src 'self'; base-uri 'none'; object-src 'none'; frame-ancestors 'none'; '' @
        ''form-action 'self'; img-src 'self' data:; style-src 'self'; script-src 'self'; connect-src 'self' ws: wss:'',
      ''Referrer-Policy'' \<mapsto> ''no-referrer'', ''X-Content-Type-Options'' \<mapsto> ''nosniff'',
      ''X-Frame-Options'' \<mapsto> ''DENY'', ''Permissions-Policy'' \<mapsto> ''camera=(), microphone=(), geolocation=()'']
     ++ (if secure then [''Strict-Transport-Security'' \<mapsto> ''max-age=31536000''] else (\<lambda>_. None))"

definition secured :: "'w server \<Rightarrow> 'w answer \<Rightarrow> 'w answer" where
  "secured s a = (case a of (rep, s', w') \<Rightarrow> (rep\<lparr>rp_headers := security_headers (sv_secure s) ++ rp_headers rep\<rparr>, s', w'))"

definition serve_http :: "'w handler" where
  "serve_http env r s w =
     secured s
       (case mux_target routes r of
          Handler h \<Rightarrow> h env r s w
        | Redirect \<Rightarrow> (plain_reply 301, s, w)
        | No_Handler \<Rightarrow> (plain_reply 404, s, w))"

section \<open>Telemetry\<close>

text \<open>What is logged, if anything, and the server after it.\<close>

definition log_degraded :: "bytes list \<Rightarrow> 'w server \<Rightarrow> bytes option \<times> 'w server" where
  "log_degraded degraded s =
     (let signature = join '','' degraded; s' = s\<lparr>sv_degraded := signature\<rparr>
      in if signature = sv_degraded s then (None, s')
         else if signature = [] then (Some ''all hardware sections readable again'', s')
         else (Some (''degraded hardware sections: '' @ signature), s'))"

definition broadcast_state :: "'w server \<Rightarrow> 'w \<Rightarrow> time \<Rightarrow> bytes option \<times> 'w server" where
  "broadcast_state s w now =
     (if \<not> has_clients (sv_hub s) then (None, s)
      else case snapshot (sv_controller s) w now of
        (Inl _, c) \<Rightarrow> (Some ''telemetry read'', s\<lparr>sv_controller := c\<rparr>)
      | (Inr state, c) \<Rightarrow>
          (let (line, s') = log_degraded (st_degraded state) (s\<lparr>sv_controller := c\<rparr>)
           in (line, case marshal_state state of
                None \<Rightarrow> s' | Some payload \<Rightarrow> s'\<lparr>sv_hub := broadcast payload (sv_hub s')\<rparr>)))"

text \<open>
  \<open>RunTelemetry\<close>, from its start to the end of its context: what the hardware is and what the time
  is, at the start and at each tick; the lines that are logged and the server at the end.
\<close>

fun run_telemetry :: "('w \<times> time) list \<Rightarrow> 'w server \<Rightarrow> bytes list \<times> 'w server" where
  "run_telemetry [] s = ([], s)"
| "run_telemetry ((w, now) # ticks) s =
     (let (line, s1) = broadcast_state s w now; (lines, s2) = run_telemetry ticks s1
      in ((case line of None \<Rightarrow> lines | Some l \<Rightarrow> l # lines), s2))"

end
