(* ===== verification/WebSocket_Laws.thy ===== *)
theory WebSocket_Laws
  imports WebSocket
begin

text \<open>
  The laws of the WebSocket server: a decoder of frames after RFC 6455, over natural numbers
  (\<open>rfc_decode\<close>), against which reading and writing are proved; what the reading loop has written
  when it ends, and that it never writes more than it reads; the invariant of the hub and the
  effect of a broadcast on each client.
\<close>

section \<open>Bytes and words\<close>

lemma unat_byte_word [simp]: "unat (byte_word c) = byte_of c"
  by (simp add: byte_word_def unat_of_nat)

lemma unat_byte_less: "unat (w :: 8 word) < 256"
  using unsigned_less [of w] by simp

lemma word_byte_word [simp]: "word_byte (byte_word c) = c" "byte_word (word_byte w) = w"
  using unat_byte_less [of w] by (simp_all add: word_byte_def) (simp add: byte_word_def)

lemma byte_of_word_byte [simp]: "byte_of (word_byte w) = unat w"
  by (metis unat_byte_word word_byte_word(2))

lemma byte_of_less: "byte_of c < 256"
  using unat_byte_less [of "byte_word c"] by simp

lemma high_bit: "byte_word c AND 0x80 = 0 \<longleftrightarrow> byte_of c < 128"
proof -
  have "byte_word c AND 0x80 = 0 \<longleftrightarrow> \<not> bit (byte_word c) 7"
    using and_exp_eq_0_iff_not_bit [of "byte_word c" 7] by simp
  also have "bit (byte_word c) 7 = bit (unat (byte_word c)) 7"
    by (simp add: bit_unsigned_iff del: unat_byte_word)
  also have "\<dots> \<longleftrightarrow> odd (byte_of c div 128)" by (simp add: bit_iff_odd)
  also have "\<dots> \<longleftrightarrow> \<not> byte_of c < 128"
  proof (cases "byte_of c < 128")
    case False
    then have "byte_of c div 128 = 1" using byte_of_less [of c] by (intro div_nat_eqI) simp_all
    with False show ?thesis by simp
  qed simp
  finally show ?thesis by blast
qed

lemma low_bits:
  "unat (byte_word c AND 0x0F) = byte_of c mod 16" "unat (byte_word c AND 0x7F) = byte_of c mod 128"
proof -
  have "byte_word c AND mask 4 = take_bit 4 (byte_word c)" "byte_word c AND mask 7 = take_bit 7 (byte_word c)"
    by (simp_all only: take_bit_eq_mask)
  then show "unat (byte_word c AND 0x0F) = byte_of c mod 16" "unat (byte_word c AND 0x7F) = byte_of c mod 128"
    by (simp_all add: mask_eq_exp_minus_1 take_bit_eq_mod unat_mod)
qed

text \<open>Big-endian numbers.\<close>

definition be_nat :: "bytes \<Rightarrow> nat" where
  "be_nat bs = fold (\<lambda>b n. n * 256 + byte_of b) bs 0"

lemma unat_ucast_byte: "unat (ucast (w :: 8 word) :: 64 word) = unat w"
proof -
  have "unat w < 2 ^ 64" using unat_byte_less [of w] by simp
  then show ?thesis by (simp add: unsigned_ucast_eq take_bit_eq_mod)
qed

lemma shift_in:
  fixes w :: "64 word"
  assumes "unat w < 2 ^ 56"
  shows "unat (push_bit 8 w OR ucast (byte_word b)) = unat w * 256 + byte_of b"
proof -
  have "push_bit 8 w AND ucast (byte_word b) = 0"
    by (auto simp: bit_eq_iff bit_simps dest: bit_imp_le_length)
  then have "push_bit 8 w OR ucast (byte_word b) = push_bit 8 w + ucast (byte_word b)"
    by (rule disjunctive_add_eq_or [symmetric])
  moreover have "push_bit 8 w = w * 256" by (simp add: push_bit_eq_mult)
  moreover have "unat (w * 256) = unat w * 256"
    using assms by (subst unat_mult_lem [THEN iffD1]) simp_all
  moreover have "unat (ucast (byte_word b) :: 64 word) = byte_of b"
    by (simp add: unat_ucast_byte)
  moreover have "unat w * 256 + byte_of b < 2 ^ 64"
  proof -
    have "unat w < 72057594037927936" "(2::nat) ^ 64 = 18446744073709551616" using assms by simp_all
    with byte_of_less [of b] show ?thesis by linarith
  qed
  ultimately show ?thesis by (simp add: unat_word_ariths(1))
qed

lemma be_word_fold:
  assumes "unat w < 256 ^ k" "k + length bs \<le> 8"
  shows "unat (fold (\<lambda>b w. push_bit 8 w OR ucast (byte_word b)) bs (w :: 64 word)) =
    fold (\<lambda>b n. n * 256 + byte_of b) bs (unat w)"
  using assms
proof (induction bs arbitrary: w k)
  case (Cons b bs)
  have "(256::nat) ^ k \<le> 256 ^ 7" using Cons.prems(2) by (intro power_increasing) simp_all
  then have w: "unat w < 2 ^ 56" using Cons.prems(1) by simp
  have "unat w * 256 + byte_of b < 256 ^ Suc k"
  proof -
    obtain q where q: "(256::nat) ^ k = q" by blast
    with Cons.prems(1) byte_of_less [of b] show ?thesis unfolding power_Suc q by linarith
  qed
  then show ?case
    using Cons.IH [of "push_bit 8 w OR ucast (byte_word b)" "Suc k"] Cons.prems(2) by (simp add: shift_in [OF w])
qed simp

lemma unat_be_word: "length bs \<le> 8 \<Longrightarrow> unat (be_word bs) = be_nat bs"
  using be_word_fold [of 0 0 bs] by (simp add: be_word_def be_nat_def)


section \<open>Frames as RFC 6455 describes them\<close>

text \<open>FIN, mask key, operation and payload of the frame a stream starts with, and what follows.\<close>

record rfc_frame =
  rfc_fin :: bool
  rfc_op :: nat
  rfc_key :: "bytes option"
  rfc_payload :: bytes

definition rfc_length :: "nat \<Rightarrow> bytes \<Rightarrow> (nat \<times> bytes) option" where
  "rfc_length short s =
     (let extra = (if short = 126 then 2 else if short = 127 then 8 else 0)
      in if length s < extra then None
         else Some (if extra = 0 then short else be_nat (take extra s), drop extra s))"

text \<open>Section 5.3: octet \<open>i\<close> of the payload is octet \<open>i\<close> of the masked data XOR octet \<open>i\<close> modulo 4 of the key.\<close>

definition rfc_unmask :: "bytes \<Rightarrow> bytes \<Rightarrow> bytes" where
  "rfc_unmask key masked = map (\<lambda>(i, c). octet_xor c (key ! (i mod 4))) (enumerate 0 masked)"

definition rfc_decode :: "bytes \<Rightarrow> (rfc_frame \<times> bytes) option" where
  "rfc_decode s =
     (case s of
        a # b # rest \<Rightarrow>
          (case rfc_length (byte_of b mod 128) rest of
             None \<Rightarrow> None
           | Some (n, rest) \<Rightarrow>
               (let key = (if 128 \<le> byte_of b then Some (take 4 rest) else None);
                    body = (if 128 \<le> byte_of b then drop 4 rest else rest)
                in if 128 \<le> byte_of b \<and> length rest < 4 \<or> length body < n then None
                   else Some (\<lparr>rfc_fin = (128 \<le> byte_of a), rfc_op = byte_of a mod 16, rfc_key = key,
                     rfc_payload = (case key of None \<Rightarrow> take n body | Some k \<Rightarrow> rfc_unmask k (take n body))\<rparr>, drop n body)))
      | _ \<Rightarrow> None)"

lemma unmask_rfc: "unmask key masked = rfc_unmask key masked"
  by (rule nth_equalityI) (simp_all add: unmask_def rfc_unmask_def byte_xor_octet nth_enumerate_eq)

lemma read_length_rfc:
  assumes "unat short < 128"
  shows "rfc_length (unat short) s = map_option (\<lambda>(len, rest). (unat len, rest)) (read_length short s)"
proof -
  have "unat short = 126 \<longleftrightarrow> short = 126" "unat short = 127 \<longleftrightarrow> short = 127"
    using word_unat_eq_iff [of short 126] word_unat_eq_iff [of short 127] by simp_all
  then show ?thesis
    by (auto simp: unat_ucast_byte rfc_length_def read_length_def unat_be_word Let_def)
qed

text \<open>Reading a frame is decoding a final masked frame of at most 4096 bytes.\<close>

lemma read_frame_rfc:
  "read_frame s = Inr ((opcode, payload), rest) \<longleftrightarrow>
     (\<exists>f. rfc_decode s = Some (f, rest) \<and> rfc_fin f \<and> rfc_key f \<noteq> None \<and> rfc_op f = unat opcode \<and>
        rfc_payload f = payload \<and> length payload \<le> 4096)"
proof (cases "\<exists>a b t. s = a # b # t")
  case False
  then have "read_frame s = Inl Read_Failed" "rfc_decode s = None"
    by (auto simp: read_frame_def rfc_decode_def split: list.splits)
  then show ?thesis by simp
next
  case True
  then obtain a b t where s: "s = a # b # t" by blast
  have len: "rfc_length (byte_of b mod 128) t =
      map_option (\<lambda>(len, rest). (unat len, rest)) (read_length (byte_word b AND 0x7F) t)"
    using read_length_rfc [of "byte_word b AND 0x7F" t] by (simp add: low_bits)
  have op: "byte_of a mod 16 = unat opcode \<longleftrightarrow> byte_word a AND 0x0F = opcode"
    using low_bits(1) [of a] word_unat_eq_iff [of "byte_word a AND 0x0F" opcode] by simp
  have small: "\<not> n > 4096 \<longleftrightarrow> unat n \<le> 4096" for n :: "64 word"
    by (simp add: word_less_nat_alt not_less)
  show ?thesis
  proof (cases "read_length (byte_word b AND 0x7F) t")
    case None
    then show ?thesis by (simp add: s read_frame_def rfc_decode_def len)
  next
    case (Some p)
    then obtain n u where nu: "read_length (byte_word b AND 0x7F) t = Some (n, u)" by (cases p) auto
    define q where "q = unat n"
    have q: "\<not> 4096 < n \<longleftrightarrow> q \<le> 4096" by (simp add: q_def word_less_nat_alt not_less)
    have dec: "rfc_decode s =
        (if 128 \<le> byte_of b then
           (if length u < 4 + q then None
            else Some (\<lparr>rfc_fin = (128 \<le> byte_of a), rfc_op = byte_of a mod 16, rfc_key = Some (take 4 u),
              rfc_payload = unmask (take 4 u) (take q (drop 4 u))\<rparr>, drop q (drop 4 u)))
         else if length u < q then None
         else Some (\<lparr>rfc_fin = (128 \<le> byte_of a), rfc_op = byte_of a mod 16, rfc_key = None,
              rfc_payload = take q u\<rparr>, drop q u))"
      unfolding s rfc_decode_def list.case len nu unmask_rfc by (auto simp: Let_def q_def)
    have read: "read_frame s =
        (if byte_of a < 128 then Inl Fragmented
         else if byte_of b < 128 then Inl Not_Masked
         else if 4096 < q then Inl Too_Large
         else if length u < 4 + q then Inl Read_Failed
         else Inr ((byte_word a AND 0x0F, unmask (take 4 u) (take q (drop 4 u))), drop q (drop 4 u)))"
      unfolding s read_frame_def list.case nu using q by (auto simp: high_bit q_def)
    have n: "length (unmask k (take q (drop 4 u))) = q" if "\<not> length u < 4 + q" for k
      using that by (simp add: unmask_def)
    show ?thesis
      unfolding dec read using op n by auto
  qed
qed


section \<open>The loop\<close>

text \<open>The frames that a stream of client frames holds, and where they end.\<close>

inductive client_stream :: "bytes \<Rightarrow> (nat \<times> bytes) list \<Rightarrow> bytes \<Rightarrow> bool" where
  stop: "client_stream s [] s"
| frame: "rfc_decode s = Some (f, rest) \<Longrightarrow> rfc_fin f \<Longrightarrow> rfc_key f \<noteq> None \<Longrightarrow> client_stream rest fs t \<Longrightarrow>
    client_stream s ((rfc_op f, rfc_payload f) # fs) t"

definition pongs :: "(nat \<times> bytes) list \<Rightarrow> bytes" where
  "pongs fs = concat (map (\<lambda>f. frame_header pong_op (length (snd f)) @ snd f) (filter (\<lambda>f. fst f = 9) fs))"

definition ignorable :: "nat \<times> bytes \<Rightarrow> bool" where
  "ignorable f \<longleftrightarrow> fst f \<in> {1, 2, 9, 10} \<and> length (snd f) \<le> 4096"

definition taking :: "conn \<Rightarrow> bool" where
  "taking c \<longleftrightarrow> conn_open c \<and> conn_room c = None"

lemma conn_write_taking [simp]: "taking c \<Longrightarrow> conn_write data c = (True, c\<lparr>conn_out := conn_out c @ data\<rparr>)"
  by (simp add: conn_write_def taking_def)

lemma taking_out [simp]: "taking (c\<lparr>conn_out := x\<rparr>) = taking c"
  by (simp add: taking_def)

lemma write_frame_taking [simp]:
  "taking c \<Longrightarrow> write_frame opcode payload c =
     (True, c\<lparr>conn_out := conn_out c @ frame_header opcode (length payload) @ payload\<rparr>)"
  by (simp add: write_frame_def)

lemma opcode_known: "unat opcode \<in> {1, 2, 9, 10} \<longleftrightarrow> (opcode :: opcode) \<in> {1, 2, 9, 10}"
  using word_unat_eq_iff [of opcode 1] word_unat_eq_iff [of opcode 2]
    word_unat_eq_iff [of opcode 9] word_unat_eq_iff [of opcode 10] by auto

lemma ignorable_opcode:
  "ignorable (unat (opcode :: opcode), payload) \<longleftrightarrow> opcode \<in> {1, 2, 9, 10} \<and> length payload \<le> 4096"
  by (simp only: ignorable_def fst_conv snd_conv opcode_known)

lemma read_loop_ignorable:
  assumes "read_frame s = Inr ((opcode, payload), rest)" "ignorable (unat opcode, payload)" "taking c"
  shows "read_loop s c = read_loop rest (c\<lparr>conn_out := conn_out c @ pongs [(unat opcode, payload)]\<rparr>)"
proof -
  have "opcode \<in> {1, 2, 9, 10}" "unat opcode = 9 \<longleftrightarrow> opcode = 9"
    using assms(2) word_unat_eq_iff [of opcode 9] by (simp_all add: ignorable_opcode)
  then show ?thesis
    using assms(1,3) by (auto simp: read_loop.simps [of s] pongs_def)
qed

lemma read_loop_stream:
  assumes "client_stream s fs t" "list_all ignorable fs" "taking c"
  shows "read_loop s c = read_loop t (c\<lparr>conn_out := conn_out c @ pongs fs\<rparr>)"
  using assms
proof (induction arbitrary: c)
  case (stop s)
  then show ?case by (simp add: pongs_def)
next
  case (frame s f rest fs t)
  define opcode :: opcode where "opcode = of_nat (rfc_op f)"
  have "rfc_op f < 256" using frame.prems(1) by (auto simp: ignorable_def)
  then have op: "unat opcode = rfc_op f" by (simp add: opcode_def unat_of_nat)
  have "read_frame s = Inr ((opcode, rfc_payload f), rest)"
    using frame.hyps frame.prems(1) op by (auto simp: read_frame_rfc ignorable_def)
  from read_loop_ignorable [OF this _ frame.prems(2)]
    have "read_loop s c = read_loop rest (c\<lparr>conn_out := conn_out c @ pongs [(rfc_op f, rfc_payload f)]\<rparr>)"
    using frame.prems(1) op by simp
  also have "\<dots> = read_loop t (c\<lparr>conn_out := conn_out c @ pongs ((rfc_op f, rfc_payload f) # fs)\<rparr>)"
    using frame.prems frame.IH by (simp add: pongs_def)
  finally show ?case .
qed

text \<open>What a loop over a stream has written when it ends.\<close>

lemma rfc_of_read:
  assumes "read_frame s = Inr ((opcode, payload), rest)"
  shows "\<exists>f. rfc_decode s = Some (f, rest) \<and> rfc_fin f \<and> rfc_key f \<noteq> None \<and> rfc_op f = unat opcode \<and>
    rfc_payload f = payload \<and> length payload \<le> 4096"
  using assms by (simp only: read_frame_rfc)

definition loop_wrote :: "bytes \<Rightarrow> read_end \<times> conn \<Rightarrow> conn \<Rightarrow> (nat \<times> bytes) list \<Rightarrow> bytes \<Rightarrow> bool" where
  "loop_wrote s res c fs t \<longleftrightarrow>
     client_stream s fs t \<and> list_all ignorable fs \<and>
     (if fst res = Peer_Closed
      then \<exists>payload rest. client_stream t [(8, payload)] rest \<and> length payload \<le> 4096 \<and>
        snd res = c\<lparr>conn_out := conn_out c @ pongs fs @ frame_header close_op (length payload) @ payload\<rparr>
      else fst res \<noteq> Write_Failed \<and> snd res = c\<lparr>conn_out := conn_out c @ pongs fs\<rparr>)"

lemma read_loop_wrote: "taking c \<Longrightarrow> \<exists>fs t. loop_wrote s (read_loop s c) c fs t"
proof (induction s c rule: read_loop.induct)
  case (1 s c)
  have stop: "\<exists>fs t. loop_wrote s (e, c) c fs t" if "e \<noteq> Peer_Closed" "e \<noteq> Write_Failed" for e
    using that by (intro exI [of _ "[]"] exI [of _ s]) (simp add: loop_wrote_def pongs_def client_stream.stop)
  show ?case
  proof (cases "read_frame s")
    case (Inl e)
    have "e \<noteq> Peer_Closed" "e \<noteq> Write_Failed"
      using Inl by (auto simp: read_frame_def split: list.splits if_splits option.splits)
    with stop show ?thesis by (simp add: read_loop.simps [of s] Inl)
  next
    case (Inr p)
    then obtain opcode payload rest where r: "read_frame s = Inr ((opcode, payload), rest)"
      by (metis surj_pair)
    from rfc_of_read [OF r] obtain f where f: "rfc_decode s = Some (f, rest)" "rfc_fin f" "rfc_key f \<noteq> None"
      "rfc_op f = unat opcode" "rfc_payload f = payload" "length payload \<le> 4096" by blast
    note cons = client_stream.frame [OF f(1-3), unfolded f(4,5)]
    consider "ignorable (unat opcode, payload)" | "opcode = 8" | "opcode \<notin> {1, 2, 8, 9, 10}"
      using f(6) by (auto simp: ignorable_opcode)
    then show ?thesis
    proof cases
      case 1
      let ?c = "c\<lparr>conn_out := conn_out c @ pongs [(unat opcode, payload)]\<rparr>"
      have "opcode \<in> {1, 2, 9, 10}" "unat opcode = 9 \<longleftrightarrow> opcode = 9"
        using 1 word_unat_eq_iff [of opcode 9] by (simp_all add: ignorable_opcode)
      then have "\<exists>fs t. loop_wrote rest (read_loop rest ?c) ?c fs t"
        using "1.IH" "1.prems" r by (auto simp: pongs_def)
      then obtain fs t where w: "loop_wrote rest (read_loop rest ?c) ?c fs t" by blast
      then have "loop_wrote s (read_loop rest ?c) c ((unat opcode, payload) # fs) t"
        using 1 cons by (auto simp: loop_wrote_def pongs_def)
      with read_loop_ignorable [OF r 1 "1.prems"] show ?thesis by auto
    next
      case 2
      have "client_stream s [(8, payload)] rest" using cons [OF client_stream.stop] 2 by simp
      then have "loop_wrote s (read_loop s c) c [] s"
        using "1.prems" f(6) 2 r
        by (auto simp: loop_wrote_def pongs_def read_loop.simps [of s] intro: client_stream.stop)
      then show ?thesis by blast
    next
      case 3
      then have "read_loop s c = (Bad_Opcode, c)" using r by (simp add: read_loop.simps [of s])
      with stop show ?thesis by simp
    qed
  qed
qed

lemma conn_write_length: "length (conn_out (snd (conn_write data c))) \<le> length (conn_out c) + length data"
  by (simp add: conn_write_def split: option.split)

lemma frame_header_length: "length (frame_header opcode n) = (if n < 126 then 2 else if n \<le> 65535 then 4 else 10)"
  by (simp add: frame_header_def Let_def)

lemma write_frame_length:
  "length (conn_out (snd (write_frame opcode payload c))) \<le>
     length (conn_out c) + length (frame_header opcode (length payload)) + length payload"
proof -
  obtain ok c' where h: "conn_write (frame_header opcode (length payload)) c = (ok, c')" by fastforce
  have "length (conn_out c') \<le> length (conn_out c) + length (frame_header opcode (length payload))"
    using conn_write_length [of "frame_header opcode (length payload)" c] h by simp
  with conn_write_length [of payload c'] h show ?thesis by (cases ok) (simp_all add: write_frame_def)
qed

text \<open>The loop never writes more than it reads, whatever the connection takes.\<close>

lemma read_loop_no_amplification:
  "length (conn_out (snd (read_loop s c))) \<le> length (conn_out c) + length s"
proof (induction s arbitrary: c rule: length_induct)
  case (1 s)
  show ?case
  proof (cases "read_frame s")
    case Inl
    then show ?thesis by (simp add: read_loop.simps [of s])
  next
    case (Inr p)
    then obtain opcode payload rest where r: "read_frame s = Inr ((opcode, payload), rest)"
      by (metis surj_pair)
    have len: "length rest + length payload + 6 \<le> length s" using read_frame_shorter [OF r] by simp
    have wrote: "length (conn_out (snd (write_frame op payload c))) + length rest \<le> length (conn_out c) + length s" for op
    proof -
      have "length payload \<le> 4096" using rfc_of_read [OF r] by blast
      then have "length (frame_header op (length payload)) \<le> 4" by (simp add: frame_header_length)
      with write_frame_length [of op payload c] len show ?thesis by linarith
    qed
    obtain ok c' where w: "write_frame pong_op payload c = (ok, c')" by fastforce
    have later: "length (conn_out (snd (read_loop rest d))) \<le> length (conn_out d) + length rest" for d
      using "1.IH" len by simp
    have pinged: "length (conn_out (snd (read_loop rest c'))) \<le> length (conn_out c) + length s"
      using later [of c'] w wrote [of pong_op] by simp
    have skipped: "length (conn_out (snd (read_loop rest c))) \<le> length (conn_out c) + length s"
      using later [of c] len by simp
    have closed: "length (conn_out (snd (write_frame close_op payload c))) \<le> length (conn_out c) + length s"
      and failed: "length (conn_out c') \<le> length (conn_out c) + length s"
      using wrote [of close_op] wrote [of pong_op] w by simp_all
    show ?thesis
      unfolding read_loop.simps [of s c] r w sum.case prod.case
      using pinged skipped closed failed by (simp split: bool.split)
  qed
qed

section \<open>Frames that are written\<close>

lemma byte_of_length_byte: "byte_of (length_byte n len) = unat len div 2 ^ n mod 256"
proof -
  have "unat (drop_bit n len) = unat len div 2 ^ n" by (simp only: unat_drop_bit_eq drop_bit_eq_div [of n "unat len"])
  then show ?thesis by (simp add: length_byte_def unsigned_ucast_eq take_bit_eq_mod)
qed

lemma be_nat_two: "n < 65536 \<Longrightarrow> n div 256 mod 256 * 256 + n mod 256 = (n :: nat)"
  by (simp add: less_mult_imp_div_less)

lemma be_nat_four:
  assumes "n < 4294967296"
  shows "((n div 16777216 mod 256 * 256 + n div 65536 mod 256) * 256 + n div 256 mod 256) * 256 + n mod 256 = (n :: nat)"
proof -
  define q where "q = n div 65536"
  have q: "q < 65536" "n div 16777216 = q div 256" "n div 65536 = q"
    using assms by (simp_all add: q_def div_mult2_eq [symmetric] less_mult_imp_div_less)
  have "n = (q * 256 + n div 256 mod 256) * 256 + n mod 256"
    unfolding q_def using div_mult_mod_eq [of n 256] div_mult_mod_eq [of "n div 256" 256]
    by (simp add: div_mult2_eq [symmetric])
  then show ?thesis using be_nat_two [OF q(1)] unfolding q(2,3) by simp
qed

text \<open>A frame that is written decodes to what was written, up to the four bytes of length that are sent.\<close>

lemma byte_of_fin_opcode: "unat (opcode :: opcode) < 16 \<Longrightarrow> unat (0x80 OR opcode) = 128 + unat opcode"
proof -
  assume op: "unat opcode < 16"
  have "0x80 AND opcode = 0"
    using high_bit [of "word_byte opcode"] op by (simp add: and.commute)
  then have "0x80 OR opcode = 0x80 + opcode" by (rule disjunctive_add_eq_or [symmetric])
  then show ?thesis using op by (simp add: unat_word_ariths(1))
qed

lemma rfc_decode_frame:
  assumes "unat (opcode :: opcode) < 16" "length payload < 2 ^ 32"
  shows "rfc_decode (frame_header opcode (length payload) @ payload @ rest) =
    Some (\<lparr>rfc_fin = True, rfc_op = unat opcode, rfc_key = None, rfc_payload = payload\<rparr>, rest)"
proof -
  let ?n = "length payload"
  have n: "unat (of_nat ?n :: 64 word) = ?n" using assms(2) by (simp add: unat_of_nat)
  note head = byte_of_fin_opcode [OF assms(1)]
  have finish: "rfc_decode (word_byte (0x80 OR opcode) # b # s) =
      Some (\<lparr>rfc_fin = True, rfc_op = unat opcode, rfc_key = None, rfc_payload = payload\<rparr>, rest)"
    if "byte_of b < 128" "rfc_length (byte_of b) s = Some (?n, payload @ rest)" for b s
  proof -
    have "(128 + unat opcode) mod 16 = unat opcode" using assms(1) by (simp add: mod_add_left_eq [symmetric, of 128])
    with that assms(1) show ?thesis by (simp add: rfc_decode_def head Let_def)
  qed
  consider "?n < 126" | "126 \<le> ?n" "?n \<le> 65535" | "65535 < ?n" by linarith
  then show ?thesis
  proof cases
    case 1
    then show ?thesis
      using finish by (simp add: frame_header_def Let_def byte_of_length_byte n rfc_length_def)
  next
    case 2
    then have "be_nat [length_byte 8 (of_nat ?n), length_byte 0 (of_nat ?n)] = ?n"
      using be_nat_two [of ?n] by (simp add: be_nat_def byte_of_length_byte n)
    with 2 show ?thesis
      using finish by (simp add: frame_header_def Let_def rfc_length_def)
  next
    case 3
    then have "be_nat [CHR 0x00, CHR 0x00, CHR 0x00, CHR 0x00, length_byte 24 (of_nat ?n), length_byte 16 (of_nat ?n),
        length_byte 8 (of_nat ?n), length_byte 0 (of_nat ?n)] = ?n"
      using be_nat_four [of ?n] assms(2) by (simp add: be_nat_def byte_of_length_byte n)
    with 3 show ?thesis
      using finish by (simp add: frame_header_def Let_def rfc_length_def)
  qed
qed

section \<open>The hub\<close>

text \<open>Exactly the connections of the registered clients are open, and nobody is registered twice.\<close>

definition hub_ok :: "hub \<Rightarrow> bool" where
  "hub_ok h \<longleftrightarrow> distinct (hub_clients h) \<and>
     (\<forall>i < length (hub_conns h). conn_open (hub_conns h ! i) \<longleftrightarrow> i \<in> set (hub_clients h)) \<and>
     (\<forall>i\<in>set (hub_clients h). i < length (hub_conns h))"

lemma conn_write_open [simp]: "conn_open (snd (conn_write data c)) = conn_open c"
  by (simp add: conn_write_def split: option.split)

lemma write_frame_open [simp]: "conn_open (snd (write_frame opcode payload c)) = conn_open c"
proof -
  obtain ok c' where h: "conn_write (frame_header opcode (length payload)) c = (ok, c')" by fastforce
  have "conn_open c' = conn_open c"
    using conn_write_open [of "frame_header opcode (length payload)" c] h by simp
  then show ?thesis by (cases ok) (simp_all add: write_frame_def h)
qed

lemma read_loop_open [simp]: "conn_open (snd (read_loop s c)) = conn_open c"
proof (induction s arbitrary: c rule: length_induct)
  case (1 s)
  show ?case
  proof (cases "read_frame s")
    case (Inr p)
    then obtain opcode payload rest where r: "read_frame s = Inr ((opcode, payload), rest)"
      by (metis surj_pair)
    have later: "conn_open (snd (read_loop rest d)) = conn_open d" for d
      using "1.IH" read_frame_shorter [OF r] by simp
    obtain ok c' where w: "write_frame pong_op payload c = (ok, c')" by fastforce
    then have "conn_open c' = conn_open c" using write_frame_open [of pong_op payload c] by simp
    with later show ?thesis
      unfolding read_loop.simps [of s c] r w sum.case prod.case by (simp split: bool.split)
  qed (simp add: read_loop.simps [of s])
qed

lemma hub_ok_new [simp]: "hub_ok new_hub"
  by (simp add: hub_ok_def new_hub_def)

lemma hub_ok_add: "hub_ok h \<Longrightarrow> conn_open c \<Longrightarrow> hub_ok (snd (hub_add c h))"
  by (force simp: hub_ok_def hub_add_def nth_append less_Suc_eq)

lemma hub_ok_remove: "hub_ok h \<Longrightarrow> hub_ok (hub_remove i h)"
  by (auto simp: hub_ok_def hub_remove_def conn_close_def nth_list_update distinct_removeAll)

lemma hub_ok_update:
  "hub_ok h \<Longrightarrow> conn_open c = conn_open (hub_conns h ! i) \<Longrightarrow> hub_ok (h\<lparr>hub_conns := (hub_conns h)[i := c]\<rparr>)"
  by (cases "i < length (hub_conns h)") (auto simp: hub_ok_def nth_list_update)

lemma hub_ok_write: "hub_ok h \<Longrightarrow> hub_ok (snd (hub_write i opcode payload h))"
  by (simp add: hub_write_def case_prod_beta hub_ok_update)

lemma hub_ok_send: "hub_ok h \<Longrightarrow> hub_ok (hub_send payload i h)"
  using hub_ok_write [of h i text_op payload]
  by (auto simp: hub_send_def hub_ok_remove split: prod.split)

lemma hub_ok_broadcast: "hub_ok h \<Longrightarrow> hub_ok (broadcast payload h)"
proof -
  have "hub_ok h \<Longrightarrow> hub_ok (fold (hub_send payload) is h)" for "is"
    by (induction "is" arbitrary: h) (simp_all add: hub_ok_send)
  then show "hub_ok h \<Longrightarrow> ?thesis" by (simp add: broadcast_def)
qed

lemma hub_ok_client_loop: "hub_ok h \<Longrightarrow> hub_ok (snd (client_loop i s h))"
  by (simp add: client_loop_def case_prod_beta hub_ok_remove hub_ok_update)

text \<open>What a broadcast does to one client.\<close>

lemma hub_send_spec:
  assumes "hub_ok h" "i \<in> set (hub_clients h)" "write_frame text_op payload (hub_conns h ! i) = (ok, c)"
  shows "hub_send payload i h =
    \<lparr>hub_clients = (if ok then hub_clients h else removeAll i (hub_clients h)),
     hub_conns = (hub_conns h)[i := if ok then c else conn_close c]\<rparr>"
  using assms by (auto simp: hub_send_def hub_write_def hub_remove_def hub_ok_def)

lemma broadcast_fold:
  assumes "hub_ok h" "distinct is" "set is \<subseteq> set (hub_clients h)"
  shows "hub_clients (fold (hub_send payload) is h) =
      filter (\<lambda>i. i \<in> set is \<longrightarrow> fst (write_frame text_op payload (hub_conns h ! i))) (hub_clients h) \<and>
    length (hub_conns (fold (hub_send payload) is h)) = length (hub_conns h) \<and>
    (\<forall>i < length (hub_conns h). hub_conns (fold (hub_send payload) is h) ! i =
      (if i \<in> set is
       then let (ok, c) = write_frame text_op payload (hub_conns h ! i) in if ok then c else conn_close c
       else hub_conns h ! i))"
  using assms
proof (induction "is" arbitrary: h)
  case (Cons j js)
  obtain ok c where w: "write_frame text_op payload (hub_conns h ! j) = (ok, c)" by fastforce
  have j: "j \<in> set (hub_clients h)" "j < length (hub_conns h)" using Cons.prems by (auto simp: hub_ok_def)
  note sent = hub_send_spec [OF Cons.prems(1) j(1) w]
  have sub: "set js \<subseteq> set (hub_clients (hub_send payload j h))"
    using Cons.prems by (auto simp: sent)
  have IH: "hub_clients (fold (hub_send payload) js (hub_send payload j h)) =
      filter (\<lambda>i. i \<in> set js \<longrightarrow> fst (write_frame text_op payload (hub_conns (hub_send payload j h) ! i)))
        (hub_clients (hub_send payload j h))"
    "length (hub_conns (fold (hub_send payload) js (hub_send payload j h))) = length (hub_conns (hub_send payload j h))"
    "\<forall>i < length (hub_conns (hub_send payload j h)). hub_conns (fold (hub_send payload) js (hub_send payload j h)) ! i =
      (if i \<in> set js
       then let (ok, c) = write_frame text_op payload (hub_conns (hub_send payload j h) ! i) in if ok then c else conn_close c
       else hub_conns (hub_send payload j h) ! i)"
    using Cons.IH [OF hub_ok_send [OF Cons.prems(1)] _ sub] Cons.prems(2) by auto
  show ?case
    using IH j w Cons.prems(2)
    by (auto simp: sent nth_list_update removeAll_filter_not_eq intro!: filter_cong split: if_splits)
qed simp

lemma broadcast_spec:
  assumes "hub_ok h"
  shows "hub_clients (broadcast payload h) =
      filter (\<lambda>i. fst (write_frame text_op payload (hub_conns h ! i))) (hub_clients h) \<and>
    (\<forall>i < length (hub_conns h). hub_conns (broadcast payload h) ! i =
      (if i \<in> set (hub_clients h)
       then let (ok, c) = write_frame text_op payload (hub_conns h ! i) in if ok then c else conn_close c
       else hub_conns h ! i))"
proof -
  have "distinct (hub_clients h)" using assms by (simp add: hub_ok_def)
  from broadcast_fold [OF assms this subset_refl] show ?thesis
    by (simp add: broadcast_def cong: filter_cong)
qed

end
