(* ===== verification/Server_Laws.thy ===== *)
theory Server_Laws
  imports Server WebSocket_Laws
begin

text \<open>
  The laws of the HTTP server. The locale \<open>mutation_handler\<close> is what the five writing handlers
  have in common: a request that asks for no operation has no effect, and one that does is the
  operation behind the write limiter. \<open>authenticated\<close> is what the gate lets through.
\<close>

section \<open>Operations that requests ask for\<close>

definition asked_profile :: "http_request \<Rightarrow> request option" where
  "asked_profile r = map_option Put_Profile (decode_json profile_fields [] r)"

definition asked_fans :: "http_request \<Rightarrow> request option" where
  "asked_fans r =
     (case decode_json fans_fields \<lparr>fr_mode = [], fr_cpu = 0, fr_gpu = 0, fr_confirmed = False\<rparr> r of
        None \<Rightarrow> None
      | Some q \<Rightarrow> map_option (\<lambda>f. Put_Fans f (fr_confirmed q)) (requested_fans q))"

definition asked_setting :: "http_request \<Rightarrow> request option" where
  "asked_setting r =
     (let name = trim_prefix (rq_path r) ''/api/settings/''
      in case decode_json setting_fields \<lparr>sq_enabled = None, sq_value = None, sq_confirmed = False\<rparr> r of
        None \<Rightarrow> None
      | Some q \<Rightarrow>
          if name = ''usb-charging'' then map_option Put_Usb (sq_value q)
          else map_option (\<lambda>b. Put_Boolean name b (sq_confirmed q)) (sq_enabled q))"

definition asked_zone :: "http_request \<Rightarrow> request option" where
  "asked_zone r = map_option Put_Zone (decode_json zone_fields zero_zone r)"

definition asked_effect :: "http_request \<Rightarrow> request option" where
  "asked_effect r = map_option Put_Effect (decode_json effect_fields zero_effect r)"

section \<open>The contract of the writing handlers\<close>

definition write_admitted :: "environment \<Rightarrow> 'w server \<Rightarrow> bool" where
  "write_admitted env s \<longleftrightarrow> snd (fst (write_allow (sv_last_write s) (env_now env) (sv_interval s)))"

definition stamped :: "environment \<Rightarrow> 'w server \<Rightarrow> 'w server" where
  "stamped env s = s\<lparr>sv_last_write := env_now env\<rparr>"

text \<open>An error reply that changes at most the write limiter.\<close>

definition harmless :: "environment \<Rightarrow> 'w server \<Rightarrow> 'w \<Rightarrow> 'w answer \<Rightarrow> bool" where
  "harmless env s w a \<longleftrightarrow>
     (case a of (rep, s', w') \<Rightarrow>
        w' = w \<and> (s' = s \<or> write_admitted env s \<and> s' = stamped env s) \<and>
        (\<exists>code. rp_body rep = Error_Body code) \<and> rp_cookies rep = [])"

definition too_soon :: "environment \<Rightarrow> 'w server \<Rightarrow> reply" where
  "too_soon env s =
     add_header ''Retry-After''
       (itoa (retry_seconds (fst (fst (write_allow (sv_last_write s) (env_now env) (sv_interval s))))))
       (write_error 429 ''rate_limited'')"

locale mutation_handler =
  fixes handle :: "'w handler" and asked :: "http_request \<Rightarrow> request option"
  assumes refused: "rq_method r \<noteq> ''PUT'' \<or> \<not> valid_mutation r \<or> asked r = None \<Longrightarrow> harmless env s w (handle env r s w)"
    and performed: "rq_method r = ''PUT'' \<Longrightarrow> valid_mutation r \<Longrightarrow> asked r = Some op \<Longrightarrow>
      handle env r s w =
        (if write_admitted env s then operate (serve op) env (stamped env s) w else (too_soon env s, s, w))"
    and asks_write: "asked r = Some op \<Longrightarrow> op \<noteq> Get_State"
begin

lemma handled:
  "harmless env s w (handle env r s w) \<or>
   (\<exists>op. op \<noteq> Get_State \<and> rq_method r = ''PUT'' \<and> valid_mutation r \<and> asked r = Some op \<and> write_admitted env s \<and>
      handle env r s w = operate (serve op) env (stamped env s) w)"
proof (cases "rq_method r = ''PUT'' \<and> valid_mutation r \<and> asked r \<noteq> None")
  case True
  then obtain op where op: "asked r = Some op" by blast
  have "harmless env s w (too_soon env s, s, w)"
    by (auto simp: harmless_def too_soon_def add_header_def write_error_def write_json_def)
  with True op performed [of r op env s w] asks_write [OF op] show ?thesis by auto
qed (use refused in blast)

end

lemma prepare_mutation_cases:
  "prepare_mutation flds zero env r s =
     (if \<not> valid_mutation r then (Inl (write_error 403 ''origin''), s)
      else case decode_json flds zero r of
        None \<Rightarrow> (Inl (write_error 400 ''invalid_request''), s)
      | Some q \<Rightarrow> if write_admitted env s then (Inr q, stamped env s) else (Inl (too_soon env s), s))"
proof -
  obtain d ok t where a: "write_allow (sv_last_write s) (env_now env) (sv_interval s) = ((d, ok), t)"
    by (metis surj_pair)
  then have "t = (if ok then env_now env else sv_last_write s)"
    using write_allow_state [of "sv_last_write s" "env_now env" "sv_interval s"] by simp
  then show ?thesis
    by (cases ok) (auto simp: prepare_mutation_def a write_admitted_def stamped_def too_soon_def split: option.split)
qed

lemmas reply_simps = write_error_def write_json_def add_header_def method_not_allowed_def plain_reply_def

lemma harmless_error:
  "harmless env s w (write_error status code, s, w)"
  "write_admitted env s \<Longrightarrow> harmless env s w (write_error status code, stamped env s, w)"
  "harmless env s w (method_not_allowed ms, s, w)" "harmless env s w (too_soon env s, s, w)"
  unfolding harmless_def by (auto simp: reply_simps too_soon_def)

lemma serve_ops:
  "serve (Put_Profile v) = set_profile v" "serve (Put_Fans f b) = set_fans f b"
  "serve (Put_Boolean n x b) = set_boolean n x b" "serve (Put_Usb i) = set_usb_charging i"
  "serve (Put_Zone z) = set_per_zone z" "serve (Put_Effect e) = set_effect e"
  by (intro ext, simp)+

lemmas mutation_defs = prepare_mutation_cases harmless_error serve_ops

interpretation profile_handler: mutation_handler handle_profile asked_profile
  by unfold_locales (auto simp: handle_profile_def asked_profile_def mutation_defs split: option.splits)

interpretation zone_handler: mutation_handler handle_per_zone asked_zone
  by unfold_locales (auto simp: handle_per_zone_def asked_zone_def mutation_defs split: option.splits)

interpretation effect_handler: mutation_handler handle_effect asked_effect
  by unfold_locales (auto simp: handle_effect_def asked_effect_def mutation_defs split: option.splits)

interpretation fans_handler: mutation_handler handle_fans asked_fans
  by unfold_locales (auto simp: handle_fans_def asked_fans_def mutation_defs split: option.splits)

interpretation setting_handler: mutation_handler handle_setting asked_setting
  by unfold_locales
    (auto simp: handle_setting_def asked_setting_def mutation_defs Let_def split: option.splits if_splits)

section \<open>The gate\<close>

definition authenticated :: "environment \<Rightarrow> http_request \<Rightarrow> 'w server \<Rightarrow> bool" where
  "authenticated env r s \<longleftrightarrow>
     \<not> setup_required s \<and>
     (\<exists>token. request_cookie r session_cookie = Some token \<and>
        validate_token (sv_sessions s) token (env_now env) = Inr (ses_username (sv_sessions s)))"

lemma require_auth_cases:
  "require_auth h env r s w =
     (if setup_required s then (write_error 403 ''setup_required'', s, w)
      else if authenticated env r s then h env r s w
      else (write_error 401 ''unauthorized'', s, w))"
proof (cases "request_cookie r session_cookie")
  case None
  then show ?thesis by (simp add: require_auth_def authenticated_def)
next
  case (Some token)
  consider "validate_token (sv_sessions s) token (env_now env) = Inl ErrInvalidToken"
    | "validate_token (sv_sessions s) token (env_now env) = Inr (ses_username (sv_sessions s))"
    using validate_token_error [of "sv_sessions s" token "env_now env"] by blast
  then show ?thesis by cases (simp_all add: require_auth_def authenticated_def Some)
qed

section \<open>Choosing a handler\<close>

lemma mux_target_member: "mux_target mux r = Handler h \<Longrightarrow> \<exists>p. (p, h) \<in> set mux"
proof -
  assume target: "mux_target mux r = Handler h"
  then obtain p where "mux_match mux p = Some h"
    by (auto simp: mux_target_def Let_def split: if_splits option.splits)
  then obtain e where "find (\<lambda>e. pattern_fits (path_segments p) (fst e)) mux = Some e" "h = snd e"
    by (auto simp: mux_match_def split: if_splits)
  then have "e \<in> set mux" by (auto simp: find_Some_iff)
  with \<open>h = snd e\<close> show ?thesis by (metis prod.collapse)
qed

text \<open>The writing operation that a request asks for: its route and its body.\<close>

definition mutations :: "('w handler \<times> (http_request \<Rightarrow> request option)) list" where
  "mutations =
     [(handle_profile, asked_profile), (handle_fans, asked_fans), (handle_setting, asked_setting),
      (handle_per_zone, asked_zone), (handle_effect, asked_effect)]"

lemma mutations_handlers: "(h, asked) \<in> set mutations \<Longrightarrow> mutation_handler h asked"
  unfolding mutations_def
  by (auto intro: profile_handler.mutation_handler_axioms fans_handler.mutation_handler_axioms
      setting_handler.mutation_handler_axioms zone_handler.mutation_handler_axioms effect_handler.mutation_handler_axioms)

text \<open>The routes: open ones, and gated ones that read or write.\<close>

lemma routes_cases:
  assumes "mux_target routes r = Handler h"
  shows "h \<in> {handle_setup, handle_login, handle_static} \<or>
    h \<in> require_auth ` {handle_logout, handle_state, handle_websocket} \<or> h \<in> require_auth ` fst ` set mutations"
  using mux_target_member [OF assms] by (auto simp: routes_def mutations_def)

section \<open>What a request can do\<close>

fun reveals :: "reply_body \<Rightarrow> bool" where
  "reveals (State_Body _) = True"
| "reveals (Switched_Body _) = True"
| "reveals _ = False"

text \<open>The credentials after a request: those of a setup, or the ones before.\<close>

definition setup_change :: "environment \<Rightarrow> setup_shared \<Rightarrow> setup_shared \<Rightarrow> bool" where
  "setup_change env sh sh' \<longleftrightarrow>
     sh' = sh \<or> (\<exists>req result. perform_setup req (env_salt env) (env_save env) sh = (result, sh'))"

lemma setup_change_intros [intro]:
  "setup_change env sh sh" "perform_setup req (env_salt env) (env_save env) sh = (result, sh') \<Longrightarrow> setup_change env sh sh'"
  by (auto simp: setup_change_def)

text \<open>
  A cookie that a reply sets is confined to the site and to HTTP, and it holds a new session, once
  there is a password, or removes the session.
\<close>

definition cookie_ok :: "environment \<Rightarrow> 'w server \<Rightarrow> 'w server \<Rightarrow> cookie \<Rightarrow> bool" where
  "cookie_ok env s s' c \<longleftrightarrow>
     ck_name c = session_cookie \<and> ck_http_only c \<and> ck_strict c \<and> ck_secure c = sv_secure s \<and>
     (case ck_expires c of
        None \<Rightarrow> ck_value c = [] \<and> ck_max_age c < 0
      | Some expires \<Rightarrow>
          new_token (sv_sessions s) (env_nonce env) (env_now env) = Inr (ck_value c, expires) \<and> \<not> setup_required s')"

text \<open>Replies that show nothing of the hardware and touch at most logins and credentials.\<close>

definition quiet :: "environment \<Rightarrow> 'w server \<Rightarrow> 'w \<Rightarrow> 'w answer \<Rightarrow> bool" where
  "quiet env s w a \<longleftrightarrow>
     (case a of (rep, s', w') \<Rightarrow>
        w' = w \<and> s' = s\<lparr>sv_logins := sv_logins s', sv_setup := sv_setup s'\<rparr> \<and>
        setup_change env (sv_setup s) (sv_setup s') \<and>
        \<not> reveals (rp_body rep) \<and> (\<forall>c\<in>set (rp_cookies rep). cookie_ok env s s' c))"

lemma quietD:
  "quiet env s w (rep, s', w') \<Longrightarrow>
   \<exists>logins setup. s' = s\<lparr>sv_logins := logins, sv_setup := setup\<rparr> \<and> setup_change env (sv_setup s) setup \<and>
     w' = w \<and> \<not> reveals (rp_body rep) \<and> (\<forall>c\<in>set (rp_cookies rep). cookie_ok env s s' c)"
  unfolding quiet_def prod.case by blast

lemma plain_replies [simp]:
  "\<not> reveals (rp_body (write_error status code))" "rp_cookies (write_error status code) = []"
  "\<not> reveals (rp_body (method_not_allowed ms))" "rp_cookies (method_not_allowed ms) = []"
  "\<not> reveals (rp_body (plain_reply status))" "rp_cookies (plain_reply status) = []"
  "\<not> reveals (rp_body (issue_session env u s))" "rp_body (write_json status body) = body" "rp_cookies (write_json status body) = []"
  "rp_body (add_header n v rep) = rp_body rep" "rp_cookies (add_header n v rep) = rp_cookies rep"
  by (auto simp: reply_simps issue_session_def split: sum.split prod.split)

lemma file_server_plain [simp]: "\<not> reveals (rp_body (file_server p))" "rp_cookies (file_server p) = []"
  by (simp_all add: file_server_def Let_def plain_reply_def)

lemma quiet_unchanged [simp]: "\<not> reveals (rp_body rep) \<Longrightarrow> rp_cookies rep = [] \<Longrightarrow> quiet env s w (rep, s, w)"
  by (auto simp: quiet_def)

lemma issue_session_cookie:
  assumes "c \<in> set (rp_cookies (issue_session env u s0))" "sv_sessions s0 = sv_sessions s" "sv_secure s0 = sv_secure s"
    "\<not> setup_required s'"
  shows "cookie_ok env s s' c"
  using assms by (auto simp: issue_session_def cookie_ok_def split: sum.splits prod.splits)

lemma perform_setup_sets_password:
  "perform_setup req random os_ok sh = (Setup_Done u h, sh') \<Longrightarrow> su_hash sh' \<noteq> []"
proof -
  assume "perform_setup req random os_ok sh = (Setup_Done u h, sh')"
  then have "su_hash sh' = h \<and> validate_password_hash h = None"
    by (auto simp: perform_setup_def setup_check_def setup_decide_def setup_save_def setup_commit_def Let_def
        split: if_splits option.splits sum.splits)
  moreover have "validate_password_hash [] \<noteq> None" by (simp add: validate_password_hash_iff well_formed_hash_def)
  ultimately show ?thesis by auto
qed

lemma quiet_perform_setup: "quiet env s w (handle_perform_setup env r s w)"
  using perform_setup_sets_password
  by (auto simp: handle_perform_setup_def quiet_def Let_def setup_required_def
      split: prod.split option.split setup_result.split intro!: issue_session_cookie)

lemma quiet_login: "quiet env s w (handle_login env r s w)"
  by (auto simp: handle_login_def quiet_def Let_def credentials_def setup_required_def
      split: prod.split option.split intro!: issue_session_cookie)

lemma quiet_open:
  "quiet env s w (handle_setup env r s w)" "quiet env s w (handle_static env r s w)" "quiet env s w (handle_logout env r s w)"
  using quiet_perform_setup [of env s w r]
  by (auto simp: handle_setup_def handle_static_def Let_def) (auto simp: handle_logout_def quiet_def cookie_ok_def)

lemma serve_http_cases:
  fixes s :: "'w server"
  obtains (quiet) a where "serve_http env r s w = secured s a" "quiet env s w a"
  | (state) "authenticated env r s" "serve_http env r s w = secured s (handle_state env r s w)"
  | (websocket) "authenticated env r s" "serve_http env r s w = secured s (handle_websocket env r s w)"
  | (refused) a where "authenticated env r s" "serve_http env r s w = secured s a" "harmless env s w a"
  | (performed) h :: "'w handler" and asked op where "authenticated env r s" "mux_target routes r = Handler (require_auth h)"
      "(h, asked) \<in> set mutations" "op \<noteq> Get_State" "rq_method r = ''PUT''" "valid_mutation r"
      "asked r = Some op" "write_admitted env s"
      "serve_http env r s w = secured s (operate (serve op) env (stamped env s) w)"
proof -
  show thesis
  proof (cases "mux_target routes r :: 'w handler mux_target")
    case (Handler h)
    have serve: "serve_http env r s w = secured s (h env r s w)" by (simp add: serve_http_def Handler)
    have gated: "authenticated env r s \<and> serve_http env r s w = secured s (g env r s w) \<or>
        (\<exists>a. serve_http env r s w = secured s a \<and> quiet env s w a)" if "h = require_auth g" for g
    proof (cases "authenticated env r s")
      case True
      then have "\<not> setup_required s" by (simp add: authenticated_def)
      with True serve show ?thesis unfolding that require_auth_cases by simp
    next
      case False
      have "\<exists>status code. h env r s w = (write_error status code, s, w)"
        using False by (auto simp: that require_auth_cases)
      then obtain status code where "h env r s w = (write_error status code, s, w)" by blast
      moreover have "quiet env s w (write_error status code, s, w)" by simp
      ultimately show ?thesis using serve by metis
    qed
    consider "h \<in> {handle_setup, handle_login, handle_static}"
      | g where "h = require_auth g" "g \<in> {handle_logout, handle_state, handle_websocket}"
      | g asked where "h = require_auth g" "(g, asked) \<in> set mutations"
      using routes_cases [OF Handler] by fastforce
    then show thesis
    proof cases
      case 1
      then have "quiet env s w (h env r s w)" using quiet_open quiet_login by auto
      with serve show thesis by (rule that(1))
    next
      case (2 g)
      with gated [of g] quiet_open(3) [of env s w r] show thesis
        by (auto intro: that(1) that(2) that(3))
    next
      case (3 g asked)
      from gated [OF 3(1)] mutation_handler.handled [OF mutations_handlers [OF 3(2)], of env s w r] show thesis
        using Handler 3 by (auto intro: that(1) that(4) that(5))
    qed
  next
    case Redirect
    have "quiet env s w (plain_reply 301, s, w)" by simp
    then show thesis by (rule that(1) [rotated]) (simp add: serve_http_def Redirect)
  next
    case No_Handler
    have "quiet env s w (plain_reply 404, s, w)" by simp
    then show thesis by (rule that(1) [rotated]) (simp add: serve_http_def No_Handler)
  qed
qed

end
