(* ===== verification/Server_Runs.thy ===== *)
theory Server_Runs
  imports Server_Laws
begin

text \<open>
  Histories of the HTTP server. An event is a request, a tick of the telemetry, a change of the
  hardware on its own, or what a WebSocket client sends until its connection ends. The section
  on replies says which requests change the hardware and see its state; the invariant of the
  server is kept by every event.
\<close>

section \<open>Single requests\<close>

definition dressed :: "'w server \<Rightarrow> reply \<Rightarrow> reply" where
  "dressed s rep = rep\<lparr>rp_headers := security_headers (sv_secure s) ++ rp_headers rep\<rparr>"

lemma dressed_simps [simp]:
  "rp_status (dressed s rep) = rp_status rep" "rp_body (dressed s rep) = rp_body rep"
  "rp_cookies (dressed s rep) = rp_cookies rep"
  by (simp_all add: dressed_def)

lemma secured_eq: "(rep, s', w') = secured s a \<longleftrightarrow> (\<exists>rep0. a = (rep0, s', w') \<and> rep = dressed s rep0)"
  by (cases a) (auto simp: secured_def dressed_def)

lemma serve_http_elim:
  fixes s :: "'w server"
  assumes "serve_http env r s w = (rep, s', w')"
  obtains (quiet) rep0 where "rep = dressed s rep0" "quiet env s w (rep0, s', w')"
  | (state) rep0 where "rep = dressed s rep0" "authenticated env r s" "handle_state env r s w = (rep0, s', w')"
  | (websocket) rep0 where "rep = dressed s rep0" "authenticated env r s" "handle_websocket env r s w = (rep0, s', w')"
  | (refused) rep0 where "rep = dressed s rep0" "authenticated env r s" "harmless env s w (rep0, s', w')"
  | (performed) rep0 and h :: "'w handler" and asked op where "rep = dressed s rep0" "authenticated env r s"
      "mux_target routes r = Handler (require_auth h)" "(h, asked) \<in> set mutations" "op \<noteq> Get_State"
      "rq_method r = ''PUT''" "valid_mutation r" "asked r = Some op" "write_admitted env s"
      "operate (serve op) env (stamped env s) w = (rep0, s', w')"
proof (cases rule: serve_http_cases [of env r s w])
  case (quiet a)
  from this(1) obtain rep0 where "a = (rep0, s', w')" "rep = dressed s rep0" unfolding assms secured_eq by blast
  with quiet(2) show thesis by (intro that(1)) simp_all
next
  case state
  from this(2) obtain rep0 where "handle_state env r s w = (rep0, s', w')" "rep = dressed s rep0"
    unfolding assms secured_eq by blast
  with state(1) show thesis by (intro that(2))
next
  case websocket
  from this(2) obtain rep0 where "handle_websocket env r s w = (rep0, s', w')" "rep = dressed s rep0"
    unfolding assms secured_eq by blast
  with websocket(1) show thesis by (intro that(3))
next
  case (refused a)
  from this(2) obtain rep0 where "a = (rep0, s', w')" "rep = dressed s rep0" unfolding assms secured_eq by blast
  with refused(1,3) show thesis by (intro that(4)) simp_all
next
  case (performed h asked op)
  from this(9) obtain rep0 where "operate (serve op) env (stamped env s) w = (rep0, s', w')" "rep = dressed s rep0"
    unfolding assms secured_eq by blast
  from that(5) [OF this(2) performed(1-8) this(1)] show thesis .
qed

lemma handle_state_cases:
  obtains (wrong) rep where "handle_state env r s w = (rep, s, w)" "rq_method r \<noteq> ''GET''" "\<not> reveals (rp_body rep)"
  | (state) st c where "rq_method r = ''GET''" "snapshot (sv_controller s) w (env_now env) = (Inr st, c)"
      "handle_state env r s w = (write_json 200 (State_Body st), s\<lparr>sv_controller := c\<rparr>, w)"
proof (cases "rq_method r = ''GET''")
  case True
  obtain st c where "snapshot (sv_controller s) w (env_now env) = (Inr st, c)"
    using snapshot_total [of "sv_controller s" w "env_now env"] by blast
  with True show thesis by (intro that(2)) (simp_all add: handle_state_def)
qed (simp add: that(1) handle_state_def)

lemma handle_websocket_cases:
  obtains (error) rep where "handle_websocket env r s w = (rep, s, w)" "\<not> reveals (rp_body rep)"
  | (joined) c i h st ctl where "same_origin r" "upgrade r (env_hijack env) = Inr c" "hub_add c (sv_hub s) = (i, h)"
      "snapshot (sv_controller s) w (env_now env) = (Inr st, ctl)"
      "handle_websocket env r s w = ((plain_reply 101)\<lparr>rp_body := Switched_Body i\<rparr>,
         s\<lparr>sv_hub := snd (hub_write i text_op (payload_of st) h), sv_controller := ctl\<rparr>, w)"
proof -
  obtain st ctl where snap: "snapshot (sv_controller s) w (env_now env) = (Inr st, ctl)"
    using snapshot_total [of "sv_controller s" w "env_now env"] by blast
  consider rep where "handle_websocket env r s w = (rep, s, w)" "\<not> reveals (rp_body rep)"
    | c where "same_origin r" "upgrade r (env_hijack env) = Inr c"
  proof (cases "same_origin r")
    case False
    then show ?thesis by (intro that(1)) (auto simp: handle_websocket_def)
  next
    case True
    then show ?thesis
    proof (cases "upgrade r (env_hijack env)")
      case (Inl e)
      with True show ?thesis by (cases e) (auto simp: handle_websocket_def intro: that(1))
    qed (rule that(2))
  qed
  then show thesis
  proof cases
    case (2 c)
    obtain i h where "hub_add c (sv_hub s) = (i, h)" by fastforce
    with 2 snap show thesis by (intro that(2)) (auto simp: handle_websocket_def)
  qed (rule that(1))
qed

lemma operate_cases:
  assumes "operate (serve op) env s w = (rep, s', w')"
  obtains (refused) e c where "serve op (sv_controller s) w (env_now env) = (Inl e, c, w')"
      "rep = error_reply e" "s' = s\<lparr>sv_controller := c\<rparr>"
  | (answered) st c where "serve op (sv_controller s) w (env_now env) = (Inr st, c, w')"
      "rep = write_json 200 (State_Body st)"
      "s' = s\<lparr>sv_controller := c, sv_hub := broadcast (payload_of st) (sv_hub s)\<rparr>"
proof -
  obtain res c w1 where run: "serve op (sv_controller s) w (env_now env) = (res, c, w1)" by (metis surj_pair)
  with assms show thesis
    by (cases res) (auto simp: operate_def finish_mutation_def intro: that)
qed

lemma error_reply_body [simp]: "\<not> reveals (rp_body (error_reply e))"
  by (simp add: error_reply_def)

text \<open>The parts of the server that no request changes, and when its last write moves.\<close>

definition same_config :: "'w server \<Rightarrow> 'w server \<Rightarrow> bool" where
  "same_config s s' \<longleftrightarrow>
     sv_sessions s' = sv_sessions s \<and> sv_secure s' = sv_secure s \<and> sv_interval s' = sv_interval s \<and>
     sv_telemetry s' = sv_telemetry s"

lemma serve_http_frame:
  assumes "serve_http env r s w = (rep, s', w')"
  shows "same_config s s' \<and>
    (if w' \<noteq> w then write_admitted env s \<and> sv_last_write s' = env_now env
     else sv_last_write s' = sv_last_write s \<or> write_admitted env s \<and> sv_last_write s' = env_now env)"
  using assms
proof (cases rule: serve_http_elim)
  case (quiet rep0)
  then show ?thesis by (auto simp: same_config_def dest!: quietD)
next
  case (state rep0)
  from state(3) show ?thesis
    by (cases rule: handle_state_cases [of env r s w]) (auto simp: same_config_def)
next
  case (websocket rep0)
  from websocket(3) show ?thesis
    by (cases rule: handle_websocket_cases [of env r s w]) (auto simp: same_config_def)
next
  case (refused rep0)
  then show ?thesis by (auto simp: harmless_def same_config_def stamped_def)
next
  case (performed rep0 h asked op)
  from performed(10,9) show ?thesis
    by (cases rule: operate_cases) (auto simp: same_config_def stamped_def)
qed

text \<open>Replies and the hub: what is reported is in range, and the invariants are kept.\<close>

definition proper_env :: "environment \<Rightarrow> bool" where
  "proper_env env \<longleftrightarrow>
     (case env_salt env of None \<Rightarrow> True | Some salt \<Rightarrow> length salt = salt_bytes) \<and>
     (case env_nonce env of None \<Rightarrow> True | Some nonce \<Rightarrow> length nonce = 18) \<and>
     (case env_hijack env of None \<Rightarrow> True | Some c \<Rightarrow> conn_open c)"

text \<open>Either no password is set, or one is set that verifies something and the token is gone.\<close>

definition setup_ok :: "setup_shared \<Rightarrow> bool" where
  "setup_ok sh \<longleftrightarrow> su_hash sh = [] \<or> su_token sh = [] \<and> validate_password_hash (su_hash sh) = None"

definition server_inv :: "'w fs_ops \<Rightarrow> 'w server \<Rightarrow> bool" where
  "server_inv fs s \<longleftrightarrow>
     hub_ok (sv_hub s) \<and> setup_ok (sv_setup s) \<and>
     ctl_fs (sv_controller s) = fs \<and> ctl_slow_ttl (sv_controller s) = default_slow_ttl \<and>
     slow_in_range (ctl_slow (sv_controller s))"

lemma new_server_inv:
  assumes "new_server cf random stored c = Inr s0" "cf_hash cf = [] \<or> validate_password_hash (cf_hash cf) = None"
    "ctl_inv fs (c, w, t)"
  shows "server_inv fs s0"
  using assms by (auto simp: new_server_def server_inv_def setup_ok_def ctl_inv_def split: option.splits if_splits)

lemma perform_setup_ok: "setup_ok sh \<Longrightarrow> perform_setup req random os_ok sh = (result, sh') \<Longrightarrow> setup_ok sh'"
  by (auto simp: perform_setup_def setup_check_def setup_decide_def setup_save_def setup_commit_def Let_def setup_ok_def
      split: if_splits option.splits sum.splits)

lemma perform_setup_keeps_password: "su_hash sh \<noteq> [] \<Longrightarrow> perform_setup req random os_ok sh = (result, sh') \<Longrightarrow> sh' = sh"
  by (auto simp: perform_setup_def setup_check_def)

lemma setup_change_ok: "setup_change env sh sh' \<Longrightarrow> setup_ok sh \<Longrightarrow> setup_ok sh'"
  by (auto simp: setup_change_def dest: perform_setup_ok)

lemma setup_change_keeps_password: "setup_change env sh sh' \<Longrightarrow> su_hash sh \<noteq> [] \<Longrightarrow> sh' = sh"
  by (auto simp: setup_change_def dest: perform_setup_keeps_password)

lemma upgrade_open:
  assumes "upgrade r hijack = Inr c" shows "\<exists>c0. hijack = Some c0 \<and> conn_open c = conn_open c0"
proof -
  obtain key c0 where "hijack = Some c0" "conn_write (handshake key) c0 = (True, c)"
    using assms by (auto simp: upgrade_def Let_def split: if_splits option.splits prod.splits bool.splits)
  with conn_write_open [of "handshake key" c0] show ?thesis by auto
qed

lemma server_inv_update:
  assumes "server_inv fs s" "hub_ok h" "ctl_fs c = fs" "ctl_slow_ttl c = default_slow_ttl" "slow_in_range (ctl_slow c)"
    "setup_ok x"
  shows "server_inv fs (s\<lparr>sv_controller := c, sv_hub := h, sv_setup := x\<rparr>)"
  using assms by (simp add: server_inv_def)

lemma snapshot_inv:
  assumes "server_inv fs s" "snapshot (sv_controller s) w now = (Inr st, c)"
  shows "state_in_range st \<and> ctl_fs c = fs \<and> ctl_slow_ttl c = default_slow_ttl \<and> slow_in_range (ctl_slow c)"
  using snapshot_in_range [OF assms(2)] snapshot_frame [OF assms(2)] assms(1) by (simp add: server_inv_def)

theorem serve_http_inv:
  assumes "serve_http env r s w = (rep, s', w')" "server_inv fs s" "proper_env env"
  shows "server_inv fs s' \<and> (\<forall>st. rp_body rep = State_Body st \<longrightarrow> state_in_range st) \<and>
    (su_hash (sv_setup s) \<noteq> [] \<longrightarrow> sv_setup s' = sv_setup s)"
  using assms(1)
proof (cases rule: serve_http_elim)
  case (quiet rep0)
  with assms(2) show ?thesis
    by (auto simp: server_inv_def dest!: quietD dest: setup_change_ok setup_change_keeps_password)
next
  case (state rep0)
  from state(3) show ?thesis
  proof (cases rule: handle_state_cases [of env r s w])
    case (state st c)
    with snapshot_inv [OF assms(2) state(2)] assms(2) \<open>rep = dressed s rep0\<close> \<open>handle_state env r s w = (rep0, s', w')\<close>
    show ?thesis by (auto simp: server_inv_def write_json_def)
  qed (use assms(2) state(1) in auto)
next
  case (websocket rep0)
  from websocket(3) show ?thesis
  proof (cases rule: handle_websocket_cases [of env r s w])
    case (joined c i h st ctl)
    have "conn_open c" using upgrade_open [OF joined(2)] assms(3) by (auto simp: proper_env_def)
    then have "hub_ok h" using hub_ok_add [of "sv_hub s" c] joined(3) assms(2) by (simp add: server_inv_def)
    with snapshot_inv [OF assms(2) joined(4)] joined(5) websocket(1,3) assms(2) show ?thesis
      by (auto simp: server_inv_def hub_ok_write)
  qed (use assms(2) websocket(1) in auto)
next
  case (refused rep0)
  with assms(2) show ?thesis by (auto simp: harmless_def server_inv_def stamped_def)
next
  case (performed rep0 h asked op)
  from performed(10) show ?thesis
  proof (cases rule: operate_cases)
    case (refused e c)
    with serve_in_range [OF refused(1)] assms(2) performed(1) show ?thesis
      by (auto simp: server_inv_def stamped_def error_reply_def write_error_def write_json_def split: if_splits)
  next
    case (answered st c)
    with serve_in_range [OF answered(1)] assms(2) performed(1) show ?thesis
      by (auto simp: server_inv_def stamped_def write_json_def hub_ok_broadcast)
  qed
qed

section \<open>Histories\<close>

datatype 'w server_event =
    Http environment http_request
  | Tick time
  | Machine 'w
  | Incoming nat bytes

fun after_event :: "'w server_event \<Rightarrow> 'w server \<times> 'w \<Rightarrow> 'w server \<times> 'w" where
  "after_event (Http env r) (s, w) = snd (serve_http env r s w)"
| "after_event (Tick now) (s, w) = (snd (broadcast_state s w now), w)"
| "after_event (Machine w') (s, w) = (s, w')"
| "after_event (Incoming i bs) (s, w) =
     (if i \<in> set (hub_clients (sv_hub s)) then (s\<lparr>sv_hub := snd (client_loop i bs (sv_hub s))\<rparr>, w) else (s, w))"

fun proper_event :: "'w server_event \<Rightarrow> bool" where
  "proper_event (Http env r) \<longleftrightarrow> proper_env env"
| "proper_event _ \<longleftrightarrow> True"

text \<open>What a reply or a push shows in one event.\<close>

fun event_reply :: "'w server_event \<Rightarrow> 'w server \<times> 'w \<Rightarrow> reply option" where
  "event_reply (Http env r) (s, w) = Some (fst (serve_http env r s w))"
| "event_reply _ _ = None"

lemma broadcast_state_inv:
  "server_inv fs s \<Longrightarrow> server_inv fs (snd (broadcast_state s w now)) \<and>
   same_config s (snd (broadcast_state s w now)) \<and>
   sv_last_write (snd (broadcast_state s w now)) = sv_last_write s \<and>
   sv_setup (snd (broadcast_state s w now)) = sv_setup s"
proof -
  assume inv: "server_inv fs s"
  obtain st c where snap: "snapshot (sv_controller s) w now = (Inr st, c)"
    using snapshot_total [of "sv_controller s" w now] by blast
  have "\<exists>line. log_degraded (st_degraded st) (s\<lparr>sv_controller := c\<rparr>) =
      (line, s\<lparr>sv_controller := c, sv_degraded := join '','' (st_degraded st)\<rparr>)"
    by (auto simp: log_degraded_def Let_def)
  then obtain line where log: "log_degraded (st_degraded st) (s\<lparr>sv_controller := c\<rparr>) =
      (line, s\<lparr>sv_controller := c, sv_degraded := join '','' (st_degraded st)\<rparr>)" by blast
  show ?thesis
  proof (cases "has_clients (sv_hub s)")
    case True
    define h where "h = (case marshal_state st of None \<Rightarrow> sv_hub s | Some payload \<Rightarrow> broadcast payload (sv_hub s))"
    have "snd (broadcast_state s w now) = s\<lparr>sv_controller := c, sv_degraded := join '','' (st_degraded st), sv_hub := h\<rparr>"
      using True by (cases "marshal_state st"; intro server.equality) (simp_all add: broadcast_state_def snap log h_def)
    moreover have "hub_ok h"
      using inv by (cases "marshal_state st") (simp_all add: h_def server_inv_def hub_ok_broadcast)
    ultimately show ?thesis
      using snapshot_inv [OF inv snap] inv by (simp add: same_config_def server_inv_def)
  next
    case False
    with inv show ?thesis by (simp add: broadcast_state_def same_config_def)
  qed
qed

text \<open>The times at which requests change the hardware, over a history.\<close>

fun change_times :: "'w server_event list \<Rightarrow> 'w server \<times> 'w \<Rightarrow> time list" where
  "change_times [] cfg = []"
| "change_times (ev # evs) cfg =
     (case ev of
        Http env r \<Rightarrow>
          if snd (after_event ev cfg) \<noteq> snd cfg then env_now env # change_times evs (after_event ev cfg)
          else change_times evs (after_event ev cfg)
      | _ \<Rightarrow> change_times evs (after_event ev cfg))"

fun event_time :: "'w server_event \<Rightarrow> time" where
  "event_time (Http env r) = env_now env"
| "event_time _ = 1"

lemma same_config_trans: "same_config s s' \<Longrightarrow> same_config s' s'' \<Longrightarrow> same_config s s''"
  by (simp add: same_config_def)

lemma after_event_inv:
  assumes "server_inv fs s" "proper_event ev" "after_event ev (s, w) = (s', w')"
  shows "server_inv fs s' \<and> (su_hash (sv_setup s) \<noteq> [] \<longrightarrow> sv_setup s' = sv_setup s) \<and> same_config s s'"
proof (cases ev)
  case (Http env r)
  obtain rep where "serve_http env r s w = (rep, s', w')"
    using assms(3) Http by (cases "serve_http env r s w") auto
  from serve_http_inv [OF this assms(1)] serve_http_frame [OF this] assms(2) Http show ?thesis by simp
next
  case (Tick now)
  with assms broadcast_state_inv [OF assms(1), of w now] show ?thesis by auto
next
  case (Machine v)
  with assms show ?thesis by (auto simp: same_config_def)
next
  case (Incoming i bs)
  with assms show ?thesis
    by (auto simp: same_config_def server_inv_def hub_ok_client_loop split: if_splits)
qed

lemma after_events_inv:
  assumes "server_inv fs s" "list_all proper_event evs" "fold after_event evs (s, w) = (s', w')"
  shows "server_inv fs s' \<and> same_config s s' \<and> (su_hash (sv_setup s) \<noteq> [] \<longrightarrow> sv_setup s' = sv_setup s)"
  using assms
proof (induction evs arbitrary: s w)
  case (Cons ev evs)
  obtain s1 w1 where after: "after_event ev (s, w) = (s1, w1)" by fastforce
  from after_event_inv [OF Cons.prems(1) _ after] Cons.prems(2)
    have one: "server_inv fs s1" "same_config s s1" "su_hash (sv_setup s) \<noteq> [] \<longrightarrow> sv_setup s1 = sv_setup s"
    by simp_all
  from Cons.IH [OF one(1)] Cons.prems(2,3) after one(2,3) show ?case by (auto intro: same_config_trans)
qed (simp add: same_config_def)

inductive server_reachable :: "'w server \<Rightarrow> 'w server \<times> 'w \<Rightarrow> bool" for s0 where
  start: "server_reachable s0 (s0, w)"
| step: "server_reachable s0 cfg \<Longrightarrow> proper_event ev \<Longrightarrow> server_reachable s0 (after_event ev cfg)"

lemma server_reachable_inv:
  assumes "server_reachable s0 cfg" "server_inv fs s0"
  shows "server_inv fs (fst cfg) \<and> same_config s0 (fst cfg) \<and>
    (su_hash (sv_setup s0) \<noteq> [] \<longrightarrow> sv_setup (fst cfg) = sv_setup s0)"
  using assms
proof (induction rule: server_reachable.induct)
  case (step cfg ev)
  obtain s w where cfg: "cfg = (s, w)" by fastforce
  obtain s' w' where after: "after_event ev (s, w) = (s', w')" by fastforce
  have old: "server_inv fs s" "same_config s0 s" "su_hash (sv_setup s0) \<noteq> [] \<longrightarrow> sv_setup s = sv_setup s0"
    using step.IH [OF step.prems] by (simp_all add: cfg)
  from after_event_inv [OF old(1) step.hyps(2) after] old(2,3) show ?case
    unfolding cfg after fst_conv by (metis same_config_trans)
qed (simp add: same_config_def)

text \<open>Requests change the hardware no more often than the write interval.\<close>

lemma last_write_after:
  assumes "after_event ev (s, w) = (s', w')" "server_inv fs s"
  shows "sv_interval s' = sv_interval s \<and>
    (case ev of
       Http env r \<Rightarrow>
         if w' \<noteq> w then write_admitted env s \<and> sv_last_write s' = env_now env
         else sv_last_write s' = sv_last_write s \<or> write_admitted env s \<and> sv_last_write s' = env_now env
     | _ \<Rightarrow> sv_last_write s' = sv_last_write s)"
proof (cases ev)
  case (Http env r)
  then show ?thesis
    using assms(1) serve_http_frame [of env r s w "fst (serve_http env r s w)" s' w']
    by (auto simp: same_config_def) (metis prod.collapse snd_conv)+
next
  case (Tick now)
  with assms(1) broadcast_state_inv [OF assms(2), of w now] show ?thesis by (auto simp: same_config_def)
qed (use assms(1) in \<open>auto split: if_splits\<close>)

lemma write_admitted_iff:
  "proper_interval (sv_interval s) \<Longrightarrow>
   write_admitted env s \<longleftrightarrow> sv_last_write s = 0 \<or> sv_last_write s + sv_interval s \<le> env_now env"
  by (simp add: write_admitted_def write_allow_iff)

text \<open>Every later change lies at least the interval after the last admitted write.\<close>

lemma change_times_later:
  assumes "server_inv fs s" "list_all proper_event evs" "proper_interval (sv_interval s)"
    "list_all (\<lambda>ev. event_time ev \<noteq> 0) evs"
  shows "\<forall>t\<in>set (change_times evs (s, w)). sv_last_write s = 0 \<or> sv_last_write s + sv_interval s \<le> t"
  using assms
proof (induction evs arbitrary: s w)
  case (Cons ev evs)
  obtain s' w' where after: "after_event ev (s, w) = (s', w')" by fastforce
  have inv: "server_inv fs s'" using after_event_inv [OF Cons.prems(1) _ after] Cons.prems(2) by simp
  note moved = last_write_after [OF after Cons.prems(1)]
  have IH: "\<forall>t\<in>set (change_times evs (s', w')). sv_last_write s' = 0 \<or> sv_last_write s' + sv_interval s \<le> t"
    using Cons.IH [OF inv, of w'] Cons.prems moved by simp
  have d: "0 < sv_interval s" using Cons.prems(3) by (simp add: proper_interval_def)
  show ?case
  proof (cases ev)
    case (Http env r)
    have now: "env_now env \<noteq> 0" using Cons.prems(4) Http by simp
    note adm = write_admitted_iff [OF Cons.prems(3), of env]
    have later: "sv_last_write s = 0 \<or> sv_last_write s + sv_interval s \<le> t"
      if "t \<in> set (change_times evs (s', w'))" for t
      using IH [rule_format, OF that] moved adm now d Http by (auto split: if_splits)
    show ?thesis
      using later moved adm Http after by (auto split: if_splits)
  next
    case (Tick now)
    with IH moved show ?thesis by (simp add: after [unfolded Tick] del: after_event.simps)
  next
    case (Machine v)
    with IH moved show ?thesis by (simp add: after [unfolded Machine] del: after_event.simps)
  next
    case (Incoming i bs)
    with IH moved show ?thesis by (simp add: after [unfolded Incoming] del: after_event.simps)
  qed
qed simp

lemma change_times_spaced:
  assumes "server_inv fs s" "list_all proper_event evs" "proper_interval (sv_interval s)"
    "list_all (\<lambda>ev. event_time ev \<noteq> 0) evs"
  shows "spaced (sv_interval s) (change_times evs (s, w))"
  using assms
proof (induction evs arbitrary: s w)
  case (Cons ev evs)
  obtain s' w' where after: "after_event ev (s, w) = (s', w')" by fastforce
  have inv: "server_inv fs s'" using after_event_inv [OF Cons.prems(1) _ after] Cons.prems(2) by simp
  note moved = last_write_after [OF after Cons.prems(1)]
  have IH: "spaced (sv_interval s) (change_times evs (s', w'))"
    using Cons.IH [OF inv, of w'] Cons.prems moved by simp
  show ?case
  proof (cases "\<exists>env r. ev = Http env r \<and> w' \<noteq> w")
    case True
    then obtain env r where ev: "ev = Http env r" "w' \<noteq> w" by blast
    have "sv_last_write s' = env_now env" "env_now env \<noteq> 0" using moved ev Cons.prems(4) by auto
    then have "\<forall>t\<in>set (change_times evs (s', w')). env_now env + sv_interval s \<le> t"
      using change_times_later [OF inv, of evs w'] Cons.prems moved by simp
    then show ?thesis
      using IH ev after by (cases "change_times evs (s', w')") auto
  next
    case False
    with IH after show ?thesis by (cases ev) auto
  qed
qed simp

section \<open>What telemetry logs\<close>

text \<open>The degraded sections of the snapshots that telemetry takes.\<close>

fun polled :: "('w \<times> time) list \<Rightarrow> 'w server \<Rightarrow> bytes list list" where
  "polled [] s = []"
| "polled ((w, now) # ticks) s =
     (if has_clients (sv_hub s) then map st_degraded (case fst (snapshot (sv_controller s) w now) of Inl _ \<Rightarrow> [] | Inr st \<Rightarrow> [st]) else [])
     @ polled ticks (snd (broadcast_state s w now))"

definition degraded_line :: "bytes \<Rightarrow> bytes" where
  "degraded_line signature =
     (if signature = [] then ''all hardware sections readable again'' else ''degraded hardware sections: '' @ signature)"

lemma broadcast_state_log:
  assumes "snapshot (sv_controller s) w now = (Inr st, c)" "has_clients (sv_hub s)"
  shows "fst (broadcast_state s w now) =
      (if join '','' (st_degraded st) = sv_degraded s then None else Some (degraded_line (join '','' (st_degraded st))))"
    "sv_degraded (snd (broadcast_state s w now)) = join '','' (st_degraded st)"
  using assms by (simp_all add: broadcast_state_def log_degraded_def degraded_line_def Let_def split: option.split)

lemma run_telemetry_lines:
  "fst (run_telemetry ticks s) = map degraded_line (tl (remdups_adj (sv_degraded s # map (join '','') (polled ticks s))))"
proof (induction ticks s rule: run_telemetry.induct)
  case (2 w now ticks s)
  let ?s = "snd (broadcast_state s w now)"
  have ih: "fst (run_telemetry ticks ?s) = map degraded_line (tl (remdups_adj (sv_degraded ?s # map (join '','') (polled ticks ?s))))"
    by (rule "2.IH" [OF refl prod.collapse])
  have step: "fst (run_telemetry ((w, now) # ticks) s) =
      (case fst (broadcast_state s w now) of None \<Rightarrow> [] | Some l \<Rightarrow> [l]) @ fst (run_telemetry ticks ?s)"
    by (simp add: case_prod_beta Let_def split: option.split)
  obtain st c where snap: "snapshot (sv_controller s) w now = (Inr st, c)"
    using snapshot_total [of "sv_controller s" w now] by blast
  show ?case
  proof (cases "has_clients (sv_hub s)")
    case True
    note log = broadcast_state_log [OF snap True]
    have "polled ((w, now) # ticks) s = st_degraded st # polled ticks ?s" using True snap by simp
    then show ?thesis
      unfolding step ih log by (auto simp: remdups_adj_Cons split: list.split)
  next
    case False
    then have "broadcast_state s w now = (None, s)" by (simp add: broadcast_state_def)
    with step ih False show ?thesis by simp
  qed
qed simp

end
