(* ===== verification/Server_Properties.thy ===== *)
theory Server_Properties
  imports Server_Runs Fixture
begin

text \<open>
  The properties of the HTTP server: who can change the hardware and see its state, what the
  server answers, logins and their sessions, and what holds over every history of requests,
  ticks, clients and changes of the machine.
\<close>

section \<open>A session in a request\<close>

lemma token_is_cookie:
  assumes "new_token s nonce now = Inr (token, expires)"
  shows "list_all cookie_char token"
proof -
  obtain p q where token: "token = raw_url_encode p @ ''.'' @ raw_url_encode q"
    using assms by (auto simp: new_token_def Let_def split: option.splits)
  have plain: "cookie_char c" if "b64_plain c" for c
  proof -
    have c: "33 \<le> byte_of c" "byte_of c < 127" "c \<notin> {CHR 0x22, CHR '';'', CHR 0x5C}"
      using that unfolding b64_plain_def plain_char_def by blast+
    have "byte_of x < 33" if "http_space x" for x
      using that unfolding http_space_def by (elim insertE emptyE; hypsubst; simp)
    with c(1) have "\<not> http_space c" using not_less by blast
    moreover have "32 \<le> byte_of c" using c(1) by linarith
    ultimately show ?thesis using c(2,3) unfolding cookie_char_def cookie_byte_def by blast
  qed
  have "list_all cookie_char (raw_url_encode x)" for x
    using raw_url.encode_plain [THEN plain] by (simp add: list_all_iff)
  moreover have "cookie_char CHR ''.''" by (simp add: cookie_char_def cookie_byte_def http_space_def)
  ultimately show ?thesis unfolding token by simp
qed

lemma request_session_cookie:
  assumes "new_token s nonce now = Inr (token, expires)"
    and "header_list r ''Cookie'' = [session_cookie @ ''='' @ token]"
  shows "request_cookie r session_cookie = Some token"
proof (rule request_cookie_plain)
  show "header_list r ''Cookie'' = [session_cookie @ CHR ''='' # token]" using assms(2) by simp
  show "list_all cookie_char session_cookie" "CHR ''='' \<notin> set session_cookie" by code_simp+
qed (rule token_is_cookie [OF assms(1)])

text \<open>A token of the server's own sessions, in time, is what the gate asks for.\<close>

lemma authenticated_by_token:
  assumes "good_sessions (sv_sessions s)" "length nonce = 18"
    and "new_token (sv_sessions s) (Some nonce) now = Inr (token, expires)" "int64 (unix expires)"
    and "header_list r ''Cookie'' = [session_cookie @ ''='' @ token]"
    and "\<not> setup_required s" "unix (env_now env) < unix expires"
  shows "authenticated env r s"
proof -
  have "expires = now + ses_lifetime (sv_sessions s)" using assms(3) by (auto simp: new_token_def Let_def)
  with assms(4) have "int64 (unix (now + ses_lifetime (sv_sessions s)))" by simp
  from token_round_trip [OF assms(1) this assms(2,3)] request_session_cookie [OF assms(3,5)] assms(6,7)
  show ?thesis by (auto simp: authenticated_def)
qed

section \<open>Routes\<close>

text \<open>The paths that write, with what a request to each asks for.\<close>

definition setting_paths :: "bytes list" where
  "setting_paths = map (\<lambda>name. ''/api/settings/'' @ name)
     [''usb-charging'', ''battery-limiter'', ''battery-calibration'', ''backlight-timeout'', ''lcd-override'',
      ''boot-animation-sound'']"

definition mutation_paths :: "(bytes \<times> (http_request \<Rightarrow> request option)) list" where
  "mutation_paths =
     [(''/api/profile'', asked_profile), (''/api/fans'', asked_fans), (''/api/keyboard/per-zone'', asked_zone),
      (''/api/keyboard/effect'', asked_effect)] @ map (\<lambda>p. (p, asked_setting)) setting_paths"

lemma mux_target_exact:
  assumes "rq_escaped r = p" "clean_path p = p" "\<not> subtree_missing_slash mux p" "mux_match mux p = Some h"
  shows "mux_target mux r = Handler h"
  using assms by (auto simp: mux_target_def Let_def)

lemma clean_routes:
  "list_all (\<lambda>p. clean_path p = p)
     (''/api/login'' # ''/api/setup'' # ''/api/state'' # ''/api/profile'' # ''/api/fans'' # ''/api/keyboard/per-zone'' #
      ''/api/keyboard/effect'' # setting_paths)"
  by code_simp

lemma route_segments:
  "path_segments ''/api/login'' = [''api'', ''login'']" "path_segments ''/api/setup'' = [''api'', ''setup'']"
  "path_segments ''/api/state'' = [''api'', ''state'']" "path_segments ''/api/profile'' = [''api'', ''profile'']"
  "path_segments ''/api/fans'' = [''api'', ''fans'']"
  "path_segments ''/api/keyboard/per-zone'' = [''api'', ''keyboard'', ''per-zone'']"
  "path_segments ''/api/keyboard/effect'' = [''api'', ''keyboard'', ''effect'']"
  "p \<in> set setting_paths \<Longrightarrow> \<exists>name. path_segments p = [''api'', ''settings'', name]"
proof -
  have "list_all (\<lambda>p. take 2 (path_segments p) = [''api'', ''settings''] \<and> length (path_segments p) = 3) setting_paths"
    by code_simp
  then show "p \<in> set setting_paths \<Longrightarrow> \<exists>name. path_segments p = [''api'', ''settings'', name]"
    by (auto simp: list_all_iff length_Suc_conv numeral_3_eq_3)
qed code_simp+

lemmas mux_simps = mux_match_def subtree_missing_slash_def routes_def pattern_fits_def route_segments

lemma route_login: "rq_escaped r = ''/api/login'' \<Longrightarrow> mux_target routes r = Handler handle_login"
  by (rule mux_target_exact, assumption) (use clean_routes in \<open>simp_all add: mux_simps\<close>)

lemma route_state: "rq_escaped r = ''/api/state'' \<Longrightarrow> mux_target routes r = Handler (require_auth handle_state)"
  by (rule mux_target_exact, assumption) (use clean_routes in \<open>simp_all add: mux_simps\<close>)

lemma route_mutation:
  fixes r :: http_request
  assumes "(rq_escaped r, asked) \<in> set mutation_paths"
  obtains h :: "'w handler" where "mux_target routes r = Handler (require_auth h)" "(h, asked) \<in> set mutations"
proof -
  consider "rq_escaped r = ''/api/profile''" "asked = asked_profile" | "rq_escaped r = ''/api/fans''" "asked = asked_fans"
    | "rq_escaped r = ''/api/keyboard/per-zone''" "asked = asked_zone"
    | "rq_escaped r = ''/api/keyboard/effect''" "asked = asked_effect"
    | "rq_escaped r \<in> set setting_paths" "asked = asked_setting"
    using assms by (auto simp: mutation_paths_def)
  then show thesis
  proof cases
    case 1
    have "mux_target routes r = Handler (require_auth (handle_profile :: 'w handler))"
      by (rule mux_target_exact [OF 1(1)]) (use clean_routes in \<open>simp_all add: mux_simps\<close>)
    then show thesis by (rule that) (simp add: mutations_def 1)
  next
    case 2
    have "mux_target routes r = Handler (require_auth (handle_fans :: 'w handler))"
      by (rule mux_target_exact [OF 2(1)]) (use clean_routes in \<open>simp_all add: mux_simps\<close>)
    then show thesis by (rule that) (simp add: mutations_def 2)
  next
    case 3
    have "mux_target routes r = Handler (require_auth (handle_per_zone :: 'w handler))"
      by (rule mux_target_exact [OF 3(1)]) (use clean_routes in \<open>simp_all add: mux_simps\<close>)
    then show thesis by (rule that) (simp add: mutations_def 3)
  next
    case 4
    have "mux_target routes r = Handler (require_auth (handle_effect :: 'w handler))"
      by (rule mux_target_exact [OF 4(1)]) (use clean_routes in \<open>simp_all add: mux_simps\<close>)
    then show thesis by (rule that) (simp add: mutations_def 4)
  next
    case 5
    obtain name where segs: "path_segments (rq_escaped r) = [''api'', ''settings'', name]"
      using route_segments(8) [OF 5(1)] by blast
    have ne: "rq_escaped r \<noteq> []" using 5(1) by (auto simp: setting_paths_def)
    have "mux_target routes r = Handler (require_auth (handle_setting :: 'w handler))"
    proof (rule mux_target_exact [OF refl])
      show "clean_path (rq_escaped r) = rq_escaped r"
        using clean_routes 5(1) by (simp add: list_all_iff)
    qed (use ne in \<open>simp_all add: mux_match_def subtree_missing_slash_def routes_def pattern_fits_def segs\<close>)
    then show thesis by (rule that) (simp add: mutations_def 5)
  qed
qed

section \<open>A server on the bench\<close>

definition bench_sessions :: sessions where
  "bench_sessions = \<lparr>ses_secret = replicate 32 CHR ''k'', ses_username = ''admin'', ses_lifetime = minutes 720\<rparr>"

definition bench_server :: "bytes \<Rightarrow> mem_world server" where
  "bench_server hash =
     \<lparr>sv_sessions = bench_sessions, sv_secure = True, sv_interval = 150000000, sv_telemetry = seconds 2,
      sv_controller = bench_controller, sv_hub = new_hub,
      sv_last_write = 0, sv_logins = new_login_limiter, sv_degraded = [],
      sv_setup = \<lparr>su_config_username = ''admin'', su_username = ''admin'', su_hash = hash, su_token = [],
        su_file = Some (''admin'', hash)\<rparr>\<rparr>"

definition bench_env :: "time \<Rightarrow> environment" where
  "bench_env now = \<lparr>env_now = now, env_salt = Some (replicate 16 CHR ''s''), env_nonce = Some (replicate 18 CHR ''n''),
     env_save = True, env_hijack = None\<rparr>"

definition bench_request :: "bytes \<Rightarrow> bytes \<Rightarrow> (bytes \<times> bytes) list \<Rightarrow> bytes \<Rightarrow> http_request" where
  "bench_request method path extra body =
     \<lparr>rq_method = method, rq_path = path, rq_escaped = path, rq_host = ''192.168.1.239:8443'',
      rq_remote = ''192.168.1.7:50000'',
      rq_headers = (''Origin'', ''https://192.168.1.239:8443'') # (''X-Requested-With'', ''phnctl'') # extra,
      rq_body = body\<rparr>"

definition bench_body :: bytes where
  \<open>bench_body = ''{"mode":"manual","cpu":40,"gpu":60}''\<close>

definition bench_put :: "bytes \<Rightarrow> http_request" where
  "bench_put token = bench_request ''PUT'' ''/api/fans'' [(''Cookie'', session_cookie @ ''='' @ token)] bench_body"

lemma decode_json_text:
  assumes "json_text v = rq_body r" "length (rq_body r) \<le> body_limit" "printable v" "nesting v \<le> max_nesting"
    "readable v = v" "decode_struct True flds v zero = Some x"
  shows "decode_json flds zero r = Some x"
  using assms json_parse_text [OF assms(3,4)] by (simp add: decode_json_def skip_space_def)

lemmas json_text_simps = json_quote_def quote_body.simps quote_byte_def

lemma bench_put_facts:
  "valid_mutation (bench_put token)" "rq_method (bench_put token) = ''PUT''" "rq_escaped (bench_put token) = ''/api/fans''"
  "header_list (bench_put token) ''Cookie'' = [session_cookie @ ''='' @ token]"
  by code_simp+

lemma bench_put_asks: "asked_fans (bench_put token) = Some (Put_Fans \<lparr>fan_cpu = 40, fan_gpu = 60\<rparr> False)"
proof -
  let ?q = "\<lparr>fr_mode = ''manual'', fr_cpu = 40, fr_gpu = 60, fr_confirmed = False\<rparr>"
  let ?v = "JObject [(''mode'', JString ''manual''), (''cpu'', JNumber ''40''), (''gpu'', JNumber ''60'')]"
  have "json_number ''40'' = Some (''40'', [])" "json_number ''60'' = Some (''60'', [])" by code_simp+
  then have v: "json_text ?v = bench_body" "length bench_body \<le> body_limit" "printable ?v" "nesting ?v \<le> max_nesting" "readable ?v = ?v"
    by (simp_all add: json_text_simps bench_body_def body_limit_def max_nesting_def to_valid_utf8_valid)
  have "decode_struct True fans_fields ?v \<lparr>fr_mode = [], fr_cpu = 0, fr_gpu = 0, fr_confirmed = False\<rparr> = Some ?q"
    by code_simp
  with v have "decode_json fans_fields \<lparr>fr_mode = [], fr_cpu = 0, fr_gpu = 0, fr_confirmed = False\<rparr> (bench_put token) = Some ?q"
    by (intro decode_json_text [of ?v]) (simp_all only: bench_put_def bench_request_def http_request.select_convs)
  then show ?thesis by (simp add: asked_fans_def requested_fans_def)
qed

text \<open>A token that the bench server accepts at the time of the request.\<close>

definition bench_now :: time where
  "bench_now = seconds 63900000000"

lemma good_bench_sessions: "good_sessions bench_sessions"
  by (simp add: good_sessions_def bench_sessions_def minutes_def seconds_def)

lemma bench_token:
  obtains token expires where
    "new_token bench_sessions (Some (replicate 18 CHR ''n'')) bench_now = Inr (token, expires)"
    "hash \<noteq> [] \<Longrightarrow> authenticated (bench_env bench_now) (bench_put token) (bench_server hash)"
proof -
  obtain token where t: "new_token bench_sessions (Some (replicate 18 CHR ''n'')) bench_now = Inr (token, bench_now + minutes 720)"
    by (simp add: new_token_def Let_def bench_sessions_def)
  have range: "int64 (unix (bench_now + minutes 720))" "unix bench_now < unix (bench_now + minutes 720)"
    by (simp_all add: int64_def unix_def bench_now_def seconds_def minutes_def)
  show thesis
  proof (rule that [OF t])
    assume "hash \<noteq> []"
    then show "authenticated (bench_env bench_now) (bench_put token) (bench_server hash)"
      using t range bench_put_facts(4)
      by (intro authenticated_by_token [where nonce = "replicate 18 CHR ''n''"])
        (simp_all add: bench_server_def good_bench_sessions setup_required_def bench_env_def)
  qed
qed

lemma bench_serve:
  "\<exists>st c w'. serve (Put_Fans \<lparr>fan_cpu = 40, fan_gpu = 60\<rparr> False) bench_controller bench_world bench_now = (Inr st, c, w') \<and>
     w' \<noteq> bench_world"
proof -
  let ?res = "serve (Put_Fans \<lparr>fan_cpu = 40, fan_gpu = 60\<rparr> False) bench_controller bench_world bench_now"
  have "is_ok (fst ?res)" "snd (snd ?res) \<noteq> bench_world" by code_simp+
  then show ?thesis by (metis is_ok_iff prod.collapse)
qed

lemma bench_put_path: "(rq_escaped (bench_put token), asked_fans) \<in> set mutation_paths"
  by (simp add: bench_put_facts mutation_paths_def)

lemma bench_admitted: "write_admitted (bench_env bench_now) (bench_server hash)"
  by (simp add: write_admitted_def bench_server_def write_allow_def is_zero_time_def)

lemma bench_put_changes:
  assumes "hash \<noteq> []"
  obtains token rep s' w' where
    "serve_http (bench_env bench_now) (bench_put token) (bench_server hash) bench_world = (rep, s', w')" "w' \<noteq> bench_world"
proof -
  obtain token where auth: "authenticated (bench_env bench_now) (bench_put token) (bench_server hash)"
    by (rule bench_token [of hash]) (simp add: assms that)
  obtain st c w1 where run: "serve (Put_Fans \<lparr>fan_cpu = 40, fan_gpu = 60\<rparr> False) bench_controller bench_world bench_now = (Inr st, c, w1)"
    "w1 \<noteq> bench_world" using bench_serve by blast
  obtain rep s' w' where serve: "serve_http (bench_env bench_now) (bench_put token) (bench_server hash) bench_world = (rep, s', w')"
    by (metis surj_pair)
  obtain h :: "mem_world handler" where h: "mux_target routes (bench_put token) = Handler (require_auth h)" "(h, asked_fans) \<in> set mutations"
    using route_mutation [OF bench_put_path [of token]] by blast
  have "\<not> setup_required (bench_server hash)" using auth by (simp add: authenticated_def)
  then have "(rep, s', w') = secured (bench_server hash) (operate (serve (Put_Fans \<lparr>fan_cpu = 40, fan_gpu = 60\<rparr> False))
      (bench_env bench_now) (stamped (bench_env bench_now) (bench_server hash)) bench_world)"
    using serve auth h(1) mutation_handler.performed [OF mutations_handlers [OF h(2)] bench_put_facts(2,1) bench_put_asks]
    by (simp add: serve_http_def require_auth_cases bench_admitted)
  then have "w' = w1"
    using run(1) by (auto simp: secured_eq operate_def finish_mutation_def stamped_def bench_server_def bench_env_def)
  with run(2) serve show thesis by (intro that) simp_all
qed

section \<open>Who can do what\<close>

text \<open>C1. Only a request that carries a valid session, after setup, comes from the same origin with
  the custom header, is a PUT and is admitted by the write limiter can change the hardware, and the
  change is that of one operation of the controller.\<close>
theorem hardware_changes_need_authority:
  assumes "serve_http env r s w = (rep, s', w')" "w' \<noteq> w"
  shows "authenticated env r s \<and> valid_mutation r \<and> rq_method r = ''PUT'' \<and> write_admitted env s \<and>
    (\<exists>op c res. op \<noteq> Get_State \<and> serve op (sv_controller s) w (env_now env) = (res, c, w'))"
  using assms(1)
proof (cases rule: serve_http_elim)
  case (performed rep0 h asked op)
  from performed(10) have "\<exists>c res. serve op (sv_controller s) w (env_now env) = (res, c, w')"
    by (cases rule: operate_cases) (auto simp: stamped_def)
  with performed show ?thesis by blast
next
  case (state rep0)
  from state(3) assms(2) show ?thesis by (cases rule: handle_state_cases [of env r s w]) auto
next
  case (websocket rep0)
  from websocket(3) assms(2) show ?thesis by (cases rule: handle_websocket_cases [of env r s w]) auto
qed (use assms(2) in \<open>auto simp: quiet_def harmless_def\<close>)

text \<open>C2. A request without a valid session, or before setup, changes neither hardware nor
  controller, joins no WebSocket, spends nothing of the write limiter, and is answered without any
  state of the hardware.\<close>
theorem unauthenticated_requests_are_blind:
  assumes "\<not> authenticated env r s" "serve_http env r s w = (rep, s', w')"
  shows "w' = w \<and> sv_controller s' = sv_controller s \<and> sv_hub s' = sv_hub s \<and>
    sv_last_write s' = sv_last_write s \<and> \<not> reveals (rp_body rep)"
  using assms(2) by (cases rule: serve_http_elim) (use assms(1) in \<open>auto dest!: quietD\<close>)

text \<open>C3. An authenticated PUT with the right origin and header to one of the writing paths, whose
  body asks for an operation, is that operation: refused with 429 and a delay when the last write is
  too recent, and otherwise answered from what the controller returns, with the error statuses of
  its errors, or with the state, which is then also what every client of the hub is sent.\<close>
theorem mutations_reach_the_controller:
  fixes s :: "'w server"
  assumes "authenticated env r s" "rq_method r = ''PUT''" "valid_mutation r"
    and "(rq_escaped r, asked) \<in> set mutation_paths" "asked r = Some op"
    and "serve_http env r s w = (rep, s', w')" "serve op (sv_controller s) w (env_now env) = (res, c, w1)"
  shows "if \<not> write_admitted env s then
      rp_status rep = 429 \<and> rp_headers rep ''Retry-After'' \<noteq> None \<and> s' = s \<and> w' = w
    else w' = w1 \<and> sv_controller s' = c \<and> sv_last_write s' = env_now env \<and>
      (case res of
         Inr st \<Rightarrow> rp_status rep = 200 \<and> rp_body rep = State_Body st \<and>
           sv_hub s' = broadcast (payload_of st) (sv_hub s)
       | Inl e \<Rightarrow> rp_status rep = (if e = ErrUnsupported then 404 else if e \<in> {ErrConflict, ErrConfirmation} then 409 else 400) \<and>
           sv_hub s' = sv_hub s)"
proof -
  obtain h :: "'w handler" where h: "mux_target routes r = Handler (require_auth h)" "(h, asked) \<in> set mutations"
    using route_mutation [OF assms(4)] by blast
  have "h env r s w = (if write_admitted env s then operate (serve op) env (stamped env s) w else (too_soon env s, s, w))"
    using mutation_handler.performed [OF mutations_handlers [OF h(2)] assms(2,3,5)] .
  moreover have "\<not> setup_required s" using assms(1) by (simp add: authenticated_def)
  ultimately have "(rep, s', w') = secured s (if write_admitted env s then operate (serve op) env (stamped env s) w else (too_soon env s, s, w))"
    using assms(1,6) h(1) by (simp add: serve_http_def require_auth_cases)
  then show ?thesis
    using assms(7)
    by (auto simp: secured_eq dressed_def operate_def finish_mutation_def stamped_def error_reply_def too_soon_def
        add_header_def write_error_def write_json_def split: sum.splits)
qed

lemma mutations_reach_the_controller_witness:
  "\<exists>token rep s' w' st. serve_http (bench_env bench_now) (bench_put token) (bench_server ''set'') bench_world = (rep, s', w') \<and>
     rp_status rep = 200 \<and> rp_body rep = State_Body st \<and> w' \<noteq> bench_world"
proof -
  obtain token expires where auth: "authenticated (bench_env bench_now) (bench_put token) (bench_server ''set'')"
    using bench_token [of "''set''"] by blast
  obtain st c w1 where run: "serve (Put_Fans \<lparr>fan_cpu = 40, fan_gpu = 60\<rparr> False) bench_controller bench_world bench_now = (Inr st, c, w1)"
    "w1 \<noteq> bench_world" using bench_serve by blast
  obtain rep s' w' where serve: "serve_http (bench_env bench_now) (bench_put token) (bench_server ''set'') bench_world = (rep, s', w')"
    by (metis surj_pair)
  have "serve (Put_Fans \<lparr>fan_cpu = 40, fan_gpu = 60\<rparr> False) (sv_controller (bench_server ''set'')) bench_world (env_now (bench_env bench_now)) = (Inr st, c, w1)"
    using run by (simp only: bench_server_def bench_env_def server.select_convs environment.select_convs)
  from mutations_reach_the_controller [OF auth bench_put_facts(2,1) bench_put_path bench_put_asks serve this]
    have "rp_status rep = 200 \<and> rp_body rep = State_Body st \<and> w' \<noteq> bench_world"
    using run(2) by (simp add: bench_admitted)
  with serve show ?thesis by blast
qed

lemma hardware_changes_need_authority_witness:
  "\<exists>token rep s' w'. serve_http (bench_env bench_now) (bench_put token) (bench_server ''set'') bench_world = (rep, s', w') \<and>
     w' \<noteq> bench_world \<and> authenticated (bench_env bench_now) (bench_put token) (bench_server ''set'')"
proof -
  obtain token rep s' w' where serve: "serve_http (bench_env bench_now) (bench_put token) (bench_server ''set'') bench_world = (rep, s', w')"
    "w' \<noteq> bench_world" using bench_put_changes [of "''set''"] by blast
  with hardware_changes_need_authority [OF serve] show ?thesis by blast
qed

lemma unauthenticated_requests_are_blind_witness:
  "\<exists>rep s'. serve_http (bench_env bench_now) (bench_request ''PUT'' ''/api/fans'' [] bench_body) (bench_server ''set'') bench_world
     = (rep, s', bench_world) \<and> \<not> reveals (rp_body rep)"
proof -
  have "request_cookie (bench_request ''PUT'' ''/api/fans'' [] bench_body) session_cookie = None" by code_simp
  then have no: "\<not> authenticated (bench_env bench_now) (bench_request ''PUT'' ''/api/fans'' [] bench_body) (bench_server ''set'')"
    by (simp add: authenticated_def)
  obtain rep s' w' where serve: "serve_http (bench_env bench_now) (bench_request ''PUT'' ''/api/fans'' [] bench_body)
      (bench_server ''set'') bench_world = (rep, s', w')" by (metis surj_pair)
  from unauthenticated_requests_are_blind [OF no serve] serve show ?thesis by blast
qed

section \<open>Logins and sessions\<close>

text \<open>The login that a request asks for, past the checks that come before its password.\<close>

definition asked_login :: "environment \<Rightarrow> http_request \<Rightarrow> 'w server \<Rightarrow> login_request option" where
  "asked_login env r s =
     (if rq_method r = ''POST'' \<and> same_origin r \<and> fst (login_allow (sv_logins s) (client_ip r) (env_now env))
      then decode_json login_fields \<lparr>lr_username = [], lr_password = []\<rparr> r else None)"

lemma issue_session_some: "rp_cookies (issue_session env u s) \<noteq> [] \<longleftrightarrow> env_nonce env \<noteq> None"
  by (auto simp: issue_session_def new_token_def Let_def split: option.split)

text \<open>C6. A login is answered with a session exactly when it is a POST from the same origin, its
  address has fewer than five recent failures, its body is one JSON object of a username and a
  password, setup is done, the username is the configured one, the password verifies against the
  stored hash, and a nonce can be drawn; everything else gets no cookie.\<close>
theorem login_issues_session_iff:
  assumes "rq_escaped r = ''/api/login''" "serve_http env r s w = (rep, s', w')"
  shows "rp_cookies rep \<noteq> [] \<longleftrightarrow>
    (\<exists>q. asked_login env r s = Some q \<and> \<not> setup_required s \<and> lr_username q = su_username (sv_setup s) \<and>
       verify_password (su_hash (sv_setup s)) (lr_password q) \<and> env_nonce env \<noteq> None)"
proof -
  have "(rep, s', w') = secured s (handle_login env r s w)"
    using assms(2) by (simp add: serve_http_def route_login [OF assms(1)])
  then have "rp_cookies rep = rp_cookies (fst (handle_login env r s w))" by (auto simp: secured_eq)
  then show ?thesis
    by (auto simp: handle_login_def asked_login_def Let_def credentials_def setup_required_def issue_session_some case_prod_beta
        split: if_splits option.splits)
qed

definition bench_login_body :: bytes where
  \<open>bench_login_body = ''{"username":"admin","password":"correct horse battery staple"}''\<close>

definition bench_login :: http_request where
  "bench_login = bench_request ''POST'' ''/api/login'' [] bench_login_body"

lemma bench_login_facts:
  "rq_escaped bench_login = ''/api/login''"
  "asked_login (bench_env now) bench_login (bench_server hash) =
     Some \<lparr>lr_username = ''admin'', lr_password = ''correct horse battery staple''\<rparr>"
proof -
  have origin: "same_origin bench_login" "rq_method bench_login = ''POST''" by code_simp+
  let ?v = "JObject [(''username'', JString ''admin''), (''password'', JString ''correct horse battery staple'')]"
  have v: "json_text ?v = bench_login_body" "length bench_login_body \<le> body_limit" "printable ?v" "nesting ?v \<le> max_nesting" "readable ?v = ?v"
    by (simp_all add: json_text_simps bench_login_body_def body_limit_def max_nesting_def to_valid_utf8_valid)
  have "decode_struct True login_fields ?v \<lparr>lr_username = [], lr_password = []\<rparr> =
      Some \<lparr>lr_username = ''admin'', lr_password = ''correct horse battery staple''\<rparr>"
    by code_simp
  with v have "decode_json login_fields \<lparr>lr_username = [], lr_password = []\<rparr> bench_login =
      Some \<lparr>lr_username = ''admin'', lr_password = ''correct horse battery staple''\<rparr>"
    by (intro decode_json_text [of ?v]) (simp_all only: bench_login_def bench_request_def http_request.select_convs)
  then show "asked_login (bench_env now) bench_login (bench_server hash) =
      Some \<lparr>lr_username = ''admin'', lr_password = ''correct horse battery staple''\<rparr>"
    by (simp add: asked_login_def origin login_allow_def bench_server_def Let_def)
qed (simp add: bench_login_def bench_request_def)

lemma bench_hash:
  obtains hash where "hash \<noteq> []" "validate_password_hash hash = None" "verify_password hash ''correct horse battery staple''"
proof -
  obtain hash where h: "hash_password (Some (replicate 16 CHR ''s'')) ''correct horse battery staple'' = Inr hash"
    by (simp add: hash_password_def Let_def)
  have v: "verify_password hash ''correct horse battery staple''"
    by (rule hash_password_entitles [OF h]) simp
  then have "validate_password_hash hash = None" "hash \<noteq> []"
    by (auto simp: validate_password_hash_iff verify_password_iff well_formed_hash_def)
  with v show thesis by (intro that)
qed

lemma login_issues_session_iff_witness:
  "\<exists>hash rep s' w'. serve_http (bench_env bench_now) bench_login (bench_server hash) bench_world = (rep, s', w') \<and>
     rp_cookies rep \<noteq> []"
proof -
  obtain hash where hash: "hash \<noteq> []" "verify_password hash ''correct horse battery staple''" using bench_hash by blast
  obtain rep s' w' where serve: "serve_http (bench_env bench_now) bench_login (bench_server hash) bench_world = (rep, s', w')"
    by (metis surj_pair)
  have "\<not> setup_required (bench_server hash)" "su_username (sv_setup (bench_server hash)) = ''admin''"
    "su_hash (sv_setup (bench_server hash)) = hash" "env_nonce (bench_env bench_now) \<noteq> None"
    using hash(1) by (simp_all add: setup_required_def bench_server_def bench_env_def)
  with login_issues_session_iff [OF bench_login_facts(1) serve] bench_login_facts(2) hash(2) have "rp_cookies rep \<noteq> []" by simp
  with serve show ?thesis by blast
qed

text \<open>C7. The session that a login or a setup hands out, sent back as the only cookie of any later
  request, is what the gate accepts until the second it expires in and never after, whatever
  requests, clients, ticks and changes of the machine come in between.\<close>
theorem session_is_accepted_until_expiry:
  assumes "server_inv fs s" "good_sessions (sv_sessions s)" "proper_env env" "list_all proper_event evs"
    and "serve_http env r s w = (rep, s1, w1)" "c \<in> set (rp_cookies rep)" "ck_expires c = Some expires"
    and "int64 (unix expires)" "fold after_event evs (s1, w1) = (s2, w2)"
    and "header_list r2 ''Cookie'' = [session_cookie @ ''='' @ ck_value c]"
  shows "authenticated env2 r2 s2 \<longleftrightarrow> unix (env_now env2) < unix expires"
proof -
  have cookie: "cookie_ok env s s1 c"
    using assms(5)
  proof (cases rule: serve_http_elim)
    case (quiet rep0)
    then show ?thesis using assms(6) by (auto simp: quiet_def)
  next
    case (state rep0)
    from state(3) state(1) assms(6) show ?thesis
      by (cases rule: handle_state_cases [of env r s w]) (auto simp: handle_state_def write_json_def method_not_allowed_def)
  next
    case (websocket rep0)
    from websocket(3) websocket(1) assms(6) show ?thesis
      by (auto simp: handle_websocket_def Let_def plain_reply_def case_prod_beta
          split: if_splits sum.splits upgrade_error.splits)
  next
    case (refused rep0)
    then show ?thesis using assms(6) by (auto simp: harmless_def)
  next
    case (performed rep0 h asked op)
    from performed(10) performed(1) assms(6) show ?thesis
      by (cases rule: operate_cases) (auto simp: error_reply_def split: if_splits)
  qed
  have run: "server_inv fs s2 \<and> same_config s1 s2 \<and> (su_hash (sv_setup s1) \<noteq> [] \<longrightarrow> sv_setup s2 = sv_setup s1)"
  proof -
    have "server_inv fs s1" using serve_http_inv [OF assms(5,1,3)] by blast
    then show ?thesis using after_events_inv [OF _ assms(4,9)] by blast
  qed
  obtain nonce where nonce: "env_nonce env = Some nonce" "length nonce = 18"
    and token: "new_token (sv_sessions s) (Some nonce) (env_now env) = Inr (ck_value c, expires)" and pw: "\<not> setup_required s1"
    using cookie assms(3,7) by (auto simp: cookie_ok_def new_token_def proper_env_def split: option.splits)
  have ses: "sv_sessions s2 = sv_sessions s"
    using run serve_http_frame [OF assms(5)] by (simp add: same_config_def)
  have "\<not> setup_required s2" using run pw by (auto simp: setup_required_def)
  moreover have "request_cookie r2 session_cookie = Some (ck_value c)" using request_session_cookie [OF token assms(10)] .
  moreover have "expires = env_now env + ses_lifetime (sv_sessions s)" using token by (auto simp: new_token_def Let_def)
  ultimately show ?thesis
    using token_round_trip [OF assms(2) _ nonce(2) token] assms(8) ses by (simp add: authenticated_def)
qed

lemma bench_server_inv:
  "validate_password_hash hash = None \<Longrightarrow> server_inv mem_fs (bench_server hash)"
  by (simp add: server_inv_def bench_server_def bench_controller_def setup_ok_def slow_in_range_zero)

lemma bench_proper: "proper_env (bench_env now)"
  by (simp add: proper_env_def bench_env_def salt_bytes_def)

lemma session_is_accepted_until_expiry_witness:
  "\<exists>hash rep s1 w1 s2 w2 c.
     serve_http (bench_env bench_now) bench_login (bench_server hash) bench_world = (rep, s1, w1) \<and> c \<in> set (rp_cookies rep) \<and>
     fold after_event [Tick bench_now, Http (bench_env bench_now) bench_login, Machine []] (s1, w1) = (s2, w2) \<and>
     authenticated (bench_env (bench_now + seconds 3600)) (bench_put (ck_value c)) s2 \<and>
     \<not> authenticated (bench_env (bench_now + minutes 720)) (bench_put (ck_value c)) s2"
proof -
  let ?evs = "[Tick bench_now, Http (bench_env bench_now) bench_login, Machine []] :: mem_world server_event list"
  obtain hash where hash: "hash \<noteq> []" "validate_password_hash hash = None" "verify_password hash ''correct horse battery staple''"
    using bench_hash by blast
  obtain rep s1 w1 where serve: "serve_http (bench_env bench_now) bench_login (bench_server hash) bench_world = (rep, s1, w1)"
    by (metis surj_pair)
  obtain s2 w2 where run: "fold after_event ?evs (s1, w1) = (s2, w2)" by (metis surj_pair)
  have handled: "(rep, s1, w1) = secured (bench_server hash) (handle_login (bench_env bench_now) bench_login (bench_server hash) bench_world)"
    using serve by (simp add: serve_http_def route_login [OF bench_login_facts(1)])
  have origin: "same_origin bench_login" "rq_method bench_login = ''POST''" by code_simp+
  have body: "decode_json login_fields \<lparr>lr_username = [], lr_password = []\<rparr> bench_login =
      Some \<lparr>lr_username = ''admin'', lr_password = ''correct horse battery staple''\<rparr>"
    using bench_login_facts(2) [of bench_now hash] by (auto simp: asked_login_def split: if_splits)
  obtain token where t: "new_token bench_sessions (Some (replicate 18 CHR ''n'')) bench_now = Inr (token, bench_now + minutes 720)"
    by (simp add: new_token_def Let_def bench_sessions_def)
  have cookies: "rp_cookies rep = [\<lparr>ck_name = session_cookie, ck_value = token, ck_path = ''/'', ck_expires = Some (bench_now + minutes 720),
      ck_max_age = 0, ck_http_only = True, ck_secure = True, ck_strict = True\<rparr>]"
    using handled hash t
    by (auto simp: secured_eq handle_login_def origin body login_allow_def bench_server_def bench_env_def credentials_def
        issue_session_def Let_def)
  define c where "c = hd (rp_cookies rep)"
  have c: "c \<in> set (rp_cookies rep)" "ck_expires c = Some (bench_now + minutes 720)" "ck_value c = token"
    by (simp_all add: c_def cookies)
  have range: "int64 (unix (bench_now + minutes 720))"
    by (simp add: int64_def unix_def bench_now_def seconds_def minutes_def)
  have ses: "good_sessions (sv_sessions (bench_server hash))" by (simp add: bench_server_def good_bench_sessions)
  have evs: "list_all proper_event ?evs" by (simp add: bench_proper)
  note accept = session_is_accepted_until_expiry [OF bench_server_inv [OF hash(2)] ses bench_proper evs serve c(1,2) range run]
  have "authenticated (bench_env (bench_now + seconds 3600)) (bench_put (ck_value c)) s2"
    "\<not> authenticated (bench_env (bench_now + minutes 720)) (bench_put (ck_value c)) s2"
    using accept [OF bench_put_facts(4)]
    by (simp_all add: bench_env_def unix_def bench_now_def seconds_def minutes_def)
  with serve run c(1) show ?thesis by blast
qed

section \<open>Histories\<close>

text \<open>C5. Whatever a server that was started with valid credentials, or none, goes through, its
  connections are those of its clients, its controller's cache is in range, a password that is set
  is a valid hash, and every state it answers with is in range. A password is never set again, be it
  one that the server was started with or one that a setup chose: from every server it gets to that
  has a password, whatever follows leaves its name, its hash and its setup token as they are.\<close>
theorem server_invariant:
  assumes "new_server cf random stored (new_controller fs w0) = Inr s0"
    and "cf_hash cf = [] \<or> validate_password_hash (cf_hash cf) = None"
    and "server_reachable s0 (s, w)"
  shows "server_inv fs s \<and> (\<not> setup_required s0 \<longrightarrow> sv_setup s = sv_setup s0) \<and>
    (\<forall>s' w'. \<not> setup_required s \<and> server_reachable s (s', w') \<longrightarrow> sv_setup s' = sv_setup s) \<and>
    (\<forall>env r st. proper_env env \<and> rp_body (fst (serve_http env r s w)) = State_Body st \<longrightarrow> state_in_range st)"
proof -
  have "server_inv fs s0"
    using new_server_inv [OF assms(1,2) ctl_inv_new] .
  from server_reachable_inv [OF assms(3) this]
    have inv: "server_inv fs s" and once: "\<not> setup_required s0 \<longrightarrow> sv_setup s = sv_setup s0"
    by (simp_all add: setup_required_def)
  have "state_in_range st" if "proper_env env" "rp_body (fst (serve_http env r s w)) = State_Body st" for env r st
  proof -
    obtain rep s' w' where "serve_http env r s w = (rep, s', w')" by (metis surj_pair)
    from serve_http_inv [OF this inv that(1)] that(2) this show ?thesis by simp
  qed
  moreover have "sv_setup s' = sv_setup s" if "\<not> setup_required s" "server_reachable s (s', w')" for s' w'
    using server_reachable_inv [OF that(2) inv] that(1) by (simp add: setup_required_def)
  ultimately show ?thesis using inv once by blast
qed

lemma server_invariant_witness:
  "\<exists>s0 s. new_server \<lparr>cf_username = ''admin'', cf_hash = [], cf_credentials = ''/etc/phnctl/credentials'',
       cf_sessions = Some bench_sessions, cf_secure = True, cf_write_interval = 0, cf_telemetry = 0\<rparr>
     (Some (replicate 32 CHR ''r'')) None (new_controller mem_fs bench_world) = Inr s0 \<and>
     server_reachable s0 (s, bench_world) \<and> server_inv mem_fs s \<and> setup_required s0 \<and>
     (\<forall>s' w'. \<not> setup_required s \<and> server_reachable s (s', w') \<longrightarrow> sv_setup s' = sv_setup s)"
proof -
  let ?cf = "\<lparr>cf_username = ''admin'', cf_hash = [], cf_credentials = ''/etc/phnctl/credentials'',
       cf_sessions = Some bench_sessions, cf_secure = True, cf_write_interval = 0, cf_telemetry = 0\<rparr>"
  obtain s0 where s0: "new_server ?cf (Some (replicate 32 CHR ''r'')) None (new_controller mem_fs bench_world) = Inr s0"
    "setup_required s0" by (simp add: new_server_def setup_required_def)
  obtain s w where step: "after_event (Tick bench_now) (s0, bench_world) = (s, w)" by fastforce
  then have w: "w = bench_world" by auto
  have "server_reachable s0 (s, bench_world)"
    using server_reachable.step [OF server_reachable.start, of "Tick bench_now" s0 bench_world] step w by simp
  with server_invariant [OF s0(1) _ this] s0 show ?thesis by (intro exI [of _ s0] exI [of _ s]) simp
qed

text \<open>C8. Over any history of requests, ticks and clients, with the machine changing on its own,
  requests change the hardware no more often than once in the write interval.\<close>
theorem hardware_changes_are_spaced:
  assumes "server_inv fs s" "list_all proper_event evs" "proper_interval (sv_interval s)"
    and "list_all (\<lambda>ev. event_time ev \<noteq> 0) evs"
  shows "spaced (sv_interval s) (change_times evs (s, w))"
  using assms by (rule change_times_spaced)

lemma hardware_changes_are_spaced_witness:
  "\<exists>hash token. let evs = [Http (bench_env bench_now) (bench_put token), Http (bench_env (bench_now + 1000)) (bench_put token)]
     in change_times evs (bench_server hash, bench_world) \<noteq> [] \<and>
        spaced 150000000 (change_times evs (bench_server hash, bench_world))"
proof -
  obtain hash where hash: "hash \<noteq> []" "validate_password_hash hash = None" using bench_hash by blast
  obtain token rep s' w' where serve: "serve_http (bench_env bench_now) (bench_put token) (bench_server hash) bench_world = (rep, s', w')"
    "w' \<noteq> bench_world" using bench_put_changes [OF hash(1)] by blast
  let ?evs = "[Http (bench_env bench_now) (bench_put token), Http (bench_env (bench_now + 1000)) (bench_put token)]"
  have "sv_interval (bench_server hash) = 150000000" by (simp add: bench_server_def)
  moreover have "proper_interval 150000000" by (simp add: proper_interval_def max_duration_def)
  moreover have "list_all proper_event ?evs" "list_all (\<lambda>ev. event_time ev \<noteq> 0) ?evs"
    by (simp_all add: bench_proper) (simp_all add: bench_env_def bench_now_def seconds_def)
  ultimately have "spaced 150000000 (change_times ?evs (bench_server hash, bench_world))"
    using hardware_changes_are_spaced [OF bench_server_inv [OF hash(2)], of ?evs bench_world] by simp
  moreover have "change_times ?evs (bench_server hash, bench_world) \<noteq> []" using serve by simp
  ultimately show ?thesis unfolding Let_def by blast
qed

text \<open>C28. Telemetry logs the failing sections once per change: however many ticks there are, its
  lines are the changes of the list of degraded sections, from what was last logged on, each with
  the list it changes to.\<close>
theorem degraded_sections_are_logged_once:
  "fst (run_telemetry ticks s) =
     map degraded_line (tl (remdups_adj (sv_degraded s # map (join '','') (polled ticks s))))"
  by (rule run_telemetry_lines)

end
