(* ===== verification/WebSocket_Streams.thy ===== *)
theory WebSocket_Streams
  imports WebSocket_Laws
begin

text \<open>
  What a client receives over time. The clients of the hub are written to by several goroutines, one
  frame at a time under the client's lock: the broadcasts, the first state after the upgrade, and
  the answers of the client's own loop. A history is any interleaving of these, with connections
  that join, hang up, and take more or less.
\<close>

section \<open>Whole frames\<close>

definition frame_bytes :: "opcode \<Rightarrow> bytes \<Rightarrow> bytes" where
  "frame_bytes opcode payload = frame_header opcode (length payload) @ payload"

lemma frame_bytes_not_Nil [simp]: "frame_bytes opcode payload \<noteq> []"
  by (simp add: frame_bytes_def frame_header_def Let_def)

lemma write_frame_open_conn:
  "conn_open c \<Longrightarrow> write_frame opcode payload c =
     (case conn_room c of
        None \<Rightarrow> (True, c\<lparr>conn_out := conn_out c @ frame_bytes opcode payload\<rparr>)
      | Some n \<Rightarrow> (length (frame_bytes opcode payload) \<le> n,
          c\<lparr>conn_out := conn_out c @ take n (frame_bytes opcode payload),
            conn_room := Some (n - length (frame_bytes opcode payload))\<rparr>))"
  by (auto simp: write_frame_def conn_write_def frame_bytes_def split: option.split bool.split)

lemma write_frame_closed: "\<not> conn_open c \<Longrightarrow> write_frame opcode payload c = (False, c)"
  by (simp add: write_frame_def conn_write_def)

lemma write_frame_cases:
  assumes "write_frame opcode payload c = (ok, c')"
  obtains (whole) "ok" "conn_open c" "conn_out c' = conn_out c @ frame_bytes opcode payload"
  | (torn) n where "\<not> ok" "conn_open c" "n < length (frame_bytes opcode payload)"
      "conn_out c' = conn_out c @ take n (frame_bytes opcode payload)"
  | (closed) "\<not> ok" "\<not> conn_open c" "c' = c"
  using assms
  by (cases "conn_open c") (auto simp: write_frame_open_conn write_frame_closed not_le split: option.splits)

text \<open>The frames that a server's stream holds, as RFC 6455 reads them.\<close>

inductive server_stream :: "bytes \<Rightarrow> (nat \<times> bytes) list \<Rightarrow> bytes \<Rightarrow> bool" where
  stop: "server_stream s [] s"
| frame: "rfc_decode s = Some (f, rest) \<Longrightarrow> rfc_fin f \<Longrightarrow> rfc_key f = None \<Longrightarrow> server_stream rest fs t \<Longrightarrow>
    server_stream s ((rfc_op f, rfc_payload f) # fs) t"

definition sendable :: "opcode \<times> bytes \<Rightarrow> bool" where
  "sendable f \<longleftrightarrow> unat (fst f) < 16 \<and> length (snd f) < 2 ^ 32"

lemma server_stream_frames:
  "list_all sendable fs \<Longrightarrow>
   server_stream (concat (map (\<lambda>(opcode, payload). frame_bytes opcode payload) fs) @ t)
     (map (\<lambda>(opcode, payload). (unat opcode, payload)) fs) t"
proof (induction fs)
  case Nil
  show ?case by (simp add: server_stream.stop)
next
  case (Cons f fs)
  obtain opcode payload where f: "f = (opcode, payload)" by fastforce
  let ?rest = "concat (map (\<lambda>(opcode, payload). frame_bytes opcode payload) fs) @ t"
  have "rfc_decode (frame_bytes opcode payload @ ?rest) =
      Some (\<lparr>rfc_fin = True, rfc_op = unat opcode, rfc_key = None, rfc_payload = payload\<rparr>, ?rest)"
    using rfc_decode_frame [of opcode payload ?rest] Cons.prems by (simp add: frame_bytes_def sendable_def f)
  from server_stream.frame [OF this] Cons show ?case by (simp add: f)
qed

section \<open>One frame of a client\<close>

text \<open>What one round of the loop does with a frame: the end of the loop, if it ends.\<close>

definition handle_frame :: "opcode \<Rightarrow> bytes \<Rightarrow> conn \<Rightarrow> read_end option \<times> conn" where
  "handle_frame opcode payload c =
     (if opcode = close_op then (Some Peer_Closed, snd (write_frame close_op payload c))
      else if opcode = ping_op then
        (case write_frame pong_op payload c of
           (False, c') \<Rightarrow> (Some Write_Failed, c')
         | (True, c') \<Rightarrow> (None, c'))
      else if opcode = pong_op \<or> opcode = 1 \<or> opcode = 2 then (None, c)
      else (Some Bad_Opcode, c))"

lemma read_loop_rounds:
  "read_loop s c =
     (case read_frame s of
        Inl e \<Rightarrow> (e, c)
      | Inr ((opcode, payload), rest) \<Rightarrow>
          (case handle_frame opcode payload c of
             (Some e, c') \<Rightarrow> (e, c')
           | (None, c') \<Rightarrow> read_loop rest c'))"
  by (subst read_loop.simps)
    (auto simp: handle_frame_def split: sum.split prod.split bool.split)

section \<open>Histories of the hub\<close>

text \<open>
  \<open>First\<close> is the state that \<open>handleWebSocket\<close> writes after the upgrade, whose result it ignores;
  \<open>Send\<close> is one client's turn in a broadcast; \<open>Receive\<close> is one round of the client's loop;
  \<open>Drain\<close> changes how much the peer takes.
\<close>

datatype hub_event =
    Join conn
  | First nat bytes
  | Send nat bytes
  | Receive nat opcode bytes
  | Hang_Up nat
  | Drain nat "nat option"

fun event_client :: "hub_event \<Rightarrow> nat option" where
  "event_client (Join c) = None"
| "event_client (First i p) = Some i"
| "event_client (Send i p) = Some i"
| "event_client (Receive i opcode p) = Some i"
| "event_client (Hang_Up i) = Some i"
| "event_client (Drain i room) = Some i"

definition set_conn :: "nat \<Rightarrow> conn \<Rightarrow> hub \<Rightarrow> hub" where
  "set_conn i c h = h\<lparr>hub_conns := (hub_conns h)[i := c]\<rparr>"

definition arrive :: "nat \<Rightarrow> opcode \<Rightarrow> bytes \<Rightarrow> hub \<Rightarrow> hub" where
  "arrive i opcode payload h =
     (case handle_frame opcode payload (hub_conns h ! i) of
        (None, c) \<Rightarrow> set_conn i c h
      | (Some _, c) \<Rightarrow> hub_remove i (set_conn i c h))"

fun hub_after :: "hub_event \<Rightarrow> hub \<Rightarrow> hub" where
  "hub_after (Join c) h = snd (hub_add c h)"
| "hub_after (First i p) h = snd (hub_write i text_op p h)"
| "hub_after (Send i p) h = hub_send p i h"
| "hub_after (Receive i opcode p) h = arrive i opcode p h"
| "hub_after (Hang_Up i) h = hub_remove i h"
| "hub_after (Drain i room) h = set_conn i ((hub_conns h ! i)\<lparr>conn_room := room\<rparr>) h"

text \<open>The frames that an event writes whole to a client.\<close>

fun frames_written :: "hub_event \<Rightarrow> hub \<Rightarrow> nat \<Rightarrow> (opcode \<times> bytes) list" where
  "frames_written (First j p) h i = (if j = i \<and> fst (write_frame text_op p (hub_conns h ! i)) then [(text_op, p)] else [])"
| "frames_written (Send j p) h i = (if j = i \<and> fst (write_frame text_op p (hub_conns h ! i)) then [(text_op, p)] else [])"
| "frames_written (Receive j opcode p) h i =
     (if j = i \<and> opcode = close_op \<and> fst (write_frame close_op p (hub_conns h ! i)) then [(close_op, p)]
      else if j = i \<and> opcode = ping_op \<and> fst (write_frame pong_op p (hub_conns h ! i)) then [(pong_op, p)]
      else [])"
| "frames_written _ h i = []"

fun frames_sent :: "hub_event list \<Rightarrow> hub \<Rightarrow> nat \<Rightarrow> (opcode \<times> bytes) list" where
  "frames_sent [] h i = []"
| "frames_sent (ev # evs) h i = frames_written ev h i @ frames_sent evs (hub_after ev h) i"

text \<open>Events are about clients that have joined, and connections join open.\<close>

fun proper_history :: "hub_event list \<Rightarrow> hub \<Rightarrow> bool" where
  "proper_history [] h \<longleftrightarrow> True"
| "proper_history (ev # evs) h \<longleftrightarrow>
     (case ev of Join c \<Rightarrow> conn_open c | _ \<Rightarrow> (case event_client ev of None \<Rightarrow> True | Some i \<Rightarrow> i < length (hub_conns h))) \<and>
     proper_history evs (hub_after ev h)"

text \<open>The first state is taken whole, or the connection is closed already.\<close>

fun first_taken :: "hub_event list \<Rightarrow> hub \<Rightarrow> nat \<Rightarrow> bool" where
  "first_taken [] h i \<longleftrightarrow> True"
| "first_taken (ev # evs) h i \<longleftrightarrow>
     (case ev of
        First j p \<Rightarrow> j \<noteq> i \<or> \<not> conn_open (hub_conns h ! i) \<or> fst (write_frame text_op p (hub_conns h ! i))
      | _ \<Rightarrow> True) \<and> first_taken evs (hub_after ev h) i"

section \<open>Steps\<close>

lemma set_conn_length [simp]: "length (hub_conns (set_conn i c h)) = length (hub_conns h)"
  by (simp add: set_conn_def)

lemma write_frame_opened: "write_frame opcode payload c = (ok, c') \<Longrightarrow> conn_open c' = conn_open c"
  by (metis snd_conv write_frame_open)

lemma handle_frame_open [simp]: "conn_open (snd (handle_frame opcode payload c)) = conn_open c"
  by (auto simp: handle_frame_def split: prod.splits bool.splits dest!: write_frame_opened)

lemma hub_ok_set_conn: "hub_ok h \<Longrightarrow> conn_open c = conn_open (hub_conns h ! i) \<Longrightarrow> hub_ok (set_conn i c h)"
  by (simp add: set_conn_def hub_ok_update)

lemma hub_ok_arrive: "hub_ok h \<Longrightarrow> hub_ok (arrive i opcode payload h)"
  using handle_frame_open [of opcode payload "hub_conns h ! i"] hub_ok_set_conn [of h "snd (handle_frame opcode payload (hub_conns h ! i))" i]
  by (auto simp: arrive_def hub_ok_remove split: prod.split option.split)

lemma hub_ok_after:
  "hub_ok h \<Longrightarrow> (case ev of Join c \<Rightarrow> conn_open c | _ \<Rightarrow> True) \<Longrightarrow> hub_ok (hub_after ev h)"
  by (cases ev) (simp_all add: hub_ok_add hub_ok_write hub_ok_send hub_ok_arrive hub_ok_remove hub_ok_set_conn)

text \<open>What one event does to the connection of a client.\<close>

lemma hub_remove_conn:
  "i < length (hub_conns h) \<Longrightarrow>
   hub_conns (hub_remove j h) ! i = (if j = i \<and> i \<in> set (hub_clients h) then conn_close (hub_conns h ! i) else hub_conns h ! i)"
  by (cases "j = i") (auto simp: hub_remove_def)

lemma set_conn_conn: "i < length (hub_conns h) \<Longrightarrow> hub_conns (set_conn j c h) ! i = (if j = i then c else hub_conns h ! i)"
  by (auto simp: set_conn_def)

lemma conn_close_simps [simp]: "conn_out (conn_close c) = conn_out c" "\<not> conn_open (conn_close c)"
  by (simp_all add: conn_close_def)

lemma set_conn_clients [simp]: "hub_clients (set_conn i c h) = hub_clients h"
  by (simp add: set_conn_def)

lemmas hub_conn_simps = hub_remove_conn set_conn_conn

abbreviation frames_text :: "(opcode \<times> bytes) list \<Rightarrow> bytes" where
  "frames_text fs \<equiv> concat (map (\<lambda>(opcode, payload). frame_bytes opcode payload) fs)"

text \<open>Everything that is new in a stream is whole frames, or the connection is closed behind the rest.\<close>

definition grows_by :: "conn \<Rightarrow> (opcode \<times> bytes) list \<Rightarrow> conn \<Rightarrow> bool" where
  "grows_by c fs c' \<longleftrightarrow>
     (\<exists>part. conn_out c' = conn_out c @ frames_text fs @ part \<and> (part \<noteq> [] \<longrightarrow> \<not> conn_open c') \<and>
        (\<not> conn_open c \<longrightarrow> \<not> conn_open c' \<and> fs = [] \<and> part = []))"

lemma grows_by_same: "conn_out c' = conn_out c \<Longrightarrow> (\<not> conn_open c \<longrightarrow> \<not> conn_open c') \<Longrightarrow> grows_by c [] c'"
  by (simp add: grows_by_def)

lemma grows_by_write:
  assumes "write_frame opcode payload c = (ok, c')" "conn_out d = conn_out c'" "conn_open d \<longrightarrow> conn_open c \<and> ok"
  shows "grows_by c (if ok then [(opcode, payload)] else []) d"
  using assms(1)
proof (cases rule: write_frame_cases)
  case (torn n)
  with assms show ?thesis by (auto simp: grows_by_def intro!: exI [of _ "take n (frame_bytes opcode payload)"])
qed (use assms in \<open>auto simp: grows_by_def\<close>)

lemma grows_by_trans:
  assumes "grows_by c fs c'" "grows_by c' gs d" shows "grows_by c (fs @ gs) d"
proof -
  obtain part where p: "conn_out c' = conn_out c @ frames_text fs @ part" "part \<noteq> [] \<Longrightarrow> \<not> conn_open c'"
    "\<not> conn_open c \<Longrightarrow> \<not> conn_open c' \<and> fs = [] \<and> part = []" using assms(1) unfolding grows_by_def by blast
  obtain part' where q: "conn_out d = conn_out c' @ frames_text gs @ part'" "part' \<noteq> [] \<Longrightarrow> \<not> conn_open d"
    "\<not> conn_open c' \<Longrightarrow> \<not> conn_open d \<and> gs = [] \<and> part' = []" using assms(2) unfolding grows_by_def by blast
  show ?thesis
  proof (cases "conn_open c'")
    case True
    with p q show ?thesis by (auto simp: grows_by_def intro!: exI [of _ part'])
  next
    case False
    with p q show ?thesis by (auto simp: grows_by_def intro!: exI [of _ part])
  qed
qed

lemma hub_step_client:
  assumes ok: "hub_ok h" and i: "i < length (hub_conns h)" and first: "first_taken [ev] h i"
  shows "grows_by (hub_conns h ! i) (frames_written ev h i) (hub_conns (hub_after ev h) ! i)"
proof -
  let ?c = "hub_conns h ! i"
  have member: "conn_open ?c \<longleftrightarrow> i \<in> set (hub_clients h)" using ok i by (simp add: hub_ok_def)
  show ?thesis
  proof (cases ev)
    case (Join c)
    with i show ?thesis by (simp add: hub_add_def nth_append grows_by_same)
  next
    case (First j p)
    obtain ok' c' where w: "write_frame text_op p (hub_conns h ! j) = (ok', c')" by fastforce
    have open': "conn_open c' = conn_open (hub_conns h ! j)" using write_frame_opened [OF w] .
    show ?thesis
    proof (cases "j = i")
      case True
      have "grows_by ?c (if ok' then [(text_op, p)] else []) c'"
        using grows_by_write [OF w [unfolded True] refl] first w open' by (auto simp: First True)
      with True w i show ?thesis by (simp add: First hub_write_def)
    next
      case False
      with i w show ?thesis by (simp add: First hub_write_def grows_by_same)
    qed
  next
    case (Send j p)
    obtain ok' c' where w: "write_frame text_op p (hub_conns h ! j) = (ok', c')" by fastforce
    show ?thesis
    proof (cases "j = i")
      case True
      have "grows_by ?c (if ok' then [(text_op, p)] else []) (if ok' then c' else if i \<in> set (hub_clients h) then conn_close c' else c')"
        using grows_by_write [OF w [unfolded True], of "if ok' then c' else if i \<in> set (hub_clients h) then conn_close c' else c'"]
          write_frame_opened [OF w] member True by (auto split: if_splits)
      with True w i show ?thesis by (auto simp: Send hub_send_def hub_write_def hub_remove_conn split: if_splits)
    next
      case False
      with i w show ?thesis by (simp add: Send hub_send_def hub_write_def hub_remove_conn grows_by_same)
    qed
  next
    case (Receive j opcode p)
    show ?thesis
    proof (cases "j = i")
      case True
      obtain ok' c' where close: "write_frame close_op p ?c = (ok', c')" by fastforce
      obtain ok'' c'' where pong: "write_frame pong_op p ?c = (ok'', c'')" by fastforce
      note writes = grows_by_write [OF close, of "if i \<in> set (hub_clients h) then conn_close c' else c'"]
        grows_by_write [OF pong, of "if ok'' then c'' else if i \<in> set (hub_clients h) then conn_close c'' else c''"]
        write_frame_opened [OF close] write_frame_opened [OF pong]
      show ?thesis
        using i True close pong member writes
        by (auto simp: Receive arrive_def handle_frame_def hub_conn_simps grows_by_same split: bool.split)
    next
      case False
      with i show ?thesis by (auto simp: Receive arrive_def hub_conn_simps grows_by_same split: prod.split option.split)
    qed
  next
    case (Hang_Up j)
    with i show ?thesis by (simp add: hub_remove_conn grows_by_same)
  next
    case (Drain j room)
    with i show ?thesis by (simp add: set_conn_conn grows_by_same)
  qed
qed

lemma hub_after_length: "length (hub_conns h) \<le> length (hub_conns (hub_after ev h))"
  by (cases ev)
    (auto simp: hub_add_def hub_write_def hub_send_def hub_remove_def arrive_def set_conn_def Let_def split: prod.split option.split)

lemma hub_history_client:
  assumes "hub_ok h" "i < length (hub_conns h)" "proper_history evs h" "first_taken evs h i"
  shows "hub_ok (fold hub_after evs h) \<and> i < length (hub_conns (fold hub_after evs h)) \<and>
    grows_by (hub_conns h ! i) (frames_sent evs h i) (hub_conns (fold hub_after evs h) ! i)"
  using assms
proof (induction evs arbitrary: h)
  case Nil
  then show ?case by (simp add: grows_by_same)
next
  case (Cons ev evs)
  have one: "grows_by (hub_conns h ! i) (frames_written ev h i) (hub_conns (hub_after ev h) ! i)"
    using hub_step_client [OF Cons.prems(1,2), of ev] Cons.prems(4) by simp
  have ok: "hub_ok (hub_after ev h)"
    using Cons.prems(3) by (intro hub_ok_after [OF Cons.prems(1)]) (auto split: hub_event.splits)
  have len: "i < length (hub_conns (hub_after ev h))" using hub_after_length [of h ev] Cons.prems(2) by linarith
  from Cons.IH [OF ok len] Cons.prems(3,4) grows_by_trans [OF one] show ?case by simp
qed

end
