(* ===== verification/WebSocket_Properties.thy ===== *)
theory WebSocket_Properties
  imports WebSocket_Streams Server
begin

text \<open>
  What the WebSocket server promises: frames are read as RFC 6455 says, up to the limits of the
  code; the loop of a client answers pings and a close and nothing else, and writes no more than it
  reads; what is written decodes to what was meant; a broadcast reaches every client that takes it
  and drops the others. Last, that parsing a body needs no more fuel than the model gives it.
\<close>

section \<open>Frames\<close>

text \<open>C24. A frame is accepted exactly when it is the frame RFC 6455 describes, final, masked and of
  at most 4096 bytes; it then has the operation, the unmasked payload and the rest of that
  description, whichever of the three encodings of the length the client chose.\<close>
theorem frames_are_read_as_rfc6455:
  "read_frame s = Inr ((opcode, payload), rest) \<longleftrightarrow>
     (\<exists>f. rfc_decode s = Some (f, rest) \<and> rfc_fin f \<and> rfc_key f \<noteq> None \<and> rfc_op f = unat opcode \<and>
        rfc_payload f = payload \<and> length payload \<le> 4096)"
  by (rule read_frame_rfc)

text \<open>A frame that the server writes, followed by anything, decodes to a final, unmasked frame of
  that operation and payload, for payloads of less than four gigabytes, all that the four bytes of
  length the code sends can say.\<close>
theorem written_frames_decode:
  assumes "unat (opcode :: opcode) < 16" "length payload < 2 ^ 32" "taking c" "write_frame opcode payload c = (ok, c')"
  shows "ok \<and> (\<exists>data. conn_out c' = conn_out c @ data \<and>
    (\<forall>rest. rfc_decode (data @ rest) =
       Some (\<lparr>rfc_fin = True, rfc_op = unat opcode, rfc_key = None, rfc_payload = payload\<rparr>, rest)))"
  using assms(3,4) rfc_decode_frame [OF assms(1,2)]
  by (intro conjI exI [of _ "frame_header opcode (length payload) @ payload"]) auto

lemma written_frames_decode_witness:
  "\<exists>ok c'. write_frame text_op (replicate 200 CHR ''x'') \<lparr>conn_out = [], conn_room = None, conn_open = True\<rparr> = (ok, c') \<and> ok \<and>
     rfc_decode (conn_out c') = Some (\<lparr>rfc_fin = True, rfc_op = 1, rfc_key = None, rfc_payload = replicate 200 CHR ''x''\<rparr>, [])"
proof -
  let ?c = "\<lparr>conn_out = [], conn_room = None, conn_open = True\<rparr>"
  obtain ok c' where w: "write_frame text_op (replicate 200 CHR ''x'') ?c = (ok, c')" by fastforce
  have "unat text_op < 16" "length (replicate 200 CHR ''x'') < 2 ^ 32" "taking ?c" by (simp_all add: taking_def)
  from written_frames_decode [OF this w] obtain data where "ok" "conn_out c' = data"
    "\<forall>rest. rfc_decode (data @ rest) =
      Some (\<lparr>rfc_fin = True, rfc_op = unat text_op, rfc_key = None, rfc_payload = replicate 200 CHR ''x''\<rparr>, rest)" by auto
  with w show ?thesis by (metis append_Nil2 unsigned_1)
qed

section \<open>The loop of a client\<close>

lemma client_stream_length: "client_stream s fs t \<Longrightarrow> list_all ignorable fs \<Longrightarrow> length t + 6 * length fs \<le> length s"
proof (induction rule: client_stream.induct)
  case (frame s f rest fs t)
  define opcode :: opcode where "opcode = of_nat (rfc_op f)"
  have "unat opcode = rfc_op f" using frame.prems by (auto simp: ignorable_def opcode_def unat_of_nat)
  then have "read_frame s = Inr ((opcode, rfc_payload f), rest)"
    using frame.hyps frame.prems by (auto simp: read_frame_rfc ignorable_def)
  from read_frame_shorter [OF this] frame show ?case by simp
qed simp

lemma client_stream_snoc:
  "client_stream s fs t \<Longrightarrow> client_stream t [g] u \<Longrightarrow> client_stream s (fs @ [g]) u"
  by (induction rule: client_stream.induct) (auto intro: client_stream.frame)

text \<open>The frames that a client is answered for: the longest run of frames of known operations.\<close>

definition answered_run :: "bytes \<Rightarrow> (nat \<times> bytes) list \<Rightarrow> bytes \<Rightarrow> bool" where
  "answered_run s fs t \<longleftrightarrow> client_stream s fs t \<and> list_all ignorable fs \<and> \<not> (\<exists>f u. client_stream t [f] u \<and> ignorable f)"

lemma answered_run_exists: "\<exists>fs t. answered_run s fs t"
proof (induction "length s" arbitrary: s rule: less_induct)
  case less
  show ?case
  proof (cases "\<exists>f u. client_stream s [f] u \<and> ignorable f")
    case True
    then obtain f u where f: "client_stream s [f] u" "ignorable f" by blast
    then have "length u < length s" using client_stream_length [OF f(1)] by simp
    from less [OF this] obtain fs t where "answered_run u fs t" by blast
    moreover have "client_stream u fs t \<Longrightarrow> client_stream s (f # fs) t"
      using f(1) by (auto elim!: client_stream.cases [of s] intro: client_stream.frame elim: client_stream.cases)
    ultimately have "answered_run s (f # fs) t" using f(2) by (auto simp: answered_run_def)
    then show ?thesis by blast
  next
    case False
    then have "answered_run s [] s" by (auto simp: answered_run_def intro: client_stream.stop)
    then show ?thesis by blast
  qed
qed

inductive_cases client_stream_oneE: "client_stream t [f] u"

lemma client_stream_one:
  "client_stream t [(n, payload)] u \<longleftrightarrow>
     (\<exists>f. rfc_decode t = Some (f, u) \<and> rfc_fin f \<and> rfc_key f \<noteq> None \<and> rfc_op f = n \<and> rfc_payload f = payload)"
  by (auto elim!: client_stream_oneE elim: client_stream.cases intro: client_stream.intros)

lemma read_frame_stream:
  "read_frame t = Inr ((opcode, payload), u) \<longleftrightarrow> client_stream t [(unat opcode, payload)] u \<and> length payload \<le> 4096"
  unfolding read_frame_rfc client_stream_one by blast

lemma closing_unique:
  "client_stream t [(8, p)] u \<Longrightarrow> client_stream t [(8, p')] u' \<Longrightarrow> p = p' \<and> u = u'"
  unfolding client_stream_one by auto

text \<open>C25. From a connection that takes what is written, the loop handles the longest run of final
  masked frames that are text, binary, ping or pong and of at most 4096 bytes; it has then written
  one pong for each ping, with its payload and in order, and, if a close frame comes next, that
  frame's payload in a close; nothing else. It ends as closed by the peer just in that case.\<close>
theorem read_loop_answers:
  assumes "taking c"
  shows "\<exists>fs t. answered_run s fs t \<and>
    (if \<exists>payload u. client_stream t [(8, payload)] u \<and> length payload \<le> 4096
     then \<exists>payload u. client_stream t [(8, payload)] u \<and>
       read_loop s c = (Peer_Closed, c\<lparr>conn_out := conn_out c @ pongs fs @ frame_header close_op (length payload) @ payload\<rparr>)
     else fst (read_loop s c) \<notin> {Peer_Closed, Write_Failed} \<and>
       snd (read_loop s c) = c\<lparr>conn_out := conn_out c @ pongs fs\<rparr>)"
proof -
  obtain fs t where run: "answered_run s fs t" using answered_run_exists by blast
  let ?d = "c\<lparr>conn_out := conn_out c @ pongs fs\<rparr>"
  have loop: "read_loop s c = read_loop t ?d"
    using run assms by (intro read_loop_stream) (auto simp: answered_run_def)
  show ?thesis
  proof (cases "read_frame t")
    case (Inl e)
    have "\<not> (\<exists>payload u. client_stream t [(8, payload)] u \<and> length payload \<le> 4096)"
      using Inl read_frame_stream [of t 8] by auto
    moreover have "e \<noteq> Peer_Closed" "e \<noteq> Write_Failed"
      using Inl by (auto simp: read_frame_def split: list.splits if_splits option.splits)
    ultimately show ?thesis using run loop by (intro exI [of _ fs] exI [of _ t]) (simp add: read_loop.simps [of t] Inl)
  next
    case (Inr p)
    then obtain opcode payload u where r: "read_frame t = Inr ((opcode, payload), u)" by (metis surj_pair)
    then have st: "client_stream t [(unat opcode, payload)] u" "length payload \<le> 4096" by (simp_all add: read_frame_stream)
    then have no: "opcode \<notin> {1, 2, 9, 10}"
      using run ignorable_opcode [of opcode payload] by (auto simp: answered_run_def)
    show ?thesis
    proof (cases "opcode = 8")
      case True
      then have closed: "client_stream t [(8, payload)] u" using st by simp
      have ended: "read_loop s c = (Peer_Closed, c\<lparr>conn_out := conn_out c @ pongs fs @ frame_header close_op (length payload) @ payload\<rparr>)"
        using loop assms r True by (simp add: read_loop.simps [of t])
      have ex: "\<exists>payload u. client_stream t [(8, payload)] u \<and> length payload \<le> 4096" using closed st(2) by blast
      show ?thesis
        by (rule exI [of _ fs], rule exI [of _ t], rule conjI [OF run]) (unfold if_P [OF ex], use closed ended in blast)
    next
      case False
      have "unat opcode \<noteq> 8" using False word_unat_eq_iff [of opcode 8] by simp
      then have "\<not> (\<exists>payload u. client_stream t [(8, payload)] u \<and> length payload \<le> 4096)"
        using st(1) by (auto simp: client_stream_one)
      then show ?thesis
        using run loop r False no by (intro exI [of _ fs] exI [of _ t]) (auto simp: read_loop.simps [of t])
    qed
  qed
qed

lemma read_loop_answers_witness:
  "\<exists>fs t. answered_run (map char_of [0x89::nat, 0x81, 1, 2, 3, 4, 0x69]) fs t \<and>
     conn_out (snd (read_loop (map char_of [0x89::nat, 0x81, 1, 2, 3, 4, 0x69])
       \<lparr>conn_out = [], conn_room = None, conn_open = True\<rparr>)) = pongs fs"
proof -
  let ?s = "map char_of [0x89::nat, 0x81, 1, 2, 3, 4, 0x69]" and ?c = "\<lparr>conn_out = [], conn_room = None, conn_open = True\<rparr>"
  have "taking ?c" by (simp add: taking_def)
  from read_loop_answers [OF this, of ?s]
    have "\<exists>fs t. answered_run ?s fs t \<and> (fst (read_loop ?s ?c) \<noteq> Peer_Closed \<longrightarrow> conn_out (snd (read_loop ?s ?c)) = pongs fs)"
    by (elim exE) (auto split: if_splits)
  moreover have "fst (read_loop ?s ?c) \<noteq> Peer_Closed" by code_simp
  ultimately show ?thesis by blast
qed

text \<open>Whatever a client sends, and however much of the answers it takes, the loop writes no more
  bytes than it has read.\<close>
theorem answers_do_not_amplify:
  "length (conn_out (snd (read_loop s c))) \<le> length (conn_out c) + length s"
  by (rule read_loop_no_amplification)

section \<open>Broadcasting\<close>

definition takes :: "bytes \<Rightarrow> conn \<Rightarrow> bool" where
  "takes payload c \<longleftrightarrow> (case conn_room c of None \<Rightarrow> True | Some n \<Rightarrow> length (frame_bytes text_op payload) \<le> n)"

text \<open>C26. A broadcast sends every registered client that takes the whole frame exactly that frame
  and keeps it; every other client has received a proper prefix of the frame, is removed and its
  connection closed; connections that are not registered are left alone. One slow client never
  keeps another from the message.\<close>
theorem broadcast_reaches_every_client:
  assumes "hub_ok h" "i < length (hub_conns h)"
  shows "(i \<in> set (hub_clients (broadcast payload h)) \<longleftrightarrow> i \<in> set (hub_clients h) \<and> takes payload (hub_conns h ! i)) \<and>
    (let c = hub_conns h ! i; d = hub_conns (broadcast payload h) ! i
     in if i \<notin> set (hub_clients h) then d = c
        else if takes payload c then conn_open d \<and> conn_out d = conn_out c @ frame_bytes text_op payload
        else \<not> conn_open d \<and> (\<exists>n < length (frame_bytes text_op payload). conn_out d = conn_out c @ take n (frame_bytes text_op payload)))"
proof -
  have "conn_open (hub_conns h ! i) \<longleftrightarrow> i \<in> set (hub_clients h)" using assms by (simp add: hub_ok_def)
  with broadcast_spec [OF assms(1), of payload] assms(2) show ?thesis
    by (auto simp: write_frame_open_conn takes_def conn_close_def Let_def not_le split: option.splits if_splits)
qed

text \<open>Three clients, the second of which has no room left.\<close>

definition bench_hub :: hub where
  "bench_hub =
     \<lparr>hub_clients = [0, 1, 2],
      hub_conns = map (\<lambda>room. \<lparr>conn_out = [], conn_room = room, conn_open = True\<rparr>) [None, Some 3, None]\<rparr>"

lemma bench_hub_ok: "hub_ok bench_hub"
  by (auto simp: hub_ok_def bench_hub_def less_Suc_eq)

lemma broadcast_reaches_every_client_witness:
  "hub_clients (broadcast ''hello'' bench_hub) = [0, 2] \<and> \<not> conn_open (hub_conns (broadcast ''hello'' bench_hub) ! 1)"
proof -
  have "hub_clients (broadcast ''hello'' bench_hub) = [0, 2]" by code_simp
  moreover have "\<not> takes ''hello'' (hub_conns bench_hub ! 1)" "1 \<in> set (hub_clients bench_hub)"
    "1 < length (hub_conns bench_hub)" by code_simp+
  ultimately show ?thesis
    using broadcast_reaches_every_client [OF bench_hub_ok, of 1 "''hello''"] by (auto simp: Let_def)
qed

section \<open>What a client reads over time\<close>



text \<open>When the first state is not taken whole, the client stays, and what it reads next is no frame
  that was sent.\<close>

lemma torn_first_frame:
  "\<exists>f. hub_clients (fold hub_after [First 1 ''hello'', Drain 1 None, Send 1 ''bye''] bench_hub) = [0, 1, 2] \<and>
     rfc_decode (conn_out (hub_conns (fold hub_after [First 1 ''hello'', Drain 1 None, Send 1 ''bye''] bench_hub) ! 1)) = Some (f, ''e'') \<and>
     rfc_payload f \<notin> {''hello'', ''bye''}"
proof -
  let ?h = "fold hub_after [First 1 ''hello'', Drain 1 None, Send 1 ''bye''] bench_hub"
  have "hub_clients ?h = [0, 1, 2]" "case rfc_decode (conn_out (hub_conns ?h ! 1)) of
      None \<Rightarrow> False | Some (f, rest) \<Rightarrow> rest = ''e'' \<and> rfc_payload f \<notin> {''hello'', ''bye''}" by code_simp+
  then show ?thesis by (auto split: option.splits)
qed

section \<open>Parsing a body\<close>

text \<open>The parser of bodies needs no more fuel than the model gives it: with any fuel beyond
  twice the limit on bodies it finds the same value and the same rest, so that running out of fuel
  is never the reason a request is refused.\<close>
theorem body_fuel_suffices:
  assumes "2 * body_limit < fuel"
  shows "decode_json flds zero r =
    (case json_value fuel max_nesting (take body_limit (rq_body r)) of
       None \<Rightarrow> None
     | Some (v, rest) \<Rightarrow>
         (case decode_struct True flds v zero of
            None \<Rightarrow> None
          | Some x \<Rightarrow> if skip_space rest = [] then Some x else None))"
proof -
  have "2 * length (take body_limit (rq_body r)) < fuel" using assms by simp
  from json_parse_any_fuel [OF this] show ?thesis by (simp add: decode_json_def)
qed

lemma body_fuel_suffices_witness:
  "\<forall>r. decode_json profile_fields [] r =
    (case json_value 200000 max_nesting (take body_limit (rq_body r)) of
       None \<Rightarrow> None
     | Some (v, rest) \<Rightarrow>
         (case decode_struct True profile_fields v [] of
            None \<Rightarrow> None
          | Some x \<Rightarrow> if skip_space rest = [] then Some x else None))"
  by (intro allI, rule body_fuel_suffices) (simp add: body_limit_def)

end
