(* ===== verification/Credentials.thy ===== *)
theory Credentials
  imports Passwords Go_Json Go_Path "HOL-Library.Word"
begin

text \<open>
  The credentials file of \<open>internal/auth/credentials.go\<close>: what is written, reading it back, and
  the system calls that replace it. A disk maps paths to files; a file has contents, permission
  bits, and whether what it holds has been synced. Each of the calls may fail, and the program or
  the machine may stop after any of them, so that saving returns, beside its result, the disk
  after every call. Directories are not kept: a path is looked up by its clean form, and making
  a directory only succeeds or fails.
\<close>

record credential =
  cr_username :: bytes
  cr_hash :: bytes

definition zero_credential :: credential where
  "zero_credential = \<lparr>cr_username = [], cr_hash = []\<rparr>"

section \<open>The text of the file\<close>

abbreviation newline :: char where
  "newline \<equiv> CHR 0x0A"

text \<open>\<open>json.MarshalIndent\<close> with an indent of two spaces, and the newline that is appended.\<close>

definition encode_credential :: "credential \<Rightarrow> bytes" where
  "encode_credential c =
     ''{'' @ newline # ''  '' @ json_quote ''username'' @ '': '' @ json_quote (cr_username c) @ '','' @ newline # ''  ''
       @ json_quote ''passwordHash'' @ '': '' @ json_quote (cr_hash c) @ newline # ''}'' @ [newline]"

definition credential_fields :: "credential json_field list" where
  "credential_fields =
     [(''username'', string_field (\<lambda>v c. c\<lparr>cr_username := v\<rparr>)), (''passwordHash'', string_field (\<lambda>v c. c\<lparr>cr_hash := v\<rparr>))]"

text \<open>\<open>json.Unmarshal\<close> into \<open>Credentials\<close>.\<close>

definition decode_credential :: "bytes \<Rightarrow> credential option" where
  "decode_credential raw =
     (case json_parse raw of
        None \<Rightarrow> None
      | Some (v, rest) \<Rightarrow>
          if skip_space rest \<noteq> [] then None else decode_struct False credential_fields v zero_credential)"

section \<open>The disk\<close>

record disk_file =
  df_data :: bytes
  df_mode :: "16 word"
  df_synced :: bool

text \<open>A path leads to a file by its number; \<open>dk_files\<close> keeps the files that no path leads to any more.\<close>

record disk =
  dk_names :: "bytes \<Rightarrow> nat option"
  dk_files :: "disk_file list"

definition file_at :: "disk \<Rightarrow> bytes \<Rightarrow> disk_file option" where
  "file_at d path = map_option (\<lambda>i. dk_files d ! i) (dk_names d (path_clean path))"

datatype os_call = Mkdir_All | Create_Temp | Chmod | Write_Temp | Sync | Close | Rename | Remove | Open_File | Write_File

text \<open>
  What the system does to one save: the calls that fail, how much a failing write has written,
  the random parts of the temporary names, in the order in which they are drawn, and the umask.
\<close>

record save_env =
  se_fails :: "os_call \<Rightarrow> bool"
  se_short :: nat
  se_random :: "nat \<Rightarrow> bytes"
  se_umask :: "16 word"

text \<open>\<open>filepath.Dir\<close>.\<close>

definition path_dir :: "bytes \<Rightarrow> bytes" where
  "path_dir p = path_clean (rev (dropWhile (\<lambda>c. c \<noteq> slash) (rev p)))"

definition temp_name :: "save_env \<Rightarrow> bytes \<Rightarrow> nat \<Rightarrow> bytes" where
  "temp_name env dir k = (if has_suffix dir [slash] then dir else dir @ [slash]) @ ''.credentials-'' @ se_random env k"

text \<open>
  \<open>os.CreateTemp\<close> opens with \<open>O_EXCL\<close> and mode 0600; the umask takes bits away. A name that is
  taken makes it draw another one, for ten thousand tries; the number of tries left comes first.
\<close>

fun free_name :: "nat \<Rightarrow> nat \<Rightarrow> save_env \<Rightarrow> bytes \<Rightarrow> disk \<Rightarrow> bytes option" where
  "free_name 0 k env dir d = None"
| "free_name (Suc n) k env dir d =
     (if dk_names d (path_clean (temp_name env dir k)) = None then Some (temp_name env dir k)
      else free_name n (Suc k) env dir d)"

definition temp_tries :: nat where
  "temp_tries = 10000"

definition create_temp :: "save_env \<Rightarrow> bytes \<Rightarrow> disk \<Rightarrow> (bytes \<times> disk) option" where
  "create_temp env dir d =
     (if se_fails env Create_Temp then None
      else case free_name temp_tries 0 env dir d of
        None \<Rightarrow> None
      | Some name \<Rightarrow> Some (name, \<lparr>dk_names = (dk_names d)(path_clean name \<mapsto> length (dk_files d)),
           dk_files = dk_files d @ [\<lparr>df_data = [], df_mode = 0x180 AND NOT (se_umask env), df_synced = False\<rparr>]\<rparr>))"

definition update_file :: "bytes \<Rightarrow> (disk_file \<Rightarrow> disk_file) \<Rightarrow> disk \<Rightarrow> disk" where
  "update_file name f d =
     (case dk_names d (path_clean name) of
        None \<Rightarrow> d
      | Some i \<Rightarrow> d\<lparr>dk_files := (dk_files d)[i := f (dk_files d ! i)]\<rparr>)"

definition append_file :: "bytes \<Rightarrow> bytes \<Rightarrow> disk \<Rightarrow> disk" where
  "append_file name data = update_file name (\<lambda>f. f\<lparr>df_data := df_data f @ data, df_synced := False\<rparr>)"

definition os_remove :: "save_env \<Rightarrow> bytes \<Rightarrow> disk \<Rightarrow> disk" where
  "os_remove env name d =
     (if se_fails env Remove then d else d\<lparr>dk_names := (dk_names d)(path_clean name := None)\<rparr>)"

definition os_rename :: "bytes \<Rightarrow> bytes \<Rightarrow> disk \<Rightarrow> disk" where
  "os_rename old new d =
     (if path_clean old = path_clean new then d
      else d\<lparr>dk_names := (dk_names d)(path_clean new := dk_names d (path_clean old), path_clean old := None)\<rparr>)"

section \<open>Saving\<close>

text \<open>From the open temporary file to the rename: whether it succeeds, and the disks on the way.\<close>

definition fill_and_rename :: "save_env \<Rightarrow> bytes \<Rightarrow> bytes \<Rightarrow> bytes \<Rightarrow> disk \<Rightarrow> bool \<times> disk list" where
  "fill_and_rename env temp encoded path d =
     (if se_fails env Chmod then (False, [])
      else let d1 = update_file temp (\<lambda>f. f\<lparr>df_mode := 0x180\<rparr>) d
      in if se_fails env Write_Temp then (False, [d1, append_file temp (take (se_short env) encoded) d1])
         else let d2 = append_file temp encoded d1
         in if se_fails env Sync then (False, [d1, d2])
            else let d3 = update_file temp (\<lambda>f. f\<lparr>df_synced := True\<rparr>) d2
            in if se_fails env Close \<or> se_fails env Rename then (False, [d1, d2, d3])
               else (True, [d1, d2, d3, os_rename temp path d3]))"

text \<open>The disks start with the one before and end with the one after, when the deferred removal has run.\<close>

definition save_credentials :: "save_env \<Rightarrow> bytes \<Rightarrow> credential \<Rightarrow> disk \<Rightarrow> bool \<times> disk list" where
  "save_credentials env path c d =
     (if cr_username c = [] \<or> validate_password_hash (cr_hash c) \<noteq> None \<or> se_fails env Mkdir_All then (False, [d])
      else case create_temp env (path_dir path) d of
        None \<Rightarrow> (False, [d])
      | Some (temp, d') \<Rightarrow>
          (let (ok, ds) = fill_and_rename env temp (encode_credential c) path d'
           in (ok, d # d' # ds @ [os_remove env temp (last (d' # ds))])))"

section \<open>Loading\<close>

datatype load_error = Load_Not_Exist | Load_Failed | Load_Json | Load_No_Username | Load_Bad_Hash

text \<open>\<open>os.ReadFile\<close>, where the first argument says whether reading an existing file fails.\<close>

definition read_file :: "bool \<Rightarrow> disk \<Rightarrow> bytes \<Rightarrow> (load_error, bytes) result" where
  "read_file failing d path =
     (case file_at d path of
        None \<Rightarrow> Inl Load_Not_Exist
      | Some f \<Rightarrow> if failing then Inl Load_Failed else Inr (df_data f))"

definition load_text :: "bytes \<Rightarrow> (load_error, credential) result" where
  "load_text raw =
     (case decode_credential raw of
        None \<Rightarrow> Inl Load_Json
      | Some c \<Rightarrow>
          if cr_username c = [] then Inl Load_No_Username
          else if validate_password_hash (cr_hash c) \<noteq> None then Inl Load_Bad_Hash
          else Inr c)"

definition load_credentials :: "bool \<Rightarrow> disk \<Rightarrow> bytes \<Rightarrow> (load_error, credential) result" where
  "load_credentials failing d path = result_bind (read_file failing d path) load_text"

section \<open>Reading back what was written\<close>

lemma skip_space_simps [simp]:
  "skip_space [] = []" "skip_space (c # s) = (if json_space c then skip_space s else c # s)"
  by (simp_all add: skip_space_def)

lemma json_space_facts [simp]:
  "json_space newline" "json_space CHR '' ''" "\<not> json_space quote" "\<not> json_space CHR ''{''" "\<not> json_space CHR ''}''"
  "\<not> json_space CHR '':''" "\<not> json_space CHR '',''"
  by (simp_all add: json_space_def)

lemma json_string_key:
  "json_string (''username'' @ quote # r) = Some (''username'', r)"
  "json_string (''passwordHash'' @ quote # r) = Some (''passwordHash'', r)"
  using json_string_quote_body [of "''username''" r] json_string_quote_body [of "''passwordHash''" r]
  by (simp_all add: quote_body.simps quote_byte_def)

lemma json_value_string:
  assumes "valid_utf8 s"
  shows "json_value (Suc n) d (CHR '' '' # json_quote s @ r) = Some (JString s, r)"
  using json_string_quote_body [OF assms, of r] by (simp add: json_quote_def)

lemma json_member_string:
  assumes key: "json_string (key @ quote # CHR '':'' # CHR '' '' # json_quote s @ r) = Some (key, CHR '':'' # CHR '' '' # json_quote s @ r)"
    and "valid_utf8 s" "skip_space r = e # w"
  shows "json_members (Suc (Suc n)) d (newline # CHR '' '' # CHR '' '' # quote # key @ quote # CHR '':'' # CHR '' '' # json_quote s @ r) =
    (if e = CHR '','' then map_option (\<lambda>(ms, r'). ((key, JString s) # ms, r')) (json_members (Suc n) d w)
     else if e = CHR ''}'' then Some ([(key, JString s)], w) else None)"
  using key json_value_string [OF assms(2), of n d r] assms(3) by simp

lemma json_parse_encoded:
  assumes "valid_utf8 (cr_username c)" "valid_utf8 (cr_hash c)"
  shows "json_parse (encode_credential c) =
    Some (JObject [(''username'', JString (cr_username c)), (''passwordHash'', JString (cr_hash c))], [newline])"
proof -
  define tail where "tail = newline # ''  '' @ json_quote ''passwordHash'' @ '': '' @ json_quote (cr_hash c) @ newline # ''}'' @ [newline]"
  define body where "body = newline # ''  '' @ json_quote ''username'' @ '': '' @ json_quote (cr_username c) @ '','' @ tail"
  have enc: "encode_credential c = CHR ''{'' # body"
    by (simp add: encode_credential_def body_def tail_def json_quote_def)
  have q: "json_quote ''username'' = quote # ''username'' @ [quote]" "json_quote ''passwordHash'' = quote # ''passwordHash'' @ [quote]"
    by (simp_all add: json_quote_def quote_body.simps quote_byte_def)
  have tail: "json_members (Suc (Suc n)) d tail = Some ([(''passwordHash'', JString (cr_hash c))], [newline])" for n d
  proof -
    have "skip_space (newline # ''}'' @ [newline]) = CHR ''}'' # [newline]" by simp
    from json_member_string [OF json_string_key(2) assms(2) this, of n d] show ?thesis by (simp add: tail_def q del: json_members.simps)
  qed
  have body: "json_members (Suc (Suc (Suc n))) d body =
      Some ([(''username'', JString (cr_username c)), (''passwordHash'', JString (cr_hash c))], [newline])" for n d
  proof -
    have "skip_space ('','' @ tail) = CHR '','' # tail" by simp
    from json_member_string [OF json_string_key(1) assms(1) this, of "Suc n" d] show ?thesis by (simp add: body_def q tail del: json_members.simps)
  qed
  have start: "\<not> has_prefix (skip_space body) ''}''" by (simp add: body_def q has_prefix_iff)
  have parsed: "json_value (Suc (Suc (Suc (Suc n)))) (Suc d) (CHR ''{'' # body) =
      Some (JObject [(''username'', JString (cr_username c)), (''passwordHash'', JString (cr_hash c))], [newline])" for n d
    using start body [of n d] by (simp del: json_members.simps)
  have "json_value (2 * length (CHR ''{'' # body) + 4) max_nesting (CHR ''{'' # body) =
      Some (JObject [(''username'', JString (cr_username c)), (''passwordHash'', JString (cr_hash c))], [newline])"
    using parsed [of "2 * length (CHR ''{'' # body)" 9999] by (simp add: max_nesting_def eval_nat_numeral)
  with json_parse_any_fuel [of "CHR ''{'' # body" "2 * length (CHR ''{'' # body) + 4"] show ?thesis by (simp add: enc)
qed

lemma decode_encode_credential:
  assumes "valid_utf8 (cr_username c)" "valid_utf8 (cr_hash c)"
  shows "decode_credential (encode_credential c) = Some c"
  using json_parse_encoded [OF assms]
  by (simp add: decode_credential_def decode_struct_def credential_fields_def find_field_def string_field_def zero_credential_def)

text \<open>Hashes that are accepted are ASCII, so valid UTF-8.\<close>

lemma ascii_simps [simp]: "ascii []" "ascii (c # s) \<longleftrightarrow> byte_of c < 128 \<and> ascii s" "ascii (s @ t) \<longleftrightarrow> ascii s \<and> ascii t"
  by (simp_all add: ascii_def)

lemma parse_digits_ascii: "parse_digits acc s = Some n \<Longrightarrow> ascii s"
  by (induction acc s rule: parse_digits.induct) (auto simp: digit_value_def split: option.splits if_splits)

lemma digit_value_ascii: "digit_value c = Some n \<Longrightarrow> byte_of c < 128"
  by (auto simp: digit_value_def split: if_splits)

lemma atoi_ascii: "atoi s = Some n \<Longrightarrow> ascii s"
  by (cases s) (auto simp: atoi_def parse_nat_def has_prefix_def dest: digit_value_ascii dest!: parse_digits_ascii split: if_splits option.splits)

lemma b64_values_ascii: "b64_values std_alphabet s = Some vs \<Longrightarrow> ascii s"
  by (induction s arbitrary: vs)
    (auto simp: b64_value_def Let_def std_alphabet_def split: option.splits if_splits)

lemma raw_std_decode_ascii: "raw_std_decode s = Some v \<Longrightarrow> ascii s"
proof -
  assume "raw_std_decode s = Some v"
  then have "ascii (skip_newlines s)"
    by (auto simp: raw_decode_def decode_values_def dest: b64_values_ascii split: option.splits)
  then show "ascii s" by (induction s) (auto simp: skip_newlines_def split: if_splits)
qed

lemma accepted_hash_ascii:
  assumes "validate_password_hash hash = None" shows "ascii hash"
proof -
  obtain n salt digest where "well_formed_hash hash n salt digest" using assms validate_password_hash_iff by blast
  then obtain p1 p2 p3 where p: "split CHR ''$'' hash = [hash_algorithm, p1, p2, p3]" "ascii p1" "ascii p2" "ascii p3"
    unfolding well_formed_hash_def using atoi_ascii raw_std_decode_ascii by blast
  have "hash = join [CHR ''$''] [hash_algorithm, p1, p2, p3]" using join_split [of "CHR ''$''" hash] p(1) by simp
  then show ?thesis using p(2-) by (simp add: hash_algorithm_def)
qed

lemma load_encoded:
  assumes "valid_utf8 (cr_username c)" "cr_username c \<noteq> []" "validate_password_hash (cr_hash c) = None"
  shows "load_text (encode_credential c) = Inr c"
  using assms decode_encode_credential [OF assms(1) valid_utf8_ascii [OF accepted_hash_ascii [OF assms(3)]]]
  by (simp add: load_text_def)

section \<open>What saving does\<close>

definition disk_ok :: "disk \<Rightarrow> bool" where
  "disk_ok d \<longleftrightarrow> (\<forall>p i. dk_names d p = Some i \<longrightarrow> i < length (dk_files d))"

definition content :: "disk \<Rightarrow> bytes \<Rightarrow> bytes option" where
  "content d path = map_option df_data (file_at d path)"

text \<open>The disk with the temporary file, whose number is the next one.\<close>

definition temp_disk :: "disk \<Rightarrow> bytes \<Rightarrow> disk_file \<Rightarrow> disk" where
  "temp_disk d name f =
     \<lparr>dk_names = (dk_names d)(path_clean name \<mapsto> length (dk_files d)), dk_files = dk_files d @ [f]\<rparr>"

text \<open>The name that is found is the first free one; none is found when all that are tried are taken.\<close>

definition name_free :: "save_env \<Rightarrow> bytes \<Rightarrow> disk \<Rightarrow> nat \<Rightarrow> bool" where
  "name_free env dir d k \<longleftrightarrow> dk_names d (path_clean (temp_name env dir k)) = None"

lemma free_name_Some:
  "free_name n k env dir d = Some name \<Longrightarrow>
     \<exists>i. k \<le> i \<and> i < k + n \<and> name = temp_name env dir i \<and> name_free env dir d i"
proof (induction n k env dir d rule: free_name.induct)
  case (2 n k env dir d)
  show ?case
  proof (cases "name_free env dir d k")
    case True
    with 2(2) show ?thesis by (intro exI [of _ k]) (simp add: name_free_def)
  next
    case False
    with 2 obtain i where "Suc k \<le> i" "i < Suc k + n" "name = temp_name env dir i" "name_free env dir d i"
      by (auto simp: name_free_def)
    then show ?thesis by (intro exI [of _ i]) simp
  qed
qed simp

lemma free_name_None: "free_name n k env dir d = None \<longleftrightarrow> (\<forall>i. k \<le> i \<and> i < k + n \<longrightarrow> \<not> name_free env dir d i)"
proof (induction n k env dir d rule: free_name.induct)
  case (2 n k env dir d)
  have "(k \<le> i \<and> i < k + Suc n) = (i = k \<or> Suc k \<le> i \<and> i < Suc k + n)" for i by auto
  with 2 show ?case by (auto simp: name_free_def)
qed auto

lemma create_temp_disk:
  assumes "create_temp env dir d = Some (name, d')"
  obtains k where "k < temp_tries" "name = temp_name env dir k" "\<not> se_fails env Create_Temp"
    "dk_names d (path_clean name) = None"
    "d' = temp_disk d name \<lparr>df_data = [], df_mode = 0x180 AND NOT (se_umask env), df_synced = False\<rparr>"
proof -
  have found: "free_name temp_tries 0 env dir d = Some name" "\<not> se_fails env Create_Temp"
    "d' = temp_disk d name \<lparr>df_data = [], df_mode = 0x180 AND NOT (se_umask env), df_synced = False\<rparr>"
    using assms by (auto simp: create_temp_def temp_disk_def split: if_splits option.splits)
  from free_name_Some [OF found(1)] found(2,3) show thesis by (auto simp: name_free_def intro: that)
qed

lemma create_temp_None:
  "create_temp env dir d = None \<longleftrightarrow> se_fails env Create_Temp \<or> \<not> (\<exists>k<temp_tries. name_free env dir d k)"
  using free_name_None [of temp_tries 0 env dir d] by (auto simp: create_temp_def split: option.splits)

lemma temp_disk_steps:
  "update_file name g (temp_disk d name f) = temp_disk d name (g f)"
  "append_file name data (temp_disk d name f) = temp_disk d name (f\<lparr>df_data := df_data f @ data, df_synced := False\<rparr>)"
  by (simp_all add: update_file_def append_file_def temp_disk_def)

lemma update_file_id: "update_file name (\<lambda>f. f) d = d"
  by (cases "dk_names d (path_clean name)") (simp_all add: update_file_def)

definition with_new :: "disk \<Rightarrow> bytes \<Rightarrow> disk_file \<Rightarrow> disk" where
  "with_new d path f = \<lparr>dk_names = (dk_names d)(path_clean path \<mapsto> length (dk_files d)), dk_files = dk_files d @ [f]\<rparr>"

lemma temp_disk_rename:
  "dk_names d (path_clean name) = None \<Longrightarrow> path_clean name \<noteq> path_clean path \<Longrightarrow>
   os_rename name path (temp_disk d name f) = with_new d path f"
  by (auto simp: os_rename_def temp_disk_def with_new_def)

lemma file_at_with_new:
  "disk_ok d \<Longrightarrow> file_at (with_new d path f) p = (if path_clean p = path_clean path then Some f else file_at d p)"
  by (cases "dk_names d (path_clean p)") (auto simp: file_at_def with_new_def disk_ok_def nth_append)

text \<open>A disk on the way to the new file, and one that has it.\<close>

definition before_rename :: "bytes \<Rightarrow> disk \<Rightarrow> disk \<Rightarrow> bool" where
  "before_rename path d x \<longleftrightarrow>
     take (length (dk_files d)) (dk_files x) = dk_files d \<and> dk_names x (path_clean path) = dk_names d (path_clean path)"

definition after_rename :: "bytes \<Rightarrow> bytes \<Rightarrow> disk \<Rightarrow> disk \<Rightarrow> bool" where
  "after_rename path encoded d x \<longleftrightarrow>
     x = with_new d path \<lparr>df_data = encoded, df_mode = 0x180, df_synced = True\<rparr>"

definition private_from :: "nat \<Rightarrow> disk \<Rightarrow> bool" where
  "private_from n x \<longleftrightarrow> (\<forall>f\<in>set (drop n (dk_files x)). df_mode f AND 0x3F = 0)"

lemma before_rename_self [simp]: "before_rename path d d"
  by (simp add: before_rename_def)

lemma before_rename_temp [simp]:
  "path_clean name \<noteq> path_clean path \<Longrightarrow> before_rename path d (temp_disk d name f)"
  by (simp add: before_rename_def temp_disk_def)

lemma private_modes [simp]: "(0x180 AND NOT umask) AND 0x3F = (0 :: 16 word)" "(0x180 :: 16 word) AND 0x3F = 0"
proof -
  show "(0x180 :: 16 word) AND 0x3F = 0" by simp
  then show "(0x180 AND NOT umask) AND 0x3F = (0 :: 16 word)" by (metis and.assoc and.commute and_zero_eq)
qed

lemma private_disks [simp]:
  "private_from (length (dk_files d)) d"
  "private_from (length (dk_files d)) (temp_disk d name f) \<longleftrightarrow> df_mode f AND 0x3F = 0"
  "private_from (length (dk_files d)) (with_new d path f) \<longleftrightarrow> df_mode f AND 0x3F = 0"
  by (simp_all add: private_from_def temp_disk_def with_new_def)

lemma os_remove_temp:
  "os_remove env name (temp_disk d name f) =
     (if se_fails env Remove then temp_disk d name f
      else \<lparr>dk_names = (dk_names d)(path_clean name := None), dk_files = dk_files d @ [f]\<rparr>)"
  by (simp add: os_remove_def temp_disk_def)

lemma before_rename_remove [simp]:
  "path_clean name \<noteq> path_clean path \<Longrightarrow> before_rename path d (os_remove env name (temp_disk d name f))"
  by (simp add: os_remove_temp) (simp add: before_rename_def)

lemma private_remove [simp]: "private_from n (os_remove env name x) = private_from n x"
  by (simp add: private_from_def os_remove_def)

lemma os_remove_with_new:
  "dk_names d (path_clean name) = None \<Longrightarrow> path_clean name \<noteq> path_clean path \<Longrightarrow>
   os_remove env name (with_new d path f) = with_new d path f"
  by (auto simp: os_remove_def with_new_def)

text \<open>The calls of a save, all that can fail but the removal.\<close>

definition save_succeeds :: "save_env \<Rightarrow> bytes \<Rightarrow> credential \<Rightarrow> disk \<Rightarrow> bool" where
  "save_succeeds env path c d \<longleftrightarrow>
     cr_username c \<noteq> [] \<and> validate_password_hash (cr_hash c) = None \<and>
     (\<exists>k<temp_tries. name_free env (path_dir path) d k) \<and>
     \<not> (\<exists>call\<in>{Mkdir_All, Create_Temp, Chmod, Write_Temp, Sync, Close, Rename}. se_fails env call)"

text \<open>No temporary name that may be drawn is the name of the file itself.\<close>

definition temp_apart :: "save_env \<Rightarrow> bytes \<Rightarrow> bool" where
  "temp_apart env path \<longleftrightarrow> (\<forall>k<temp_tries. path_clean (temp_name env (path_dir path) k) \<noteq> path_clean path)"

lemma save_credentials_cases:
  assumes "save_credentials env path c d = (ok, ds)" "temp_apart env path"
  obtains (failed) "\<not> ok" "\<not> save_succeeds env path c d" "ds \<noteq> []" "list_all (before_rename path d) ds"
    "list_all (private_from (length (dk_files d))) ds"
  | (saved) bs where "ok" "save_succeeds env path c d" "ds = bs @ replicate 2 (with_new d path \<lparr>df_data = encode_credential c, df_mode = 0x180, df_synced = True\<rparr>)"
    "list_all (before_rename path d) bs" "list_all (private_from (length (dk_files d))) ds"
proof (cases "cr_username c = [] \<or> validate_password_hash (cr_hash c) \<noteq> None \<or> se_fails env Mkdir_All \<or>
    create_temp env (path_dir path) d = None")
  case True
  then have "(ok, ds) = (False, [d])"
    using assms(1) by (auto simp: save_credentials_def split: if_splits)
  moreover have "\<not> save_succeeds env path c d"
    using True by (auto simp: save_succeeds_def create_temp_None)
  ultimately show thesis by (intro failed) simp_all
next
  case False
  define f0 where "f0 = \<lparr>df_data = [], df_mode = 0x180 AND NOT (se_umask env), df_synced = False\<rparr>"
  from False obtain temp d' where found: "create_temp env (path_dir path) d = Some (temp, d')" by auto
  from create_temp_disk [OF this] obtain k where k: "k < temp_tries" "temp = temp_name env (path_dir path) k"
    and "dk_names d (path_clean temp) = None" "\<not> se_fails env Create_Temp" "d' = temp_disk d temp f0"
    unfolding f0_def by blast
  with found have created: "create_temp env (path_dir path) d = Some (temp, temp_disk d temp f0)"
    "dk_names d (path_clean temp) = None" "\<not> se_fails env Create_Temp" by simp_all
  have free: "\<exists>k<temp_tries. name_free env (path_dir path) d k" using k created(2) by (auto simp: name_free_def)
  have apart: "path_clean temp \<noteq> path_clean path" using assms(2) k by (simp add: temp_apart_def)
  obtain fs where fill: "fill_and_rename env temp (encode_credential c) path (temp_disk d temp f0) = (ok, fs)"
    "ds = d # temp_disk d temp f0 # fs @ [os_remove env temp (last (temp_disk d temp f0 # fs))]"
    using assms(1) False created(1) by (auto simp: save_credentials_def Let_def split: prod.splits)
  note steps = temp_disk_steps temp_disk_rename [OF created(2) apart] f0_def
  show thesis
  proof (cases ok)
    case True
    have "fill_and_rename env temp (encode_credential c) path (temp_disk d temp f0) = (True, fs)" using fill(1) True by simp
    note f = this [unfolded fill_and_rename_def, simplified, simplified steps Let_def, simplified]
    from f have "save_succeeds env path c d"
      using False created free by (auto simp: save_succeeds_def split: if_splits)
    moreover have "ds = (butlast (butlast ds)) @ replicate 2 (with_new d path \<lparr>df_data = encode_credential c, df_mode = 0x180, df_synced = True\<rparr>)"
      using f fill(2) os_remove_with_new [OF created(2) apart]
      by (auto simp: numeral_2_eq_2 split: if_splits)
    moreover have "list_all (before_rename path d) (butlast (butlast ds))" "list_all (private_from (length (dk_files d))) ds"
      using f fill(2) os_remove_with_new [OF created(2) apart] apart by (auto simp: f0_def split: if_splits)
    ultimately show thesis using True by (intro saved) auto
  next
    case no: False
    have "fill_and_rename env temp (encode_credential c) path (temp_disk d temp f0) = (False, fs)" using fill(1) no by simp
    note f = this [unfolded fill_and_rename_def, simplified, simplified steps Let_def, simplified]
    from f have "\<not> save_succeeds env path c d" by (auto simp: save_succeeds_def split: if_splits)
    moreover have "list_all (before_rename path d) ds" "list_all (private_from (length (dk_files d))) ds"
      using f fill(2) apart by (auto simp: f0_def split: if_splits)
    ultimately show thesis using no fill(2) by (intro failed) simp_all
  qed
qed

section \<open>Stopping in the middle\<close>

text \<open>
  What may be found after the machine has stopped while the disks went through \<open>ds\<close>: the calls up
  to the \<open>i\<close>-th were made, of which the changes of names up to the \<open>j\<close>-th have reached the disk, and
  a file that was not synced holds anything. When only the program stops, \<open>j = i\<close> and nothing is lost.
\<close>

definition survives :: "disk list \<Rightarrow> (bytes \<Rightarrow> bytes option) \<Rightarrow> bool" where
  "survives ds view \<longleftrightarrow>
     (\<exists>i j. j \<le> i \<and> i < length ds \<and>
        (\<forall>p. case dk_names (ds ! j) (path_clean p) of
           None \<Rightarrow> view p = None
         | Some k \<Rightarrow> \<exists>data. view p = Some data \<and>
             (df_synced (dk_files (ds ! i) ! k) \<longrightarrow> data = df_data (dk_files (ds ! i) ! k))))"

lemma survivesE:
  assumes "survives ds view"
  obtains i j where "j \<le> i" "i < length ds" "dk_names (ds ! j) (path_clean p) = None" "view p = None"
  | i j k data where "j \<le> i" "i < length ds" "dk_names (ds ! j) (path_clean p) = Some k" "view p = Some data"
      "df_synced (dk_files (ds ! i) ! k) \<Longrightarrow> data = df_data (dk_files (ds ! i) ! k)"
proof -
  obtain i j where ij: "j \<le> i" "i < length ds" and found: "case dk_names (ds ! j) (path_clean p) of None \<Rightarrow> view p = None
      | Some k \<Rightarrow> \<exists>data. view p = Some data \<and>
          (df_synced (dk_files (ds ! i) ! k) \<longrightarrow> data = df_data (dk_files (ds ! i) ! k))"
    using assms unfolding survives_def by blast
  show thesis
  proof (cases "dk_names (ds ! j) (path_clean p)")
    case None
    with ij found that(1) show thesis by simp
  next
    case (Some k)
    with found obtain data where "view p = Some data" "df_synced (dk_files (ds ! i) ! k) \<Longrightarrow> data = df_data (dk_files (ds ! i) ! k)"
      by auto
    with ij Some show thesis by (rule that(2))
  qed
qed

lemma kept_files:
  assumes "take (length fs) gs = fs" "k < length fs" shows "gs ! k = fs ! k"
  using assms by (metis nth_take)

lemma view_before_rename:
  assumes "survives ds view" "list_all (before_rename path d) ds" "disk_ok d"
    and "\<forall>f. file_at d path = Some f \<longrightarrow> df_synced f"
  shows "view path = content d path"
  using assms(1)
proof (cases rule: survivesE [where p = path])
  case (1 i j)
  then have "before_rename path d (ds ! j)" using assms(2) by (simp add: list_all_length)
  with 1 show ?thesis by (simp add: before_rename_def content_def file_at_def)
next
  case (2 i j k data)
  then have b: "before_rename path d (ds ! j)" "before_rename path d (ds ! i)" using assms(2) by (simp_all add: list_all_length)
  have k: "dk_names d (path_clean path) = Some k" using b(1) 2(3) by (simp add: before_rename_def)
  then have "k < length (dk_files d)" using assms(3) by (simp add: disk_ok_def)
  then have "dk_files (ds ! i) ! k = dk_files d ! k" using b(2) by (intro kept_files) (simp_all add: before_rename_def)
  then show ?thesis using 2 k assms(4) by (simp add: content_def file_at_def)
qed

lemma view_of_save:
  assumes "survives (bs @ replicate n new) view" "list_all (before_rename path d) bs" "disk_ok d"
    and "\<forall>f. file_at d path = Some f \<longrightarrow> df_synced f"
    and new: "new = with_new d path \<lparr>df_data = encoded, df_mode = mode, df_synced = True\<rparr>"
  shows "view path = content d path \<or> view path = Some encoded"
  using assms(1)
proof (cases rule: survivesE [where p = path])
  case (1 i j)
  have "j < length bs" using 1 new by (cases "j < length bs") (auto simp: nth_append with_new_def)
  then have "before_rename path d ((bs @ replicate n new) ! j)" using assms(2) by (simp add: nth_append list_all_length)
  with 1 show ?thesis by (simp add: before_rename_def content_def file_at_def)
next
  case (2 i j k data)
  show ?thesis
  proof (cases "j < length bs")
    case True
    then have "before_rename path d ((bs @ replicate n new) ! j)" using assms(2) by (simp add: nth_append list_all_length)
    then have k: "dk_names d (path_clean path) = Some k" using 2(3) by (simp add: before_rename_def)
    then have len: "k < length (dk_files d)" using assms(3) by (simp add: disk_ok_def)
    have "take (length (dk_files d)) (dk_files ((bs @ replicate n new) ! i)) = dk_files d"
      using 2(2) assms(2) new by (auto simp: nth_append list_all_length before_rename_def with_new_def)
    from kept_files [OF this len] show ?thesis using 2 k assms(4) by (simp add: content_def file_at_def)
  next
    case False
    then have "(bs @ replicate n new) ! j = new" "(bs @ replicate n new) ! i = new" using 2 by (simp_all add: nth_append)
    moreover have "dk_names new (path_clean path) = Some (length (dk_files d))"
      "dk_files new ! length (dk_files d) = \<lparr>df_data = encoded, df_mode = mode, df_synced = True\<rparr>"
      by (simp_all add: new with_new_def)
    ultimately show ?thesis using 2 by simp
  qed
qed

text \<open>The result of saving, for the file itself and for every other.\<close>

lemma save_credentials_result:
  assumes "save_credentials env path c d = (ok, ds)" "temp_apart env path"
  shows "ok \<longleftrightarrow> save_succeeds env path c d"
    "ok \<Longrightarrow> file_at (last ds) path = Some \<lparr>df_data = encode_credential c, df_mode = 0x180, df_synced = True\<rparr>"
    "ok \<Longrightarrow> path_clean p \<noteq> path_clean path \<Longrightarrow> disk_ok d \<Longrightarrow> file_at (last ds) p = file_at d p"
    "\<not> ok \<Longrightarrow> disk_ok d \<Longrightarrow> file_at (last ds) path = file_at d path"
proof -
  from assms show "ok \<longleftrightarrow> save_succeeds env path c d" by (cases rule: save_credentials_cases) auto
  from assms show "ok \<Longrightarrow> file_at (last ds) path = Some \<lparr>df_data = encode_credential c, df_mode = 0x180, df_synced = True\<rparr>"
    by (cases rule: save_credentials_cases) (auto simp: file_at_def with_new_def numeral_2_eq_2)
  from assms show "ok \<Longrightarrow> path_clean p \<noteq> path_clean path \<Longrightarrow> disk_ok d \<Longrightarrow> file_at (last ds) p = file_at d p"
    by (cases rule: save_credentials_cases)
      (auto simp: file_at_with_new numeral_2_eq_2)
  from assms show "\<not> ok \<Longrightarrow> disk_ok d \<Longrightarrow> file_at (last ds) path = file_at d path"
  proof (cases rule: save_credentials_cases)
    case failed
    then have b: "before_rename path d (last ds)" by (simp add: list_all_iff)
    show "\<not> ok \<Longrightarrow> disk_ok d \<Longrightarrow> file_at (last ds) path = file_at d path"
      using b kept_files [of "dk_files d" "dk_files (last ds)"]
      by (auto simp: before_rename_def file_at_def disk_ok_def intro!: option.map_cong0 split: option.splits)
  qed simp
qed

end
