(* ===== verification/Go_Ip.thy ===== *)
theory Go_Ip
  imports Go_Net
begin

text \<open>
  \<open>net.ParseIP\<close>, \<open>IP.IsUnspecified\<close> and \<open>IP.IsLoopback\<close> (Go 1.23). An address is its sixteen
  bytes, as numbers; an IPv4 address is the one that IPv6 maps it to.
\<close>

type_synonym ip = "nat list"

definition v4_prefix :: ip where
  "v4_prefix = replicate 10 0 @ [255, 255]"

section \<open>Parsing\<close>

definition ipv4_octet :: "bytes \<Rightarrow> nat option" where
  "ipv4_octet p =
     (if length p > 1 \<and> hd p = CHR ''0'' then None
      else case parse_nat p of None \<Rightarrow> None | Some n \<Rightarrow> if n \<le> 255 then Some n else None)"

definition ipv4_octets :: "bytes \<Rightarrow> ip option" where
  "ipv4_octets s =
     (case map ipv4_octet (split CHR ''.'' s) of
        [Some a, Some b, Some c, Some d] \<Rightarrow> Some [a, b, c, d]
      | _ \<Rightarrow> None)"

definition hex_number :: "bytes \<Rightarrow> nat" where
  "hex_number s = foldl (\<lambda>n c. 16 * n + unhex c) 0 s"

text \<open>
  The loop over the groups: what is left, the bytes so far, and where a double colon was. It stops
  when sixteen bytes are there, at the end, or after an IPv4 address.
\<close>

function ipv6_groups :: "bytes \<Rightarrow> ip \<Rightarrow> nat option \<Rightarrow> (ip \<times> nat option) option" where
  "ipv6_groups s ip ellipsis =
     (if 16 \<le> length ip then (if s = [] then Some (ip, ellipsis) else None)
      else let digits = takeWhile is_hex s; rest = dropWhile is_hex s
      in if digits = [] \<or> 4 < length digits then None
         else if has_prefix rest ''.'' then
           (if ellipsis = None \<and> length ip \<noteq> 12 then None
            else if 16 < length ip + 4 then None
            else map_option (\<lambda>octets. (ip @ octets, ellipsis)) (ipv4_octets s))
         else
           let ip = ip @ [hex_number digits div 256, hex_number digits mod 256]
           in case rest of
                [] \<Rightarrow> Some (ip, ellipsis)
              | [_] \<Rightarrow> None
              | colon # c # t \<Rightarrow>
                  if colon \<noteq> CHR '':'' then None
                  else if c = CHR '':'' then
                    (if ellipsis \<noteq> None then None
                     else if t = [] then Some (ip, Some (length ip))
                     else ipv6_groups t ip (Some (length ip)))
                  else ipv6_groups (c # t) ip ellipsis)"
  by pat_completeness auto
termination
proof (relation "measure (\<lambda>(s, _, _). length s)", goal_cases)
  case (2 s ip ellipsis digits rest ip' colon l c t)
  have "length (dropWhile is_hex s) \<le> length s" by (rule length_dropWhile_le)
  moreover have "dropWhile is_hex s = colon # c # t" using 2 by metis
  ultimately show ?case by simp
next
  case (3 s ip ellipsis digits rest ip' colon l c t)
  have "length (dropWhile is_hex s) \<le> length s" by (rule length_dropWhile_le)
  moreover have "dropWhile is_hex s = colon # c # t" using 3 by metis
  ultimately show ?case by simp
qed simp

declare ipv6_groups.simps [simp del]

definition ipv6_address :: "ip \<times> nat option \<Rightarrow> ip option" where
  "ipv6_address p =
     (case p of
        (ip, None) \<Rightarrow> if length ip < 16 then None else Some ip
      | (ip, Some j) \<Rightarrow> if length ip < 16 then Some (take j ip @ replicate (16 - length ip) 0 @ drop j ip) else None)"

definition parse_ipv6 :: "bytes \<Rightarrow> ip option" where
  "parse_ipv6 s =
     (if has_prefix s ''::'' then
        (if drop 2 s = [] then Some (replicate 16 0)
         else Option.bind (ipv6_groups (drop 2 s) [] (Some 0)) ipv6_address)
      else Option.bind (ipv6_groups s [] None) ipv6_address)"

text \<open>A zone is no part of what \<open>ParseIP\<close> takes.\<close>

definition parse_ip :: "bytes \<Rightarrow> ip option" where
  "parse_ip s =
     (if CHR ''%'' \<in> set s then None
      else case find (\<lambda>c. c = CHR ''.'' \<or> c = CHR '':'') s of
        None \<Rightarrow> None
      | Some c \<Rightarrow> if c = CHR ''.'' then map_option (\<lambda>octets. v4_prefix @ octets) (ipv4_octets s) else parse_ipv6 s)"

section \<open>Kinds of addresses\<close>

definition is_unspecified :: "ip \<Rightarrow> bool" where
  "is_unspecified ip \<longleftrightarrow> ip = v4_prefix @ [0, 0, 0, 0] \<or> ip = replicate 16 0"

definition is_loopback :: "ip \<Rightarrow> bool" where
  "is_loopback ip \<longleftrightarrow> (if take 12 ip = v4_prefix then ip ! 12 = 127 else ip = replicate 15 0 @ [1])"

lemma loopback_is_specified: "is_loopback ip \<Longrightarrow> \<not> is_unspecified ip"
  by (auto simp: is_loopback_def is_unspecified_def v4_prefix_def eval_nat_numeral split: if_splits)

lemma parse_ip_examples:
  "parse_ip ''127.0.0.1'' = Some (v4_prefix @ [127, 0, 0, 1])" "parse_ip ''0.0.0.0'' = Some (v4_prefix @ [0, 0, 0, 0])"
  "parse_ip ''::%lo'' = None" "parse_ip ''127.0.0.01'' = None" "parse_ip ''localhost'' = None"
  by code_simp+

end
