(* ===== verification/Config.thy ===== *)
theory Config
  imports Server Credentials Go_Ip
begin

text \<open>
  The start of the program, \<open>loadConfig\<close> and \<open>serve\<close> of \<open>cmd/phnctl/main.go\<close>: the environment
  variables are a function that gives the empty text for one that is not set, as \<open>os.Getenv\<close>
  does; loading the credentials is a function of their path; \<open>os.UserConfigDir\<close> is a parameter.
\<close>

type_synonym variables = "bytes \<Rightarrow> bytes"

definition env_or :: "variables \<Rightarrow> bytes \<Rightarrow> bytes \<Rightarrow> bytes" where
  "env_or vars name fallback = (if vars name \<noteq> [] then vars name else fallback)"

definition env_bool :: "variables \<Rightarrow> bytes \<Rightarrow> bool \<Rightarrow> bool option" where
  "env_bool vars name fallback = (if vars name = [] then Some fallback else parse_bool (vars name))"

definition decode_secret :: "bytes \<Rightarrow> bytes option" where
  "decode_secret encoded =
     (if encoded = [] then None
      else case (case raw_std_decode encoded of Some secret \<Rightarrow> Some secret | None \<Rightarrow> padded_decode std_alphabet encoded) of
        None \<Rightarrow> None
      | Some secret \<Rightarrow> if length secret < 32 then None else Some secret)"

definition default_credentials_path :: "bytes option \<Rightarrow> bytes" where
  "default_credentials_path config_dir =
     (case config_dir of None \<Rightarrow> [] | Some dir \<Rightarrow> path_join [dir, ''phnctl'', ''credentials''])"

section \<open>The configuration\<close>

record app_config =
  ac_bind :: bytes
  ac_username :: bytes
  ac_hash :: bytes
  ac_credentials :: bytes
  ac_secret :: bytes
  ac_lifetime :: duration
  ac_cert :: bytes
  ac_key :: bytes
  ac_insecure :: bool
  ac_root :: bytes
  ac_interval :: duration
  ac_telemetry :: duration

datatype config_error =
    Bad_Boolean bytes
  | Bad_Bind
  | All_Interfaces
  | Insecure_Remote
  | No_Certificate
  | Bad_Hash_Variable
  | Unreadable_Credentials load_error
  | No_Way_In
  | Bad_Secret_Variable
  | Bad_Telemetry

definition initial_config :: "variables \<Rightarrow> app_config" where
  "initial_config vars =
     \<lparr>ac_bind = env_or vars ''PHNCTL_BIND'' ''192.168.1.239:8443'', ac_username = env_or vars ''PHNCTL_USERNAME'' ''admin'',
      ac_hash = vars ''PHNCTL_PASSWORD_HASH'', ac_credentials = [], ac_secret = [], ac_lifetime = minutes 720,
      ac_cert = vars ''PHNCTL_TLS_CERT'', ac_key = vars ''PHNCTL_TLS_KEY'', ac_insecure = False,
      ac_root = env_or vars ''PHNCTL_SYSFS_ROOT'' ''/'', ac_interval = 150000000, ac_telemetry = seconds 2\<rparr>"

text \<open>The checks of the address, of plain HTTP and of the certificate.\<close>

definition check_listener :: "variables \<Rightarrow> app_config \<Rightarrow> (config_error, app_config) result" where
  "check_listener vars cfg =
     (case env_bool vars ''PHNCTL_INSECURE_HTTP'' False of
        None \<Rightarrow> Inl (Bad_Boolean ''PHNCTL_INSECURE_HTTP'')
      | Some insecure \<Rightarrow>
          (case env_bool vars ''PHNCTL_ALLOW_ALL_INTERFACES'' False of
             None \<Rightarrow> Inl (Bad_Boolean ''PHNCTL_ALLOW_ALL_INTERFACES'')
           | Some allow_all \<Rightarrow>
               (case split_host_port (ac_bind cfg) of
                  None \<Rightarrow> Inl Bad_Bind
                | Some (host, _) \<Rightarrow>
                    let ip = parse_ip host
                    in if (host = [] \<or> (case ip of None \<Rightarrow> False | Some a \<Rightarrow> is_unspecified a)) \<and> \<not> allow_all
                       then Inl All_Interfaces
                       else if insecure \<and> (case ip of None \<Rightarrow> True | Some a \<Rightarrow> \<not> is_loopback a) then Inl Insecure_Remote
                       else if \<not> insecure \<and> (ac_cert cfg = [] \<or> ac_key cfg = []) then Inl No_Certificate
                       else Inr (cfg\<lparr>ac_insecure := insecure\<rparr>))))"

text \<open>Where the password comes from.\<close>

definition find_password ::
  "variables \<Rightarrow> bytes option \<Rightarrow> (bytes \<Rightarrow> (load_error, credential) result) \<Rightarrow> app_config \<Rightarrow> (config_error, app_config) result" where
  "find_password vars config_dir load cfg =
     (let path = env_or vars ''PHNCTL_CREDENTIALS_FILE'' (default_credentials_path config_dir);
          cfg = cfg\<lparr>ac_credentials := path\<rparr>
      in result_bind
           (if ac_hash cfg \<noteq> [] then
              (if validate_password_hash (ac_hash cfg) \<noteq> None then Inl Bad_Hash_Variable else Inr cfg)
            else if path \<noteq> [] then
              (case load path of
                 Inr c \<Rightarrow> Inr (cfg\<lparr>ac_username := cr_username c, ac_hash := cr_hash c\<rparr>)
               | Inl e \<Rightarrow> if e = Load_Not_Exist then Inr cfg else Inl (Unreadable_Credentials e))
            else Inr cfg)
           (\<lambda>cfg. if ac_hash cfg = [] \<and> ac_credentials cfg = [] then Inl No_Way_In else Inr cfg))"

definition find_secret :: "variables \<Rightarrow> app_config \<Rightarrow> (config_error, app_config) result" where
  "find_secret vars cfg =
     (case decode_secret (vars ''PHNCTL_SESSION_SECRET'') of
        None \<Rightarrow> Inl Bad_Secret_Variable
      | Some secret \<Rightarrow> Inr (cfg\<lparr>ac_secret := secret\<rparr>))"

definition find_telemetry :: "variables \<Rightarrow> app_config \<Rightarrow> (config_error, app_config) result" where
  "find_telemetry vars cfg =
     (let text = vars ''PHNCTL_TELEMETRY_SECONDS''
      in if text = [] then Inr cfg
         else case atoi text of
           None \<Rightarrow> Inl Bad_Telemetry
         | Some n \<Rightarrow> if n < 1 \<or> n > 30 then Inl Bad_Telemetry else Inr (cfg\<lparr>ac_telemetry := seconds n\<rparr>))"

definition load_config ::
  "variables \<Rightarrow> bytes option \<Rightarrow> (bytes \<Rightarrow> (load_error, credential) result) \<Rightarrow> (config_error, app_config) result" where
  "load_config vars config_dir load =
     result_bind (check_listener vars (initial_config vars)) (\<lambda>cfg.
       result_bind (find_password vars config_dir load cfg) (\<lambda>cfg.
         result_bind (find_secret vars cfg) (find_telemetry vars)))"

section \<open>Starting\<close>

text \<open>The setup token goes to a file beside the credentials; \<open>os.WriteFile\<close> creates or truncates it.\<close>

definition write_file :: "save_env \<Rightarrow> bytes \<Rightarrow> bytes \<Rightarrow> disk \<Rightarrow> bool \<times> disk" where
  "write_file env path data d =
     (if se_fails env Open_File then (False, d)
      else
        let opened = (if dk_names d (path_clean path) = None
              then \<lparr>dk_names = (dk_names d)(path_clean path \<mapsto> length (dk_files d)),
                    dk_files = dk_files d @ [\<lparr>df_data = [], df_mode = 0x180 AND NOT (se_umask env), df_synced = False\<rparr>]\<rparr>
              else update_file path (\<lambda>f. f\<lparr>df_data := [], df_synced := False\<rparr>) d)
        in if se_fails env Write_File then (False, append_file path (take (se_short env) data) opened)
           else (True, append_file path data opened))"

definition token_path :: "bytes \<Rightarrow> bytes" where
  "token_path credentials_path = path_join [path_dir credentials_path, ''setup-token.txt'']"

definition announce_setup_token :: "save_env \<Rightarrow> bytes \<Rightarrow> bytes \<Rightarrow> disk \<Rightarrow> bool \<times> disk" where
  "announce_setup_token env credentials_path token d =
     (if credentials_path = [] then (True, d)
      else if se_fails env Mkdir_All then (False, d)
      else write_file env (token_path credentials_path) (token @ [newline]) d)"

datatype start_failure =
    Not_Configured config_error
  | No_Hardware
  | No_Sessions auth_error
  | No_Server start_error
  | No_Announcement

text \<open>What \<open>serve\<close> has built when it starts to listen, and whether it listens with TLS.\<close>

record 'w started =
  sd_config :: app_config
  sd_server :: "'w server"
  sd_tls :: bool

definition config_of :: "app_config \<Rightarrow> sessions \<Rightarrow> server_config" where
  "config_of cfg sessions =
     \<lparr>cf_username = ac_username cfg, cf_hash = ac_hash cfg, cf_credentials = ac_credentials cfg,
      cf_sessions = Some sessions, cf_secure = \<not> ac_insecure cfg, cf_write_interval = ac_interval cfg,
      cf_telemetry = ac_telemetry cfg\<rparr>"

text \<open>
  What a start meets: the variables, the directory for configurations, whether reading the
  credentials fails, the operating system below the hardware's files, the time, the bytes for a
  setup token, and what may fail in writing the token.
\<close>

record 'w start_env =
  st_vars :: variables
  st_config_dir :: "bytes option"
  st_unreadable :: bool
  st_os :: "'w os_ops"
  st_now :: time
  st_random :: "bytes option"
  st_writing :: save_env

definition stored_credentials :: "'w start_env \<Rightarrow> disk \<Rightarrow> bytes \<Rightarrow> (bytes \<times> bytes) option" where
  "stored_credentials env d path =
     (case load_credentials (st_unreadable env) d path of
        Inl _ \<Rightarrow> None
      | Inr c \<Rightarrow> Some (cr_username c, cr_hash c))"

definition build_server :: "'w start_env \<Rightarrow> app_config \<Rightarrow> disk \<Rightarrow> 'w \<Rightarrow> (start_failure, 'w server) result" where
  "build_server env cfg d w =
     (let (state, c) = snapshot (new_controller (os_file_system (ac_root cfg) (st_os env)) w) w (st_now env)
      in case state of
           Inl _ \<Rightarrow> Inl No_Hardware
         | Inr _ \<Rightarrow>
             (case new_sessions (ac_secret cfg) (ac_username cfg) (ac_lifetime cfg) of
                Inl e \<Rightarrow> Inl (No_Sessions e)
              | Inr sessions \<Rightarrow>
                  (case new_server (config_of cfg sessions) (st_random env) (stored_credentials env d (ac_credentials cfg)) c of
                     Inl e \<Rightarrow> Inl (No_Server e)
                   | Inr s \<Rightarrow> Inr s)))"

definition start :: "'w start_env \<Rightarrow> disk \<Rightarrow> 'w \<Rightarrow> (start_failure, 'w started) result \<times> disk" where
  "start env d w =
     (case load_config (st_vars env) (st_config_dir env) (load_credentials (st_unreadable env) d) of
        Inl e \<Rightarrow> (Inl (Not_Configured e), d)
      | Inr cfg \<Rightarrow>
          (case build_server env cfg d w of
             Inl e \<Rightarrow> (Inl e, d)
           | Inr s \<Rightarrow>
               (let (told, d') = (if setup_token s \<noteq> []
                      then announce_setup_token (st_writing env) (ac_credentials cfg) (setup_token s) d else (True, d))
                in (if told then Inr \<lparr>sd_config = cfg, sd_server = s, sd_tls = (\<not> ac_insecure cfg)\<rparr> else Inl No_Announcement,
                    d'))))"

end
