(* ===== verification/Commands.thy ===== *)
theory Commands
  imports Passwords Limiters Go_Time
begin

text \<open>
  The rest of \<open>cmd/phnctl/main.go\<close>: the choice of a command, hashing a password from the
  standard input, showing a certificate with its fingerprint, and the filter in front of
  the log that keeps one handshake error in five minutes and counts the others.
\<close>

section \<open>Commands\<close>

datatype command = Serve | Hash_Password | Show_Certificate "bytes list" | Print_Version | Unknown_Command bytes

definition command_of :: "bytes list \<Rightarrow> command" where
  "command_of arguments =
     (let name = (case arguments of [] \<Rightarrow> ''serve'' | a # _ \<Rightarrow> a)
      in if name = ''serve'' then Serve
         else if name = ''hash-password'' then Hash_Password
         else if name = ''cert'' then Show_Certificate (tl arguments)
         else if name \<in> {''version'', ''--version'', ''-version''} then Print_Version
         else Unknown_Command name)"

text \<open>\<open>stdin\<close> is all that can be read, if it can be read.\<close>

definition hash_password_command :: "bytes option \<Rightarrow> bytes option \<Rightarrow> (auth_error, bytes) result option" where
  "hash_password_command stdin random =
     (case stdin of
        None \<Rightarrow> None
      | Some input \<Rightarrow>
          (let raw = take 1025 input; password = trim_right_set [CHR 0x0D, CHR 0x0A] raw
           in if length raw > 1024 then Some (Inl Password_Too_Long) else Some (hash_password random password)))"

definition upper_hex :: "nat \<Rightarrow> char" where
  "upper_hex n = char_of (if n < 10 then 48 + n else 55 + n)"

definition fingerprint :: "bytes \<Rightarrow> bytes" where
  "fingerprint digest = join '':'' (map (\<lambda>c. [upper_hex (byte_of c div 16), upper_hex (byte_of c mod 16)]) digest)"

text \<open>
  \<open>showCertificate\<close>: the lines it prints, or why it prints none. What \<open>encoding/pem\<close> and
  \<open>crypto/x509\<close> read is an argument: the first block of a file with its type, and the fields that
  are printed, with names and addresses as their own \<open>String\<close> gives them. \<open>var\<close> is the value of
  \<open>PHNCTL_TLS_CERT\<close>. Times in a certificate are whole seconds of years up to 9999.
\<close>

record certificate =
  ce_raw :: bytes
  ce_subject :: bytes
  ce_dns_names :: "bytes list"
  ce_addresses :: "bytes list"
  ce_not_before :: time
  ce_not_after :: time

datatype certificate_error = No_Certificate | Unreadable_Certificate | No_Pem_Certificate bytes | Bad_Certificate

definition certificate_lines :: "bytes \<Rightarrow> certificate \<Rightarrow> bytes list" where
  "certificate_lines path c =
     (let stamp = (\<lambda>t. case rfc3339_nano t of None \<Rightarrow> [] | Some s \<Rightarrow> s)
      in [''path:         '' @ path,
          ''subject:      '' @ ce_subject c,
          ''dns names:    '' @ join '', '' (ce_dns_names c),
          ''ip addresses: '' @ join '', '' (ce_addresses c),
          ''not before:   '' @ stamp (ce_not_before c),
          ''not after:    '' @ stamp (ce_not_after c),
          ''sha256:       '' @ fingerprint (sha256 (ce_raw c))])"

definition show_certificate ::
  "bytes \<Rightarrow> (bytes \<Rightarrow> bytes option) \<Rightarrow> (bytes \<Rightarrow> (bytes \<times> bytes) option) \<Rightarrow> (bytes \<Rightarrow> certificate option)
     \<Rightarrow> bytes list \<Rightarrow> (certificate_error, bytes list) result" where
  "show_certificate var readfile pem x509 arguments =
     (let path = (case arguments of [] \<Rightarrow> var | a # _ \<Rightarrow> a)
      in if path = [] then Inl No_Certificate
         else case readfile path of
           None \<Rightarrow> Inl Unreadable_Certificate
         | Some raw \<Rightarrow>
             (case pem raw of
                None \<Rightarrow> Inl (No_Pem_Certificate path)
              | Some (kind, der) \<Rightarrow>
                  if kind \<noteq> ''CERTIFICATE'' then Inl (No_Pem_Certificate path)
                  else case x509 der of
                    None \<Rightarrow> Inl Bad_Certificate
                  | Some c \<Rightarrow> Inr (certificate_lines path c)))"

text \<open>A fingerprint says which digest it is of.\<close>

lemma upper_hex_inject: "m < 16 \<Longrightarrow> n < 16 \<Longrightarrow> upper_hex m = upper_hex n \<Longrightarrow> m = n"
  by (auto simp: upper_hex_def dest!: arg_cong [of _ _ byte_of] split: if_splits)

lemma upper_hex_no_colon: "n < 16 \<Longrightarrow> upper_hex n \<noteq> CHR '':''"
  by (auto simp: upper_hex_def dest!: arg_cong [of _ _ byte_of] split: if_splits)

lemma fingerprint_inject:
  assumes "fingerprint d = fingerprint e" shows "d = e"
proof -
  define pair where "pair c = [upper_hex (byte_of c div 16), upper_hex (byte_of c mod 16)]" for c
  have nibbles: "byte_of c div 16 < 16" "byte_of c mod 16 < 16" for c
    using nat_of_char_less_256 [of c] by (simp_all add: less_mult_imp_div_less)
  have "inj pair"
  proof (rule injI)
    fix a b assume "pair a = pair b"
    then have "byte_of a div 16 = byte_of b div 16" "byte_of a mod 16 = byte_of b mod 16"
      using upper_hex_inject nibbles by (auto simp: pair_def)
    then have "byte_of a = (byte_of b :: nat)" by (metis div_mult_mod_eq)
    then show "a = b" by simp
  qed
  have parts: "split CHR '':'' (fingerprint x) = map pair x" if "x \<noteq> []" for x
    unfolding fingerprint_def pair_def
    by (rule split_join) (use that in \<open>auto simp: nibbles upper_hex_no_colon [THEN not_sym]\<close>)
  have "fingerprint [] = []" by (simp add: fingerprint_def)
  moreover have "fingerprint x \<noteq> []" if "x \<noteq> []" for x
    using that by (cases x rule: remdups_adj.cases) (simp_all add: fingerprint_def)
  ultimately show ?thesis
    using assms parts [of d] parts [of e] inj_map_eq_map [OF \<open>inj pair\<close>] by (metis (full_types))
qed

section \<open>The filter of handshake errors\<close>

definition noise_window :: duration where
  "noise_window = minutes 5"

record noise_filter =
  nf_last :: time
  nf_dropped :: int

definition handshake_error :: "bytes \<Rightarrow> bool" where
  "handshake_error payload \<longleftrightarrow> contains payload ''TLS handshake error''"

definition suppressed_note :: "int \<Rightarrow> bytes" where
  "suppressed_note n = '' ('' @ itoa n @ '' similar suppressed)''"

text \<open>
  One \<open>Write\<close> at a time: the line that goes on, if one does, and the filter after it. \<open>now\<close> is the
  clock when the age of the last line is taken and \<open>later\<close> the clock when it is set; both readings
  are under the lock.
\<close>

definition filter_write :: "bytes \<Rightarrow> time \<Rightarrow> time \<Rightarrow> noise_filter \<Rightarrow> bytes option \<times> noise_filter" where
  "filter_write payload now later f =
     (if \<not> handshake_error payload then (Some payload, f)
      else if \<not> is_zero_time (nf_last f) \<and> time_sub now (nf_last f) < noise_window
      then (None, f\<lparr>nf_dropped := nf_dropped f + 1\<rparr>)
      else
        let line = trim_right_set [CHR 0x0A] payload;
            line = (if nf_dropped f > 0 then line @ suppressed_note (nf_dropped f) else line)
        in (Some (line @ [CHR 0x0A]), f\<lparr>nf_last := later, nf_dropped := 0\<rparr>))"

text \<open>What is written to a log and when: the payload and the two readings of the clock.\<close>

type_synonym log_call = "bytes \<times> time \<times> time"

fun run_filter :: "noise_filter \<Rightarrow> log_call list \<Rightarrow> (log_call \<times> bytes option) list \<times> noise_filter" where
  "run_filter f [] = ([], f)"
| "run_filter f ((payload, now, later) # cs) =
     (let (line, f') = filter_write payload now later f; (rest, f'') = run_filter f' cs
      in (((payload, now, later), line) # rest, f''))"

definition new_filter :: noise_filter where
  "new_filter = \<lparr>nf_last = 0, nf_dropped = 0\<rparr>"

section \<open>What the filter lets through\<close>

text \<open>
  A description without state: what is expected of a call after the calls before it, from the
  time at which the last handshake error went on and the number of those dropped since.
\<close>

type_synonym log_history = "(log_call \<times> bytes option) list"

definition passed_times :: "log_history \<Rightarrow> time list" where
  "passed_times out = map (\<lambda>((p, now, later), line). later) (filter (\<lambda>((p, now, later), line). handshake_error p \<and> line \<noteq> None) out)"

text \<open>The history backwards.\<close>

fun dropped_since :: "log_history \<Rightarrow> int" where
  "dropped_since [] = 0"
| "dropped_since (((p, now, later), line) # out) =
     (if \<not> handshake_error p then dropped_since out else if line = None then dropped_since out + 1 else 0)"

definition expected_line :: "log_history \<Rightarrow> log_call \<Rightarrow> bytes option" where
  "expected_line before call =
     (case call of (p, now, later) \<Rightarrow>
        if \<not> handshake_error p then Some p
        else if passed_times before \<noteq> [] \<and> now - last (passed_times before) < noise_window then None
        else Some (trim_right_set [CHR 0x0A] p @
          (if dropped_since (rev before) > 0 then suppressed_note (dropped_since (rev before)) else []) @ [CHR 0x0A]))"

fun clock_runs :: "time \<Rightarrow> log_call list \<Rightarrow> bool" where
  "clock_runs t [] \<longleftrightarrow> True"
| "clock_runs t ((p, now, later) # cs) \<longleftrightarrow> t \<le> now \<and> now \<le> later \<and> clock_runs later cs"

definition filter_after :: "log_history \<Rightarrow> time \<Rightarrow> noise_filter \<Rightarrow> bool" where
  "filter_after before t f \<longleftrightarrow>
     nf_dropped f = dropped_since (rev before) \<and> 0 < t \<and>
     (if passed_times before = [] then nf_last f = 0 else nf_last f = last (passed_times before) \<and> 0 < nf_last f)"

lemma passed_times_snoc [simp]:
  "passed_times (before @ [((p, now, later), line)]) =
     passed_times before @ (if handshake_error p \<and> line \<noteq> None then [later] else [])"
  by (simp add: passed_times_def)

lemma young_line: "time_sub now last_time < noise_window \<longleftrightarrow> now - last_time < noise_window"
  by (rule time_sub_less_iff) (simp_all add: noise_window_def minutes_def seconds_def min_duration_def max_duration_def)

lemma filter_write_expected:
  assumes "filter_after before t f" "t \<le> now" "now \<le> later" "filter_write p now later f = (line, f')"
  shows "line = expected_line before (p, now, later) \<and> filter_after (before @ [((p, now, later), line)]) later f'"
  using assms
  by (auto simp: filter_write_def filter_after_def expected_line_def young_line is_zero_time_def Let_def split: if_splits)

lemma run_filter_expected:
  assumes "filter_after before t f" "clock_runs t cs" "run_filter f cs = (out, f')" "out = pre @ (call, line) # post"
  shows "line = expected_line (before @ pre) call"
  using assms
proof (induction cs arbitrary: before t f out pre)
  case (Cons c cs)
  obtain p now later where c: "c = (p, now, later)" by (cases c)
  obtain l f1 where w: "filter_write p now later f = (l, f1)" by fastforce
  obtain rest where r: "run_filter f1 cs = (rest, f')" and out: "out = ((p, now, later), l) # rest"
    using Cons.prems(3) by (auto simp: c w split: prod.splits)
  have step: "l = expected_line before (p, now, later)" "filter_after (before @ [((p, now, later), l)]) later f1"
    using filter_write_expected [OF Cons.prems(1) _ _ w] Cons.prems(2) unfolding c clock_runs.simps by blast+
  show ?case
  proof (cases pre)
    case Nil
    with out Cons.prems(4) step(1) show ?thesis by simp
  next
    case (Cons h pre')
    with out Cons.prems(4) have "rest = pre' @ (call, line) # post" "h = ((p, now, later), l)" by simp_all
    with Cons.IH [OF step(2) _ r this(1)] Cons.prems(2) Cons show ?thesis by (simp add: c)
  qed
qed simp

lemma run_filter_spaced:
  assumes "filter_after before t f" "clock_runs t cs" "run_filter f cs = (out, f')"
  shows "spaced noise_window ((if nf_last f = 0 then [] else [nf_last f]) @ passed_times out)"
  using assms
proof (induction cs arbitrary: before t f out)
  case (Cons c cs)
  obtain p now later where c: "c = (p, now, later)" by (cases c)
  obtain l f1 where w: "filter_write p now later f = (l, f1)" by fastforce
  obtain rest where r: "run_filter f1 cs = (rest, f')" and out: "out = ((p, now, later), l) # rest"
    using Cons.prems(3) by (auto simp: c w split: prod.splits)
  have clock: "t \<le> now" "now \<le> later" "clock_runs later cs" using Cons.prems(2) by (simp_all add: c)
  from Cons.IH [OF conjunct2 [OF filter_write_expected [OF Cons.prems(1) clock(1,2) w]] clock(3) r]
    have IH: "spaced noise_window ((if nf_last f1 = 0 then [] else [nf_last f1]) @ passed_times rest)" .
  show ?case
    using IH w clock Cons.prems(1)
    by (auto simp: out passed_times_def filter_write_def young_line is_zero_time_def filter_after_def Let_def split: if_splits)
qed (simp add: passed_times_def)

end
