(* ===== verification/Start_Properties.thy ===== *)
theory Start_Properties
  imports Config Commands Server_Runs Fixture
begin

text \<open>
  What a start promises: an accepted configuration is not exposed by mistake, the credentials file
  is never left half written, and what setup has stored is what the next start loads.
\<close>

section \<open>Configurations\<close>

lemma check_listener_elim:
  assumes "check_listener vars cfg = Inr cfg'"
  obtains insecure allow_all host port where "cfg' = cfg\<lparr>ac_insecure := insecure\<rparr>"
    "env_bool vars ''PHNCTL_ALLOW_ALL_INTERFACES'' False = Some allow_all"
    "split_host_port (ac_bind cfg) = Some (host, port)"
    "\<not> ((host = [] \<or> (case parse_ip host of None \<Rightarrow> False | Some a \<Rightarrow> is_unspecified a)) \<and> \<not> allow_all)"
    "\<not> (insecure \<and> (case parse_ip host of None \<Rightarrow> True | Some a \<Rightarrow> \<not> is_loopback a))"
    "\<not> (\<not> insecure \<and> (ac_cert cfg = [] \<or> ac_key cfg = []))"
proof -
  obtain insecure where i: "env_bool vars ''PHNCTL_INSECURE_HTTP'' False = Some insecure"
    using assms by (cases "env_bool vars ''PHNCTL_INSECURE_HTTP'' False") (simp_all add: check_listener_def)
  obtain allow_all where a: "env_bool vars ''PHNCTL_ALLOW_ALL_INTERFACES'' False = Some allow_all"
    using assms i by (cases "env_bool vars ''PHNCTL_ALLOW_ALL_INTERFACES'' False") (simp_all add: check_listener_def)
  obtain host port where h: "split_host_port (ac_bind cfg) = Some (host, port)"
    using assms i a by (cases "split_host_port (ac_bind cfg)") (auto simp: check_listener_def)
  show thesis
    using assms unfolding check_listener_def i a h option.case prod.case Let_def
    by (intro that [OF _ a h, of insecure]) (simp_all only: sum.inject sum.distinct not_False_eq_True split: if_split_asm)
qed

lemma valid_hash_not_Nil: "validate_password_hash hash = None \<Longrightarrow> hash \<noteq> []"
  by (auto simp: validate_password_hash_def)

lemma load_text_Inr: "load_text raw = Inr c \<Longrightarrow> cr_username c \<noteq> [] \<and> validate_password_hash (cr_hash c) = None"
  by (simp add: load_text_def split: option.splits if_splits)

lemma load_credentials_Inr:
  "load_credentials failing d path = Inr c \<Longrightarrow>
     cr_username c \<noteq> [] \<and> validate_password_hash (cr_hash c) = None \<and> cr_hash c \<noteq> []"
  using load_text_Inr valid_hash_not_Nil by (auto simp: load_credentials_def result_simps)

lemma find_password_Inr:
  "find_password vars dir load cfg = Inr cfg' \<longleftrightarrow>
     (let path = env_or vars ''PHNCTL_CREDENTIALS_FILE'' (default_credentials_path dir)
      in if ac_hash cfg \<noteq> [] then validate_password_hash (ac_hash cfg) = None \<and> cfg' = cfg\<lparr>ac_credentials := path\<rparr>
         else path \<noteq> [] \<and>
           (load path = Inl Load_Not_Exist \<and> cfg' = cfg\<lparr>ac_credentials := path\<rparr> \<or>
            (\<exists>c. load path = Inr c \<and> cfg' = cfg\<lparr>ac_credentials := path, ac_username := cr_username c, ac_hash := cr_hash c\<rparr>)))"
proof -
  define path where "path = env_or vars ''PHNCTL_CREDENTIALS_FILE'' (default_credentials_path dir)"
  show ?thesis
    unfolding find_password_def Let_def path_def [symmetric]
    by (cases "ac_hash cfg = []"; cases "path = []"; cases "load path") auto
qed

lemma find_secret_Inr: "find_secret vars cfg = Inr cfg' \<Longrightarrow> \<exists>secret. cfg' = cfg\<lparr>ac_secret := secret\<rparr> \<and> 32 \<le> length secret"
  by (auto simp: find_secret_def decode_secret_def split: option.splits if_splits)

lemma find_telemetry_Inr:
  "find_telemetry vars cfg = Inr cfg' \<Longrightarrow>
     \<exists>t. cfg' = cfg\<lparr>ac_telemetry := t\<rparr> \<and> (t = ac_telemetry cfg \<or> seconds 1 \<le> t \<and> t \<le> seconds 30)"
  by (auto simp: find_telemetry_def seconds_def Let_def split: option.splits if_splits)
    (rule exI [of _ "ac_telemetry cfg"], simp)

lemma load_config_Inr:
  assumes "load_config vars dir load = Inr cfg"
  obtains cfg1 cfg2 secret t where "check_listener vars (initial_config vars) = Inr cfg1"
    "find_password vars dir load cfg1 = Inr cfg2"
    "cfg = cfg2\<lparr>ac_secret := secret, ac_telemetry := t\<rparr>" "32 \<le> length secret"
    "t = ac_telemetry cfg2 \<or> seconds 1 \<le> t \<and> t \<le> seconds 30"
proof -
  obtain cfg1 cfg2 cfg3 where steps: "check_listener vars (initial_config vars) = Inr cfg1"
    "find_password vars dir load cfg1 = Inr cfg2" "find_secret vars cfg2 = Inr cfg3" "find_telemetry vars cfg3 = Inr cfg"
    using assms by (auto simp: load_config_def result_simps)
  with that find_secret_Inr [OF steps(3)] find_telemetry_Inr [OF steps(4)] show thesis by force
qed

lemma wildcards_unspecified:
  "map_option is_unspecified (parse_ip ''0.0.0.0'') = Some True" "map_option is_unspecified (parse_ip ''::'') = Some True"
  by (simp add: parse_ip_examples is_unspecified_def)
    (simp add: parse_ip_def parse_ipv6_def is_unspecified_def has_prefix_def)

text \<open>C9. In a configuration that is accepted, unless all interfaces were allowed, the host is not empty
  and is no literal address that \<open>net.ParseIP\<close> reads as unspecified, \<open>0.0.0.0\<close> and \<open>::\<close> among them. The
  check promises no more: a literal with a zone is no address to \<open>ParseIP\<close> and passes
  (\<open>zoned_wildcard_is_accepted\<close>), and names are not resolved. The configuration
  serves plain HTTP only on a literal loopback address and otherwise has a certificate and a key, has
  a secret of at least 32 bytes and a telemetry interval from one to thirty seconds, and either a
  valid password hash or a file in which setup can store one, and a user name.\<close>
theorem accepted_configurations_are_safe:
  assumes "load_config vars dir (load_credentials failing d) = Inr cfg"
  shows "(\<exists>host port. split_host_port (ac_bind cfg) = Some (host, port) \<and>
      (if env_bool vars ''PHNCTL_ALLOW_ALL_INTERFACES'' False = Some True then True
       else host \<notin> {[], ''0.0.0.0'', ''::''} \<and> map_option is_unspecified (parse_ip host) \<noteq> Some True) \<and>
      (if ac_insecure cfg then map_option is_loopback (parse_ip host) = Some True else ac_cert cfg \<noteq> [] \<and> ac_key cfg \<noteq> [])) \<and>
    32 \<le> length (ac_secret cfg) \<and> seconds 1 \<le> ac_telemetry cfg \<and> ac_telemetry cfg \<le> seconds 30 \<and> ac_username cfg \<noteq> [] \<and>
    (if ac_hash cfg = [] then ac_credentials cfg \<noteq> [] else validate_password_hash (ac_hash cfg) = None)"
proof -
  obtain cfg1 cfg2 secret t where steps: "check_listener vars (initial_config vars) = Inr cfg1"
    "find_password vars dir (load_credentials failing d) cfg1 = Inr cfg2"
    and cfg: "cfg = cfg2\<lparr>ac_secret := secret, ac_telemetry := t\<rparr>" "32 \<le> length secret"
      "t = ac_telemetry cfg2 \<or> seconds 1 \<le> t \<and> t \<le> seconds 30"
    using assms by (rule load_config_Inr)
  from steps(1) obtain insecure allow_all host port where cfg1: "cfg1 = (initial_config vars)\<lparr>ac_insecure := insecure\<rparr>"
    and bind: "split_host_port (ac_bind (initial_config vars)) = Some (host, port)"
    "env_bool vars ''PHNCTL_ALLOW_ALL_INTERFACES'' False = Some allow_all"
    "\<not> ((host = [] \<or> (case parse_ip host of None \<Rightarrow> False | Some a \<Rightarrow> is_unspecified a)) \<and> \<not> allow_all)"
    and plain: "\<not> (insecure \<and> (case parse_ip host of None \<Rightarrow> True | Some a \<Rightarrow> \<not> is_loopback a))"
      "\<not> (\<not> insecure \<and> (ac_cert (initial_config vars) = [] \<or> ac_key (initial_config vars) = []))"
    by (elim check_listener_elim) blast
  have name: "env_or vars ''PHNCTL_USERNAME'' ''admin'' \<noteq> []" by (simp add: env_or_def)
  have kept: "ac_bind cfg2 = ac_bind (initial_config vars)" "ac_cert cfg2 = ac_cert (initial_config vars)"
    "ac_key cfg2 = ac_key (initial_config vars)" "ac_insecure cfg2 = insecure" "ac_telemetry cfg2 = seconds 2"
    and found: "ac_username cfg2 \<noteq> []" "if ac_hash cfg2 = [] then ac_credentials cfg2 \<noteq> [] else validate_password_hash (ac_hash cfg2) = None"
    using steps(2) name load_credentials_Inr
    by (auto simp: find_password_Inr cfg1 Let_def initial_config_def split: if_splits)
  have interfaces: "if env_bool vars ''PHNCTL_ALLOW_ALL_INTERFACES'' False = Some True then True
       else host \<notin> {[], ''0.0.0.0'', ''::''} \<and> map_option is_unspecified (parse_ip host) \<noteq> Some True"
    using bind(3) wildcards_unspecified unfolding bind(2) by (cases allow_all; cases "parse_ip host") auto
  have transport: "if ac_insecure cfg then map_option is_loopback (parse_ip host) = Some True else ac_cert cfg \<noteq> [] \<and> ac_key cfg \<noteq> []"
    using plain kept cfg(1) by (cases insecure; cases "parse_ip host") auto
  show ?thesis
  proof (intro conjI exI)
    show "split_host_port (ac_bind cfg) = Some (host, port)" using bind(1) kept(1) cfg(1) by simp
    show "seconds 1 \<le> ac_telemetry cfg" "ac_telemetry cfg \<le> seconds 30"
      using cfg kept(5) by (auto simp: seconds_def)
  qed (use interfaces transport found cfg in simp_all)
qed

text \<open>Variables with a certificate and a secret, and nothing else.\<close>

definition bench_vars :: variables where
  "bench_vars name =
     (if name = ''PHNCTL_TLS_CERT'' then ''/etc/phnctl/cert.pem'' else if name = ''PHNCTL_TLS_KEY'' then ''/etc/phnctl/key.pem''
      else if name = ''PHNCTL_CREDENTIALS_FILE'' then ''/var/lib/phnctl/credentials''
      else if name = ''PHNCTL_SESSION_SECRET'' then raw_std_encode (replicate 32 CHR ''k'') else [])"

definition empty_disk :: disk where
  "empty_disk = \<lparr>dk_names = (\<lambda>_. None), dk_files = []\<rparr>"

definition bench_config :: app_config where
  "bench_config = (initial_config bench_vars)
     \<lparr>ac_credentials := ''/var/lib/phnctl/credentials'', ac_secret := replicate 32 CHR ''k''\<rparr>"

lemma decode_secret_encoded:
  assumes "32 \<le> length secret" shows "decode_secret (raw_std_encode secret) = Some secret"
proof -
  have "raw_std_encode secret \<noteq> []"
  proof
    assume "raw_std_encode secret = []"
    then have "raw_std_encode secret = raw_std_encode []" by (simp add: raw_encode_def)
    with raw_std.encode_inject [of secret "[]"] assms show False by simp
  qed
  with assms show ?thesis by (simp add: decode_secret_def raw_std.decode_encode)
qed

lemma load_bench_config: "load_config bench_vars dir (load_credentials failing empty_disk) = Inr bench_config"
proof -
  have vars: "bench_vars ''PHNCTL_INSECURE_HTTP'' = []" "bench_vars ''PHNCTL_ALLOW_ALL_INTERFACES'' = []"
    "bench_vars ''PHNCTL_PASSWORD_HASH'' = []" "bench_vars ''PHNCTL_BIND'' = []" "bench_vars ''PHNCTL_TELEMETRY_SECONDS'' = []"
    "bench_vars ''PHNCTL_TLS_CERT'' \<noteq> []" "bench_vars ''PHNCTL_TLS_KEY'' \<noteq> []"
    "bench_vars ''PHNCTL_CREDENTIALS_FILE'' = ''/var/lib/phnctl/credentials''"
    "bench_vars ''PHNCTL_SESSION_SECRET'' = raw_std_encode (replicate 32 CHR ''k'')"
    by (simp_all add: bench_vars_def)
  have bind: "split_host_port ''192.168.1.239:8443'' = Some (''192.168.1.239'', ''8443'')"
    "parse_ip ''192.168.1.239'' = Some (v4_prefix @ [192, 168, 1, 239])"
    "\<not> is_unspecified (v4_prefix @ [192, 168, 1, 239])" by code_simp+
  have listener: "check_listener bench_vars (initial_config bench_vars) = Inr (initial_config bench_vars)"
    using vars bind by (simp add: check_listener_def env_bool_def initial_config_def env_or_def)
  have password: "find_password bench_vars dir (load_credentials failing empty_disk) (initial_config bench_vars) =
      Inr ((initial_config bench_vars)\<lparr>ac_credentials := ''/var/lib/phnctl/credentials''\<rparr>)"
    using vars by (simp add: find_password_def initial_config_def env_or_def load_credentials_def read_file_def file_at_def empty_disk_def Let_def)
  have secret: "decode_secret (bench_vars ''PHNCTL_SESSION_SECRET'') = Some (replicate 32 CHR ''k'')"
    unfolding vars(9) by (rule decode_secret_encoded) simp
  show ?thesis
    unfolding load_config_def listener result_bind.simps password find_secret_def secret option.case
    using vars(5) by (simp add: find_telemetry_def bench_config_def)
qed

lemma accepted_configurations_are_safe_witness:
  "load_config bench_vars None (load_credentials False empty_disk) = Inr bench_config \<and> 32 \<le> length (ac_secret bench_config)"
  using accepted_configurations_are_safe [OF load_bench_config [of None False]] load_bench_config by blast

section \<open>The credentials file\<close>

text \<open>C10. Whatever call of a save fails and wherever the program or the machine stops, the credentials
  file holds afterwards what it held before or the whole new text, which loads as the credentials
  that were saved; and no file that the save made was ever open to others than its owner.\<close>
theorem save_survives_crashes:
  assumes "save_credentials env path c d = (ok, ds)" "temp_apart env path" "disk_ok d"
    and "\<forall>f. file_at d path = Some f \<longrightarrow> df_synced f" "valid_utf8 (cr_username c)" "survives ds view"
  shows "(view path = content d path \<or>
      (\<exists>text. view path = Some text \<and> load_text text = Inr c \<and> save_succeeds env path c d)) \<and>
    (\<forall>x\<in>set ds. \<forall>f\<in>set (drop (length (dk_files d)) (dk_files x)). df_mode f AND 0x3F = 0)"
  using assms(1,2)
proof (cases rule: save_credentials_cases)
  case failed
  then have "view path = content d path" using view_before_rename [OF assms(6) _ assms(3,4)] by blast
  with failed(5) show ?thesis by (simp add: private_from_def list_all_iff)
next
  case (saved bs)
  have "load_text (encode_credential c) = Inr c"
    using saved(2) assms(5) by (intro load_encoded) (simp_all add: save_succeeds_def)
  moreover have "view path = content d path \<or> view path = Some (encode_credential c)"
    using view_of_save [OF assms(6) [unfolded saved(3)] saved(4) assms(3,4) refl] .
  ultimately show ?thesis using saved(2,5) by (auto simp: private_from_def list_all_iff)
qed

lemma survives_stop: "ds \<noteq> [] \<Longrightarrow> survives ds (content (last ds))"
  unfolding survives_def
  by (intro exI [of _ "length ds - 1"]) (auto simp: content_def file_at_def last_conv_nth split: option.split)

definition bench_save :: save_env where
  "bench_save = \<lparr>se_fails = (\<lambda>_. False), se_short = 0, se_random = (\<lambda>_. ''271828''), se_umask = 0x12\<rparr>"

lemma bench_save_facts:
  "temp_apart bench_save ''/var/lib/phnctl/credentials''"
  "cr_username c \<noteq> [] \<Longrightarrow> validate_password_hash (cr_hash c) = None \<Longrightarrow>
     save_succeeds bench_save ''/var/lib/phnctl/credentials'' c empty_disk"
  "disk_ok empty_disk" "file_at empty_disk p = None"
proof -
  have "path_clean (temp_name bench_save (path_dir ''/var/lib/phnctl/credentials'') 0) \<noteq> path_clean ''/var/lib/phnctl/credentials''"
    by code_simp
  then show "temp_apart bench_save ''/var/lib/phnctl/credentials''" by (simp add: temp_apart_def temp_name_def bench_save_def)
qed (auto simp: save_succeeds_def bench_save_def empty_disk_def disk_ok_def file_at_def name_free_def temp_tries_def intro: exI [of _ 0])

lemma bench_hash_valid:
  obtains hash where "validate_password_hash hash = None" "hash_password (Some (replicate 16 CHR ''s'')) ''correct horse battery staple'' = Inr hash"
proof -
  obtain hash where h: "hash_password (Some (replicate 16 CHR ''s'')) ''correct horse battery staple'' = Inr hash"
    by (simp add: hash_password_def Let_def)
  have "verify_password hash ''correct horse battery staple''" by (rule hash_password_entitles [OF h]) simp
  then have "validate_password_hash hash = None" by (auto simp: validate_password_hash_iff verify_password_iff)
  with h show thesis by (intro that)
qed

lemma save_survives_crashes_witness:
  "\<exists>hash ds text. save_credentials bench_save ''/var/lib/phnctl/credentials'' \<lparr>cr_username = ''alice'', cr_hash = hash\<rparr> empty_disk = (True, ds) \<and>
     content (last ds) ''/var/lib/phnctl/credentials'' = Some text \<and> load_text text = Inr \<lparr>cr_username = ''alice'', cr_hash = hash\<rparr>"
proof -
  obtain hash where hash: "validate_password_hash hash = None" by (rule bench_hash_valid)
  let ?c = "\<lparr>cr_username = ''alice'', cr_hash = hash\<rparr>" and ?path = "''/var/lib/phnctl/credentials''"
  obtain ok ds where save: "save_credentials bench_save ?path ?c empty_disk = (ok, ds)" by fastforce
  note result = save_credentials_result [OF save bench_save_facts(1)]
  have "ok" using result(1) bench_save_facts(2) [of ?c] hash by simp
  moreover have "ds \<noteq> []" by (rule save_credentials_cases [OF save bench_save_facts(1)]) simp_all
  moreover have "valid_utf8 ''alice''" by (rule valid_utf8_ascii) simp
  ultimately have after: "content (last ds) ?path = content empty_disk ?path \<or>
      (\<exists>text. content (last ds) ?path = Some text \<and> load_text text = Inr ?c \<and> save_succeeds bench_save ?path ?c empty_disk)"
    using save_survives_crashes [OF save bench_save_facts(1,3) _ _ survives_stop] bench_save_facts(4) by simp
  have "content (last ds) ?path \<noteq> content empty_disk ?path"
    using result(2) \<open>ok\<close> bench_save_facts(4) by (simp add: content_def)
  with after obtain raw where "content (last ds) ?path = Some raw" "load_text raw = Inr ?c" by blast
  with save \<open>ok\<close> show ?thesis by (intro exI [of _ hash] exI [of _ ds] exI [of _ raw]) simp
qed

section \<open>From setup to the next start\<close>

text \<open>A start from a configuration with a password.\<close>

lemma build_server_with_password:
  assumes "ac_hash cfg \<noteq> []" "32 \<le> length (ac_secret cfg)" "ac_username cfg \<noteq> []" "minutes 1 \<le> ac_lifetime cfg"
  shows "case build_server env cfg d w of
      Inl e \<Rightarrow> e = No_Sessions Invalid_Username \<and> contains (ac_username cfg) ''|''
    | Inr s \<Rightarrow> \<not> contains (ac_username cfg) ''|'' \<and> \<not> setup_required s \<and> setup_token s = [] \<and>
        credentials s = (ac_username cfg, ac_hash cfg)"
proof -
  obtain st c where snap: "snapshot (new_controller (os_file_system (ac_root cfg) (st_os env)) w) w (st_now env) = (Inr st, c)"
    using snapshot_total [of "new_controller (os_file_system (ac_root cfg) (st_os env)) w" w "st_now env"] by blast
  show ?thesis
    using assms
    by (simp add: build_server_def snap new_sessions_def new_server_def config_of_def setup_required_def setup_token_def credentials_def)
qed

lemma load_config_lifetime: "load_config vars dir load = Inr cfg \<Longrightarrow> minutes 1 \<le> ac_lifetime cfg"
  by (erule load_config_Inr)
    (auto simp: find_password_Inr Let_def initial_config_def minutes_def seconds_def elim!: check_listener_elim split: if_splits)

text \<open>With no password configured, credentials that appear in the file are the only change.\<close>

lemma load_config_with_file:
  assumes "load_config vars dir load = Inr cfg" "ac_hash cfg = []" "load' (ac_credentials cfg) = Inr c"
  shows "load_config vars dir load' = Inr (cfg\<lparr>ac_username := cr_username c, ac_hash := cr_hash c\<rparr>)"
proof -
  obtain cfg1 cfg2 cfg3 where steps: "check_listener vars (initial_config vars) = Inr cfg1"
    "find_password vars dir load cfg1 = Inr cfg2" "find_secret vars cfg2 = Inr cfg3" "find_telemetry vars cfg3 = Inr cfg"
    using assms(1) by (auto simp: load_config_def result_simps)
  have same: "ac_hash cfg = ac_hash cfg2" "ac_credentials cfg = ac_credentials cfg2"
    using find_secret_Inr [OF steps(3)] find_telemetry_Inr [OF steps(4)] by auto
  have path: "ac_hash cfg1 = []" "ac_credentials cfg2 = env_or vars ''PHNCTL_CREDENTIALS_FILE'' (default_credentials_path dir)"
    "ac_credentials cfg2 \<noteq> []"
    using steps(2) assms(2) same by (auto simp: find_password_Inr Let_def split: if_splits)
  let ?upd = "\<lambda>cfg. cfg\<lparr>ac_username := cr_username c, ac_hash := cr_hash c\<rparr>"
  have "find_password vars dir load' cfg1 = Inr (?upd cfg2)"
    using steps(2) path same assms(2,3) by (auto simp: find_password_Inr Let_def split: if_splits)
  moreover have "find_secret vars (?upd cfg2) = Inr (?upd cfg3)"
    using steps(3) by (auto simp: find_secret_def split: option.splits)
  moreover have "find_telemetry vars (?upd cfg3) = Inr (?upd cfg)"
    using steps(4) by (auto simp: find_telemetry_def Let_def split: option.splits if_splits)
  ultimately show ?thesis by (simp add: load_config_def steps(1))
qed

text \<open>C11. After a setup whose credentials were saved, the next start with the same variables loads
  them, needs no setup, announces no token, has just those credentials, and they accept the password
  that the setup chose; unless the user name contains a bar: then setup has succeeded, but the
  next start is refused, as sessions for such a name cannot be made.\<close>
theorem restart_after_setup:
  assumes "load_config (st_vars env) (st_config_dir env) (load_credentials (st_unreadable env) d) = Inr cfg" "ac_hash cfg = []"
    and "perform_setup req (Some salt) ok sh = (Setup_Done u h, sh')" "length salt = 16"
    and "save_credentials senv (ac_credentials cfg) \<lparr>cr_username = u, cr_hash = h\<rparr> d = (ok, ds)"
    and "temp_apart senv (ac_credentials cfg)" "valid_utf8 u" "\<not> st_unreadable env'"
    and "st_vars env' = st_vars env" "st_config_dir env' = st_config_dir env"
  shows "case start env' (last ds) w of
      (Inl e, d') \<Rightarrow> e = No_Sessions Invalid_Username \<and> contains u ''|''
    | (Inr sd, d') \<Rightarrow> \<not> contains u ''|'' \<and> d' = last ds \<and> \<not> setup_required (sd_server sd) \<and>
        credentials (sd_server sd) = (u, h) \<and> verify_password h (sr_password req) \<and>
        sd_tls sd = (\<not> ac_insecure cfg)"
proof -
  let ?c = "\<lparr>cr_username = u, cr_hash = h\<rparr>" and ?path = "ac_credentials cfg"
  have ok: ok using perform_setup_alone [OF assms(3)] by simp
  have h: "hash_password (Some salt) (sr_password req) = Inr h"
    using assms(3) by (auto simp: perform_setup_def setup_check_def setup_decide_def setup_save_def setup_commit_def Let_def
        split: if_splits option.splits sum.splits)
  have verified: "verify_password h (sr_password req)" by (rule hash_password_entitles [OF h]) (simp add: assms(4))
  note saved = save_credentials_result [OF assms(5,6)]
  have succ: "u \<noteq> []" "validate_password_hash h = None" using saved(1) ok by (simp_all add: save_succeeds_def)
  have "load_text (encode_credential ?c) = Inr ?c" using succ assms(7) by (intro load_encoded) simp_all
  then have loaded: "load_credentials (st_unreadable env') (last ds) ?path = Inr ?c"
    using saved(2) ok assms(8) by (simp add: load_credentials_def read_file_def)
  let ?cfg = "cfg\<lparr>ac_username := u, ac_hash := h\<rparr>"
  have cfg: "load_config (st_vars env') (st_config_dir env') (load_credentials (st_unreadable env') (last ds)) = Inr ?cfg"
    using load_config_with_file [where load' = "load_credentials (st_unreadable env') (last ds)", OF assms(1,2) loaded] by (simp add: assms(9,10))
  have "32 \<le> length (ac_secret ?cfg)" using assms(1) by (rule load_config_Inr) simp
  then have "case build_server env' ?cfg (last ds) w of
      Inl e \<Rightarrow> e = No_Sessions Invalid_Username \<and> contains (ac_username ?cfg) ''|''
    | Inr s \<Rightarrow> \<not> contains (ac_username ?cfg) ''|'' \<and> \<not> setup_required s \<and> setup_token s = [] \<and>
        credentials s = (ac_username ?cfg, ac_hash ?cfg)"
    using load_config_lifetime [OF assms(1)] succ valid_hash_not_Nil by (intro build_server_with_password) simp_all
  moreover have "ac_username ?cfg = u" "ac_hash ?cfg = h" "ac_insecure ?cfg = ac_insecure cfg" by simp_all
  ultimately show ?thesis
    using verified unfolding start_def cfg by (simp only: sum.case) (auto split: sum.splits)
qed

text \<open>The bar is accepted by setup.\<close>

lemma restart_after_setup_witness:
  "\<exists>hash ds d' os w. start \<lparr>st_vars = bench_vars, st_config_dir = None, st_unreadable = False, st_os = os, st_now = 0,
       st_random = None, st_writing = bench_save\<rparr> (last ds) (w :: unit)
     = (Inl (No_Sessions Invalid_Username), d') \<and>
     fst (perform_setup \<lparr>sr_token = ''token'', sr_username = ''ali|ce'', sr_password = ''correct horse battery staple''\<rparr>
       (Some (replicate 16 CHR ''s'')) True
       \<lparr>su_config_username = ''admin'', su_username = ''admin'', su_hash = [], su_token = ''token'', su_file = None\<rparr>) =
     Setup_Done ''ali|ce'' hash"
proof -
  let ?req = "\<lparr>sr_token = ''token'', sr_username = ''ali|ce'', sr_password = ''correct horse battery staple''\<rparr>"
  let ?sh = "\<lparr>su_config_username = ''admin'', su_username = ''admin'', su_hash = [], su_token = ''token'', su_file = None\<rparr>"
  obtain hash where hash: "validate_password_hash hash = None"
    "hash_password (Some (replicate 16 CHR ''s'')) ''correct horse battery staple'' = Inr hash" by (rule bench_hash_valid)
  have policy: "trim_space ''ali|ce'' = ''ali|ce''" "validate_password ''ali|ce'' ''correct horse battery staple'' = None" by code_simp+
  have ran: "perform_setup ?req (Some (replicate 16 CHR ''s'')) True ?sh =
      (Setup_Done ''ali|ce'' hash, ?sh\<lparr>su_username := ''ali|ce'', su_hash := hash, su_token := [], su_file := Some (''ali|ce'', hash)\<rparr>)"
    using hash policy
    by (simp add: perform_setup_def setup_check_def setup_decide_def setup_username_def setup_save_def setup_commit_def Let_def)
  let ?c = "\<lparr>cr_username = ''ali|ce'', cr_hash = hash\<rparr>" and ?path = "''/var/lib/phnctl/credentials''"
  obtain ok ds where save: "save_credentials bench_save ?path ?c empty_disk = (ok, ds)" by fastforce
  have ok: "ok = True" using save_credentials_result(1) [OF save bench_save_facts(1)] bench_save_facts(2) [of ?c] hash(1) by simp
  define os :: "unit os_ops" where "os = \<lparr>os_read_file = (\<lambda>_ _. Inl Not_Exist), os_open = (\<lambda>w _. (None, w)), os_write = (\<lambda>w _ _. (None, w)),
    os_read_dir = (\<lambda>_ _. Inr []), os_stat = (\<lambda>_ _. Inl Not_Exist)\<rparr>"
  let ?env = "\<lparr>st_vars = bench_vars, st_config_dir = None, st_unreadable = False, st_os = os, st_now = 0,
       st_random = None, st_writing = bench_save\<rparr>"
  have path: "ac_credentials bench_config = ?path" "ac_hash bench_config = []"
    by (simp_all add: bench_config_def initial_config_def bench_vars_def)
  have "valid_utf8 ''ali|ce''" by (rule valid_utf8_ascii) simp
  then have "case start ?env (last ds) () of
      (Inl e, d') \<Rightarrow> e = No_Sessions Invalid_Username \<and> contains ''ali|ce'' ''|''
    | (Inr sd, d') \<Rightarrow> \<not> contains ''ali|ce'' ''|'' \<and> d' = last ds \<and> \<not> setup_required (sd_server sd) \<and>
        credentials (sd_server sd) = (''ali|ce'', hash) \<and> verify_password hash (sr_password ?req) \<and>
        sd_tls sd = (\<not> ac_insecure bench_config)"
    using save ran load_bench_config [of None False] path bench_save_facts(1)
    by (intro restart_after_setup [where env = ?env and senv = bench_save and d = empty_disk and sh = ?sh and ok = True
          and salt = "replicate 16 CHR ''s''"]) (simp_all add: ok)
  moreover have "contains ''ali|ce'' ''|''" by code_simp
  ultimately obtain d' where "start ?env (last ds) () = (Inl (No_Sessions Invalid_Username), d')"
    by (auto split: prod.splits sum.splits)
  with ran show ?thesis by (metis fst_conv)
qed

section \<open>Addresses and passwords at the edge\<close>

text \<open>An unspecified address with a zone is no address to \<open>ParseIP\<close>, so it passes the check of the
  interfaces that the same address without a zone does not.\<close>

lemma zoned_wildcard_is_accepted:
  "check_listener (bench_vars(''PHNCTL_BIND'' := ''[::%lo]:8443'')) (initial_config (bench_vars(''PHNCTL_BIND'' := ''[::%lo]:8443''))) =
     Inr (initial_config (bench_vars(''PHNCTL_BIND'' := ''[::%lo]:8443'')))"
  "check_listener (bench_vars(''PHNCTL_BIND'' := '':8443'')) (initial_config (bench_vars(''PHNCTL_BIND'' := '':8443''))) = Inl All_Interfaces"
proof -
  have "split_host_port ''[::%lo]:8443'' = Some (''::%lo'', ''8443'')" "split_host_port '':8443'' = Some ([], ''8443'')" by code_simp+
  then show "check_listener (bench_vars(''PHNCTL_BIND'' := ''[::%lo]:8443'')) (initial_config (bench_vars(''PHNCTL_BIND'' := ''[::%lo]:8443''))) =
     Inr (initial_config (bench_vars(''PHNCTL_BIND'' := ''[::%lo]:8443'')))"
    "check_listener (bench_vars(''PHNCTL_BIND'' := '':8443'')) (initial_config (bench_vars(''PHNCTL_BIND'' := '':8443''))) = Inl All_Interfaces"
    by (simp_all add: check_listener_def env_bool_def initial_config_def env_or_def parse_ip_def bench_vars_def)
qed

text \<open>A password of the greatest length is refused when a newline follows it, although the newline is
  no part of it.\<close>

lemma longest_password_with_newline:
  assumes "length password = 1024" "trim_right_set [CHR 0x0D, CHR 0x0A] password = password"
  shows "hash_password_command (Some (password @ [CHR 0x0A])) (Some salt) = Some (Inl Password_Too_Long)"
    "is_ok (hash_password (Some salt) password)"
  using assms by (simp_all add: hash_password_command_def hash_password_def Let_def)

section \<open>The log\<close>

text \<open>C29. As long as the clock does not go back, what the filter lets through is what is expected from
  the history alone: every other line as it is; of the handshake errors the first and then one
  when five minutes have passed since the last, with the number of those dropped in between; and
  those that go on are five minutes apart.\<close>
theorem handshake_errors_are_thinned:
  assumes "0 < t" "clock_runs t cs" "run_filter new_filter cs = (out, f)"
  shows "spaced noise_window (passed_times out) \<and> map fst out = cs \<and>
    (\<forall>before call line after. out = before @ (call, line) # after \<longrightarrow> line = expected_line before call)"
proof -
  have start: "filter_after [] t new_filter"
    using assms(1) by (simp add: filter_after_def new_filter_def passed_times_def)
  have "map fst (fst (run_filter g cs)) = cs" for g
    by (induction g cs rule: run_filter.induct) (auto split: prod.splits)
  from this [of new_filter] have "map fst out = cs" by (simp add: assms(3))
  moreover have "spaced noise_window (passed_times out)"
    using run_filter_spaced [OF start assms(2,3)] by (simp add: new_filter_def)
  moreover have "line = expected_line before call" if "out = before @ (call, line) # after" for before call line after
    using run_filter_expected [OF start assms(2,3) that] by simp
  ultimately show ?thesis by blast
qed

lemma handshake_errors_are_thinned_witness:
  "\<exists>out f. run_filter new_filter
       [(''TLS handshake error'', seconds 100, seconds 100), (''TLS handshake error'', seconds 101, seconds 101),
        (''TLS handshake error'', seconds 400, seconds 400)] = (out, f) \<and>
     map snd out = [Some (''TLS handshake error'' @ [CHR 0x0A]), None,
       Some (''TLS handshake error (1 similar suppressed)'' @ [CHR 0x0A])] \<and>
     spaced noise_window (passed_times out)"
proof -
  let ?cs = "[(''TLS handshake error'', seconds 100, seconds 100), (''TLS handshake error'', seconds 101, seconds 101),
        (''TLS handshake error'', seconds 400, seconds 400)]"
  obtain out f where run: "run_filter new_filter ?cs = (out, f)" by fastforce
  have "map snd (fst (run_filter new_filter ?cs)) = [Some (''TLS handshake error'' @ [CHR 0x0A]), None,
       Some (''TLS handshake error (1 similar suppressed)'' @ [CHR 0x0A])]" by code_simp
  moreover have "clock_runs (seconds 1) ?cs" "0 < seconds 1" by (simp_all add: seconds_def)
  ultimately show ?thesis using handshake_errors_are_thinned [OF _ _ run] run by auto
qed

end
