(* ===== verification/Json_State_Laws.thy ===== *)
theory Json_State_Laws
  imports Json_State
begin

text \<open>
  What the text of a state says: its numbers are literals of JSON and read back as themselves, the
  text is read back as the value that was written (\<open>marshal_state_parsed\<close>), and two states whose
  strings are UTF-8 and whose numbers fit have the same text only if they are the same
  (\<open>marshal_state_inject\<close>).
\<close>

section \<open>Numbers are literals\<close>

lemma nat_digits_head: "0 < n \<Longrightarrow> \<not> has_prefix (nat_digits n) ''0''"
proof (induction n rule: nat_digits.induct)
  case (1 n)
  show ?case
  proof (cases "n < 10")
    case True
    have "digit_char n \<noteq> CHR ''0''"
    proof
      assume "digit_char n = CHR ''0''"
      then have "digit_value (digit_char n) = Some 0" by (simp add: digit_value_def)
      with True "1.prems" show False by simp
    qed
    with True show ?thesis by (simp add: nat_digits.simps [of n] has_prefix_iff)
  next
    case False
    then have "\<not> has_prefix (nat_digits (n div 10)) ''0''" using 1 by simp
    then show ?thesis
      using False nat_digits_not_Nil [of "n div 10"]
      by (cases "nat_digits (n div 10)") (simp_all add: nat_digits.simps [of n] has_prefix_iff)
  qed
qed

lemma nat_digits_digits: "list_all is_digit (nat_digits n)"
  using set_nat_digits [of _ n] by (auto simp: list_all_iff is_digit_def)

lemma nat_digits_0: "nat_digits 0 = ''0''"
  by (simp add: nat_digits.simps [of 0] digit_char_def char_of_def bit_Suc_0_iff)

text \<open>A sign, digits without a leading zero, and a fraction.\<close>

lemma json_number_literal:
  assumes "sign = [] \<or> sign = ''-''" "json_fraction f = Some (f, [])" "f = [] \<or> hd f = CHR ''.''"
  shows "json_number (sign @ nat_digits n @ f) = Some (sign @ nat_digits n @ f, [])"
proof -
  obtain c t where ds: "nat_digits n = c # t" by (cases "nat_digits n") auto
  then have c: "is_digit c" using nat_digits_digits [of n] by simp
  then have sign: "(if has_prefix (sign @ nat_digits n @ f) ''-'' then ''-'' else []) = sign"
    using assms(1) by (auto simp: ds has_prefix_iff is_digit_def)
  have all: "takeWhile is_digit (nat_digits n @ f) = nat_digits n"
    using assms(3) nat_digits_digits by (intro takeWhile_digits) (auto simp: is_digit_def)
  have whole: "(if has_prefix (nat_digits n) ''0'' then ''0'' else nat_digits n) = nat_digits n"
    using nat_digits_head [of n] nat_digits_0 by (cases "n = 0") auto
  have none: "json_exponent [] = Some ([], [])" by (simp add: json_exponent_def has_prefix_iff)
  have parts: "drop (length sign) (sign @ nat_digits n @ f) = nat_digits n @ f"
    "drop (length sign + length (nat_digits n)) (sign @ nat_digits n @ f) = f" by simp_all
  show ?thesis
    unfolding json_number_def Let_def sign parts all whole assms(2) by (simp add: none)
qed

lemma fraction_text_literal:
  assumes "n < 10 ^ k"
  shows "json_fraction (fraction_text k n) = Some (fraction_text k n, [])" "fraction_text k n = [] \<or> hd (fraction_text k n) = CHR ''.''"
proof -
  show "fraction_text k n = [] \<or> hd (fraction_text k n) = CHR ''.''" by (simp add: fraction_text_def)
  show "json_fraction (fraction_text k n) = Some (fraction_text k n, [])"
  proof (cases "n = 0")
    case True
    then show ?thesis by (simp add: fraction_text_def json_fraction_def has_prefix_iff)
  next
    case False
    from fraction_text_digits [OF assms False] obtain q where q: "fraction_text k n = CHR ''.'' # q" "list_all is_digit q" "q \<noteq> []" .
    have digits: "takeWhile is_digit q = q" using q(2) takeWhile_digits [of q "[]"] by (simp only: append_Nil2 simp_thms)
    show ?thesis unfolding q(1) using q(3) by (simp add: json_fraction_def has_prefix_iff digits)
  qed
qed

lemma printable_int [simp]: "printable (json_int v)"
  using json_number_literal [of "''-''" "[]"] json_number_literal [of "[]" "[]"]
  by (simp add: json_int_def itoa_def json_fraction_def has_prefix_iff)

lemma printable_degrees [simp]: "printable (json_degrees t)"
  by (simp add: json_degrees_def degrees_text_def Let_def json_number_literal fraction_text_literal)

section \<open>Reading numbers back\<close>

text \<open>The number of thousandths that a literal says.\<close>

definition read_thousandths :: "bytes \<Rightarrow> int" where
  "read_thousandths s =
     (let digits = (if has_prefix s ''-'' then tl s else s);
          whole = takeWhile is_digit digits;
          n = read_number 0 (length whole) whole * 1000 + read_fraction 3 (drop (length whole) digits)
      in if has_prefix s ''-'' then - n else n)"

lemma read_thousandths_sign:
  assumes "list_all is_digit ds" "ds \<noteq> []" "f = [] \<or> hd f = CHR ''.''"
  shows "read_thousandths (ds @ f) = read_number 0 (length ds) ds * 1000 + read_fraction 3 f"
    "read_thousandths (CHR ''-'' # ds @ f) = - (read_number 0 (length ds) ds * 1000 + read_fraction 3 f)"
proof -
  have whole: "takeWhile is_digit (ds @ f) = ds"
    using assms(1,3) by (intro takeWhile_digits) (auto simp: is_digit_def)
  have rest: "drop (length ds) (ds @ f) = f" by simp
  have "\<not> has_prefix (ds @ f) ''-''"
    using assms(1,2) by (cases ds) (auto simp: has_prefix_iff is_digit_def)
  then show "read_thousandths (ds @ f) = read_number 0 (length ds) ds * 1000 + read_fraction 3 f"
    unfolding read_thousandths_def Let_def by (simp only: if_False whole rest)
  have "has_prefix (CHR ''-'' # ds @ f) ''-''" by (simp add: has_prefix_iff)
  then show "read_thousandths (CHR ''-'' # ds @ f) = - (read_number 0 (length ds) ds * 1000 + read_fraction 3 f)"
    unfolding read_thousandths_def Let_def by (simp only: if_True list.sel whole rest)
qed

lemma read_degrees: "read_thousandths (degrees_text t) = \<lfloor>t * 1000\<rfloor>"
proof -
  define m where "m = \<lfloor>t * 1000\<rfloor>"
  define n where "n = nat \<bar>m\<bar>"
  define ds where "ds = nat_digits (n div 1000)"
  define f where "f = fraction_text 3 (n mod 1000)"
  have printed: "degrees_text t = (if m < 0 then ''-'' else []) @ ds @ f"
    by (simp only: degrees_text_def Let_def m_def n_def ds_def f_def)
  have lt: "n mod 1000 < 10 ^ 3" by simp
  have "read_fraction 3 (f @ []) = int (n mod 1000)" unfolding f_def by (rule read_fraction_text [OF lt]) simp
  moreover have "read_number 0 (length ds) ds = int (n div 1000)" by (simp add: read_number_def ds_def)
  moreover have "int (n div 1000) * 1000 + int (n mod 1000) = int n"
    using arg_cong [OF div_mult_mod_eq [of n 1000], of int] by (simp only: of_nat_add of_nat_mult of_nat_numeral)
  ultimately have sums: "read_number 0 (length ds) ds * 1000 + read_fraction 3 f = int n" by (simp only: append_Nil2)
  have "list_all is_digit ds" "ds \<noteq> []" "f = [] \<or> hd f = CHR ''.''"
    unfolding ds_def f_def using nat_digits_digits fraction_text_literal(2) [OF lt] by simp_all
  note read = read_thousandths_sign [OF this]
  show ?thesis
  proof (cases "m < 0")
    case True
    with read(2) sums show ?thesis by (simp add: printed m_def [symmetric] n_def)
  next
    case False
    with read(1) sums show ?thesis by (simp add: printed m_def [symmetric] n_def)
  qed
qed

section \<open>The text of a state\<close>

lemmas json_records = json_capabilities_def json_profile_option_def json_profile_def json_fans_def
  json_temperatures_def json_settings_def json_zone_def json_effect_def json_keyboard_def json_degraded_def

lemma printable_option [simp]: "(\<And>x. printable (f x)) \<Longrightarrow> printable (json_option f v)"
  by (simp add: json_option_def split: option.split)

lemma nesting_option: "(\<And>x. nesting (f x) \<le> d) \<Longrightarrow> nesting (json_option f v) \<le> d"
  by (simp add: json_option_def split: option.split)

lemma nesting_number [simp]: "nesting (json_int v) = 0" "nesting (json_degrees t) = 0"
  by (simp_all add: json_int_def json_degrees_def)

lemma printable_state: "json_state st = Some j \<Longrightarrow> printable j"
  by (auto simp: json_state_def json_records list_all_iff split: option.splits)

lemma nesting_parts:
  "nesting (json_capabilities c) \<le> 3" "nesting (json_profile p) \<le> 3" "nesting (json_fans f) \<le> 3"
  "nesting (json_temperatures t) \<le> 3" "nesting (json_settings s) \<le> 3" "nesting (json_keyboard k) \<le> 3"
  "nesting (json_degraded d) \<le> 3"
  unfolding json_records
  by (auto simp: nesting_le_iff list_all_iff intro!: nesting_option simp del: nesting.simps(1,2))

lemma nesting_state: "json_state st = Some j \<Longrightarrow> nesting j \<le> max_nesting"
proof -
  assume "json_state st = Some j"
  then have "nesting j \<le> 4"
    by (auto simp: json_state_def nesting_le_iff nesting_parts simp del: nesting.simps(1,2) split: option.splits)
  then show ?thesis by (simp add: max_nesting_def)
qed

theorem marshal_state_parsed:
  "marshal_state st = Some t \<Longrightarrow> \<exists>j. json_state st = Some j \<and> json_parse t = Some (readable j, [])"
  by (auto simp: marshal_state_def json_parse_text printable_state nesting_state)

section \<open>States with the same text\<close>

definition thousandths :: "rat \<Rightarrow> bool" where
  "thousandths t \<longleftrightarrow> of_int \<lfloor>t * 1000\<rfloor> = t * 1000"

definition opt_all :: "('a \<Rightarrow> bool) \<Rightarrow> 'a option \<Rightarrow> bool" where
  "opt_all p v = (case v of None \<Rightarrow> True | Some x \<Rightarrow> p x)"

definition clean_option :: "profile_option \<Rightarrow> bool" where
  "clean_option p \<longleftrightarrow> valid_utf8 (opt_value p) \<and> valid_utf8 (opt_label p) \<and> valid_utf8 (opt_description p)"

definition clean_zone :: "zone_setting \<Rightarrow> bool" where
  "clean_zone z \<longleftrightarrow> list_all valid_utf8 (zone_colors z) \<and> int64 (zone_brightness z)"

definition clean_effect :: "effect_setting \<Rightarrow> bool" where
  "clean_effect e \<longleftrightarrow>
     list_all int64 [eff_mode e, eff_speed e, eff_brightness e, eff_direction e, eff_red e, eff_green e, eff_blue e]"

text \<open>Every string is UTF-8, every number fits, every temperature is of thousandths.\<close>

definition clean_state :: "hw_state \<Rightarrow> bool" where
  "clean_state st \<longleftrightarrow>
     valid_utf8 (st_power_source st) \<and>
     valid_utf8 (prof_value (st_profile st)) \<and> valid_utf8 (prof_label (st_profile st)) \<and>
     opt_all (list_all clean_option) (prof_available (st_profile st)) \<and>
     valid_utf8 (fans_mode (st_fans st)) \<and> int64 (fans_cpu (st_fans st)) \<and> int64 (fans_gpu (st_fans st)) \<and>
     opt_all int64 (fans_cpu_rpm (st_fans st)) \<and> opt_all int64 (fans_gpu_rpm (st_fans st)) \<and>
     opt_all thousandths (temp_cpu (st_temperatures st)) \<and> opt_all thousandths (temp_gpu (st_temperatures st)) \<and>
     int64 (set_usb_charging_level (st_settings st)) \<and>
     opt_all clean_zone (kb_per_zone (st_keyboard st)) \<and> opt_all clean_effect (kb_effect (st_keyboard st)) \<and>
     valid_utf8 (st_driver_version st) \<and> list_all valid_utf8 (st_degraded st)"

lemma json_int_inject: "int64 v \<Longrightarrow> int64 w \<Longrightarrow> json_int v = json_int w \<longleftrightarrow> v = w"
  by (simp add: json_int_def itoa_inject)

lemma json_degrees_inject:
  assumes "thousandths t" "thousandths u" "json_degrees t = json_degrees u"
  shows "t = u"
proof -
  have "\<lfloor>t * 1000\<rfloor> = \<lfloor>u * 1000\<rfloor>"
    using assms(3) read_degrees [of t] read_degrees [of u] by (simp add: json_degrees_def)
  then have "t * 1000 = u * 1000" using assms(1,2) by (simp add: thousandths_def)
  then show ?thesis by simp
qed

lemma json_option_inject:
  assumes "\<And>x y. p x \<Longrightarrow> p y \<Longrightarrow> f x = f y \<Longrightarrow> x = y" "\<And>x. f x \<noteq> JNull"
    and "opt_all p v" "opt_all p w" "json_option f v = json_option f w"
  shows "v = w"
  using assms by (cases v; cases w) (auto simp: json_option_def opt_all_def dest: sym)

text \<open>Nothing in a clean state has to be replaced.\<close>

lemma readable_option: "opt_all (\<lambda>x. readable (f x) = f x) v \<Longrightarrow> readable (json_option f v) = json_option f v"
  by (cases v) (simp_all add: json_option_def opt_all_def)

lemma opt_all_mono: "opt_all p v \<Longrightarrow> (\<And>x. p x \<Longrightarrow> q x) \<Longrightarrow> opt_all q v"
  by (cases v) (simp_all add: opt_all_def)

lemma readable_number [simp]: "readable (json_int v) = json_int v" "readable (json_degrees t) = json_degrees t"
  by (simp_all add: json_int_def json_degrees_def)

lemma readable_profile_option: "clean_option p \<Longrightarrow> readable (json_profile_option p) = json_profile_option p"
  by (simp add: json_profile_option_def clean_option_def to_valid_utf8_valid)

lemma readable_zone: "clean_zone z \<Longrightarrow> readable (json_zone z) = json_zone z"
  by (simp add: json_zone_def clean_zone_def zone_colors_def to_valid_utf8_valid)

lemma readable_effect: "readable (json_effect e) = json_effect e"
  by (simp add: json_effect_def to_valid_utf8_valid)

lemma readable_profile:
  assumes "valid_utf8 (prof_value p)" "valid_utf8 (prof_label p)" "opt_all (list_all clean_option) (prof_available p)"
  shows "readable (json_profile p) = json_profile p"
proof -
  have "readable (JArray (map json_profile_option opts)) = JArray (map json_profile_option opts)"
    if "list_all clean_option opts" for opts
    using that by (induction opts) (simp_all add: readable_profile_option)
  then have "readable (json_option (\<lambda>opts. JArray (map json_profile_option opts)) (prof_available p)) =
      json_option (\<lambda>opts. JArray (map json_profile_option opts)) (prof_available p)"
    using assms(3) by (intro readable_option) (auto elim: opt_all_mono)
  with assms show ?thesis by (simp add: json_profile_def to_valid_utf8_valid)
qed

lemma readable_number_option [simp]:
  "readable (json_option json_int v) = json_option json_int v"
  "readable (json_option json_degrees t) = json_option json_degrees t"
  by (simp_all add: readable_option opt_all_def split: option.split)

lemma readable_fans: "valid_utf8 (fans_mode f) \<Longrightarrow> readable (json_fans f) = json_fans f"
  by (simp add: json_fans_def to_valid_utf8_valid)

lemma readable_plain:
  "readable (json_capabilities c) = json_capabilities c" "readable (json_temperatures t) = json_temperatures t"
  "readable (json_settings s) = json_settings s"
  by (simp_all add: json_capabilities_def json_temperatures_def json_settings_def to_valid_utf8_valid)

lemma readable_keyboard: "opt_all clean_zone (kb_per_zone k) \<Longrightarrow> readable (json_keyboard k) = json_keyboard k"
  using readable_option [of json_zone "kb_per_zone k"] readable_option [of json_effect "kb_effect k"]
  by (cases "kb_per_zone k"; cases "kb_effect k")
    (simp_all add: json_keyboard_def to_valid_utf8_valid opt_all_def readable_zone readable_effect)

lemma readable_degraded: "list_all valid_utf8 d \<Longrightarrow> readable (json_degraded d) = json_degraded d"
  by (induction d) (auto simp: json_degraded_def to_valid_utf8_valid split: if_splits)

lemmas readable_parts = readable_profile readable_fans readable_plain readable_keyboard readable_degraded

lemma padded_ascii: "ascii (padded k n)"
  by (induction k n rule: padded.induct) (simp_all add: ascii_def)

lemma fraction_text_ascii: "ascii (fraction_text k n)"
proof -
  have "set (dropWhile p xs) \<subseteq> set xs" for p and xs :: bytes by (auto dest: set_dropWhileD)
  then show ?thesis using padded_ascii [of k n] by (fastforce simp: fraction_text_def ascii_def list_all_iff)
qed

lemma rfc3339_nano_ascii: "rfc3339_nano t = Some s \<Longrightarrow> ascii s"
  using padded_ascii fraction_text_ascii
  by (auto simp: rfc3339_nano_def Let_def ascii_def split: if_splits)

lemma readable_state: "json_state st = Some j \<Longrightarrow> clean_state st \<Longrightarrow> readable j = j"
  by (auto simp: json_state_def clean_state_def readable_parts to_valid_utf8_valid valid_utf8_ascii rfc3339_nano_ascii
      split: option.splits)

text \<open>Each part of a state is fixed by its value.\<close>

lemma json_profile_option_inject: "json_profile_option p = json_profile_option q \<Longrightarrow> p = q"
  by (simp add: json_profile_option_def)

lemma json_zone_inject: "clean_zone y \<Longrightarrow> clean_zone z \<Longrightarrow> json_zone y = json_zone z \<Longrightarrow> y = z"
  by (simp add: json_zone_def clean_zone_def json_int_inject)

lemma json_effect_inject: "clean_effect d \<Longrightarrow> clean_effect e \<Longrightarrow> json_effect d = json_effect e \<Longrightarrow> d = e"
  by (simp add: json_effect_def clean_effect_def json_int_inject)

lemma json_profile_inject: "json_profile p = json_profile q \<Longrightarrow> p = q"
proof -
  assume eq: "json_profile p = json_profile q"
  have "x = y" if "JArray (map json_profile_option x) = JArray (map json_profile_option y)" for x y
    using that by (auto intro: list.inj_map_strong json_profile_option_inject)
  moreover have "opt_all (\<lambda>_. True) v" for v :: "profile_option list option" by (simp add: opt_all_def split: option.split)
  ultimately have "prof_available p = prof_available q"
    using eq json_option_inject [of "\<lambda>_. True" "\<lambda>opts. JArray (map json_profile_option opts)"]
    by (simp add: json_profile_def)
  with eq show ?thesis by (simp add: json_profile_def)
qed

lemma json_fans_inject:
  assumes "json_fans f = json_fans g" "int64 (fans_cpu f)" "int64 (fans_gpu f)" "int64 (fans_cpu g)" "int64 (fans_gpu g)"
    "opt_all int64 (fans_cpu_rpm f)" "opt_all int64 (fans_gpu_rpm f)" "opt_all int64 (fans_cpu_rpm g)" "opt_all int64 (fans_gpu_rpm g)"
  shows "f = g"
proof -
  have "v = w" if "opt_all int64 v" "opt_all int64 w" "json_option json_int v = json_option json_int w" for v w
    using that by (rule json_option_inject [rotated 2]) (simp_all add: json_int_inject, simp add: json_int_def)
  then have "fans_cpu_rpm f = fans_cpu_rpm g" "fans_gpu_rpm f = fans_gpu_rpm g"
    using assms by (simp_all add: json_fans_def)
  with assms show ?thesis by (simp add: json_fans_def json_int_inject)
qed

lemma json_temperatures_inject:
  assumes "json_temperatures t = json_temperatures u" "opt_all thousandths (temp_cpu t)" "opt_all thousandths (temp_gpu t)"
    "opt_all thousandths (temp_cpu u)" "opt_all thousandths (temp_gpu u)"
  shows "t = u"
proof -
  have "v = w" if "opt_all thousandths v" "opt_all thousandths w" "json_option json_degrees v = json_option json_degrees w" for v w
    using that by (rule json_option_inject [rotated 2]) (rule json_degrees_inject, simp_all, simp add: json_degrees_def)
  with assms show ?thesis by (simp add: json_temperatures_def)
qed

lemma json_keyboard_inject:
  assumes "json_keyboard k = json_keyboard l" "opt_all clean_zone (kb_per_zone k)" "opt_all clean_zone (kb_per_zone l)"
    "opt_all clean_effect (kb_effect k)" "opt_all clean_effect (kb_effect l)"
  shows "k = l"
proof -
  have "kb_per_zone k = kb_per_zone l"
    using assms(2,3) by (rule json_option_inject [rotated 2, of clean_zone _ _ json_zone])
      (use assms(1) in \<open>auto intro: json_zone_inject simp: json_keyboard_def\<close>, simp add: json_zone_def)
  moreover have "kb_effect k = kb_effect l"
    using assms(4,5) by (rule json_option_inject [rotated 2, of clean_effect _ _ json_effect])
      (use assms(1) in \<open>auto intro: json_effect_inject simp: json_keyboard_def\<close>, simp add: json_effect_def)
  ultimately show ?thesis by simp
qed

lemma json_degraded_inject: "json_degraded d = json_degraded e \<Longrightarrow> d = e"
proof -
  have "inj JString" by (simp add: inj_def)
  then show "json_degraded d = json_degraded e \<Longrightarrow> d = e"
    by (auto simp: json_degraded_def dest: map_injective split: if_splits)
qed

lemma json_state_inject:
  assumes "json_state st = Some j" "json_state su = Some j" "clean_state st" "clean_state su"
  shows "st = su"
proof -
  obtain s where stamp: "rfc3339_nano (st_timestamp st) = Some s" "rfc3339_nano (st_timestamp su) = Some s"
    using assms(1,2) by (auto simp: json_state_def split: option.splits)
  then have "st_timestamp st = st_timestamp su" using read_rfc3339_nano by metis
  moreover have parts: "json_profile (st_profile st) = json_profile (st_profile su)"
    "json_fans (st_fans st) = json_fans (st_fans su)" "json_temperatures (st_temperatures st) = json_temperatures (st_temperatures su)"
    "json_settings (st_settings st) = json_settings (st_settings su)" "json_keyboard (st_keyboard st) = json_keyboard (st_keyboard su)"
    "json_capabilities (st_capabilities st) = json_capabilities (st_capabilities su)"
    "json_degraded (st_degraded st) = json_degraded (st_degraded su)"
    and same: "st_power_source st = st_power_source su" "st_driver_version st = st_driver_version su"
    using assms(1,2) by (auto simp: json_state_def stamp)
  moreover have "st_settings st = st_settings su"
    using parts(4) assms(3,4) by (simp add: json_settings_def clean_state_def json_int_inject)
  moreover have "st_capabilities st = st_capabilities su"
    using parts(6) by (simp add: json_capabilities_def)
  moreover have "st_fans st = st_fans su" "st_temperatures st = st_temperatures su" "st_keyboard st = st_keyboard su"
    using parts assms(3,4) unfolding clean_state_def
    by (blast intro: json_fans_inject json_temperatures_inject json_keyboard_inject)+
  ultimately show ?thesis by (simp add: json_profile_inject json_degraded_inject)
qed

theorem marshal_state_inject:
  assumes "marshal_state st = Some t" "marshal_state su = Some t" "clean_state st" "clean_state su"
  shows "st = su"
proof -
  obtain j k where "json_state st = Some j" "json_parse t = Some (readable j, [])"
      "json_state su = Some k" "json_parse t = Some (readable k, [])"
    using marshal_state_parsed [OF assms(1)] marshal_state_parsed [OF assms(2)] by blast
  with readable_state assms(3,4) json_state_inject show ?thesis by force
qed

end
