(* ===== verification/State_Properties.thy ===== *)
theory State_Properties
  imports Json_State_Laws Controller_Laws
begin

text \<open>Properties of the text of a state that clients are sent.\<close>

definition json_member :: "bytes \<Rightarrow> json \<Rightarrow> json option" where
  "json_member key v = (case v of JObject ms \<Rightarrow> map_of ms key | _ \<Rightarrow> None)"

text \<open>C12. A state has a text exactly when its instant is in the years 0 to 9999. The text is one
  value of JSON that is read back as it was written, up to bytes that are no UTF-8, and the instant
  of the state can be read from its timestamp to the nanosecond.\<close>
theorem state_text_is_read_back:
  "case marshal_state st of
     None \<Rightarrow> dt_year (date_of_days (st_timestamp st div day_length)) \<notin> {0..9999}
   | Some t \<Rightarrow>
       dt_year (date_of_days (st_timestamp st div day_length)) \<in> {0..9999} \<and>
       (\<exists>j stamp. json_state st = Some j \<and> json_parse t = Some (readable j, []) \<and>
          json_member ''timestamp'' (readable j) = Some (JString stamp) \<and> read_rfc3339 stamp = st_timestamp st)"
proof (cases "rfc3339_nano (st_timestamp st)")
  case None
  then show ?thesis by (auto simp: marshal_state_def json_state_def rfc3339_nano_def Let_def split: if_splits)
next
  case (Some stamp)
  then have year: "dt_year (date_of_days (st_timestamp st div day_length)) \<in> {0..9999}"
    by (auto simp: rfc3339_nano_def Let_def split: if_splits)
  obtain j where j: "json_state st = Some j" using Some by (auto simp: json_state_def)
  then have t: "marshal_state st = Some (json_text j)" by (simp add: marshal_state_def)
  have "json_parse (json_text j) = Some (readable j, [])" using marshal_state_parsed [OF t] j by simp
  moreover have "json_member ''timestamp'' (readable j) = Some (JString stamp)"
    using j Some rfc3339_nano_ascii [OF Some]
    by (auto simp: json_state_def json_member_def to_valid_utf8_valid valid_utf8_ascii)
  ultimately show ?thesis using year j t read_rfc3339_nano [OF Some] by auto
qed

text \<open>C13. Nothing is lost: two states with UTF-8 strings, 64-bit numbers and temperatures of whole
  thousandths have the same text only if they are the same state, missing readings and menus
  included.\<close>
theorem state_text_determines_state:
  "inj_on marshal_state {st. clean_state st \<and> marshal_state st \<noteq> None}"
  using marshal_state_inject by (auto simp: inj_on_def)

definition bench_state :: hw_state where
  "bench_state =
     \<lparr>st_timestamp = 63871000000123000000, st_power_source = ''ac'',
      st_profile = \<lparr>prof_value = ''quiet'', prof_label = ''Silent'', prof_available = Some [profile_for_value ''quiet'']\<rparr>,
      st_fans = zero_fans\<lparr>fans_mode := ''auto'', fans_cpu_rpm := Some 2100\<rparr>,
      st_temperatures = \<lparr>temp_cpu = Some (123 / 2), temp_gpu = None\<rparr>,
      st_settings = zero_settings, st_keyboard = \<lparr>kb_per_zone = None, kb_effect = None\<rparr>,
      st_capabilities = \<lparr>cap_fan_control = True, cap_fan_telemetry = True, cap_thermal_profile = True,
        cap_battery_limiter = False, cap_battery_calibration = False, cap_backlight_timeout = False,
        cap_lcd_override = False, cap_usb_charging = False, cap_boot_animation_sound = False,
        cap_keyboard_per_zone = False, cap_keyboard_effects = False, cap_cpu_temperature = True,
        cap_gpu_temperature = False\<rparr>,
      st_driver_version = ''25.702'', st_degraded = []\<rparr>"

lemma state_text_determines_state_witness:
  "\<exists>t. clean_state bench_state \<and> marshal_state bench_state = Some t \<and>
     (\<forall>st. clean_state st \<longrightarrow> marshal_state st = Some t \<longrightarrow> st = bench_state)"
proof -
  have clean: "clean_state bench_state"
    by (simp add: bench_state_def clean_state_def opt_all_def clean_option_def thousandths_def zero_fans_def
        zero_settings_def profile_for_value_def profile_options_def int64_def)
  moreover obtain t where t: "marshal_state bench_state = Some t"
    by (simp add: bench_state_def marshal_state_def json_state_def rfc3339_nano_def date_of_days_def year_day_def
        day_length_def seconds_def Let_def month_lengths_def leap_year_def)
  moreover have "st = bench_state" if "clean_state st" "marshal_state st = Some t" for st
    using state_text_determines_state that clean t by (intro inj_onD [OF state_text_determines_state]) auto
  ultimately show ?thesis by blast
qed

text \<open>
  A menu that was never made is null, and so is an empty list of degraded sections. The page calls
  \<open>forEach\<close> on the menu of every state (\<open>renderProfiles\<close> in \<open>dist/app.js\<close>), which null refuses, so
  on a machine without platform profiles no state is shown.
\<close>

lemma menu_is_null_without_profiles:
  assumes "snapshot c w now = (Inr st, c')" "json_state st = Some j"
  shows "\<exists>p. json_member ''profile'' j = Some p \<and>
    (json_member ''available'' p = Some JNull \<longleftrightarrow> \<not> cap_thermal_profile (ctl_caps c)) \<and>
    (json_member ''degraded'' j = Some JNull \<longleftrightarrow> st_degraded st = [])"
  using assms(2) snapshot_from_slow(6) [OF assms(1)]
  by (auto simp: json_state_def json_member_def json_profile_def json_option_def json_degraded_def split: option.splits if_splits)

end
