(* ===== verification/Push_Properties.thy ===== *)
theory Push_Properties
  imports Server_Runs Json_State_Laws Fixture
begin

text \<open>
  From the hardware to a client: what one tick of the telemetry sends is a frame of RFC 6455 whose
  payload is JSON of the state that was read, and of no other state.
\<close>

section \<open>A small bench\<close>

text \<open>A server over a machine without features, with one client.\<close>

definition bare_server :: "mem_world server" where
  "bare_server =
     \<lparr>sv_sessions = \<lparr>ses_secret = [], ses_username = ''admin'', ses_lifetime = minutes 720\<rparr>, sv_secure = True,
      sv_interval = 150000000, sv_telemetry = seconds 2, sv_controller = bench_controller\<lparr>ctl_caps := no_capabilities\<rparr>,
      sv_hub = \<lparr>hub_clients = [0], hub_conns = [\<lparr>conn_out = ''x'', conn_room = None, conn_open = True\<rparr>]\<rparr>,
      sv_last_write = 0, sv_logins = new_login_limiter, sv_degraded = [],
      sv_setup = \<lparr>su_config_username = ''admin'', su_username = ''admin'', su_hash = ''set'', su_token = [], su_file = None\<rparr>\<rparr>"

definition bare_state :: hw_state where
  "bare_state =
     \<lparr>st_timestamp = seconds 63900000000, st_power_source = ''unknown'',
      st_profile = \<lparr>prof_value = [], prof_label = [], prof_available = None\<rparr>, st_fans = zero_fans,
      st_temperatures = \<lparr>temp_cpu = None, temp_gpu = None\<rparr>, st_settings = zero_settings,
      st_keyboard = \<lparr>kb_per_zone = None, kb_effect = None\<rparr>, st_capabilities = no_capabilities,
      st_driver_version = [], st_degraded = []\<rparr>"

lemma bare_snapshot: "\<exists>c. snapshot (sv_controller bare_server) [] (seconds 63900000000) = (Inr bare_state, c)"
proof -
  have "fst (snapshot (sv_controller bare_server) [] (seconds 63900000000)) = Inr bare_state" by code_simp
  then show ?thesis by (metis prod.collapse)
qed

lemma quote_body_length: "length (quote_body s) \<le> 6 * length s"
proof (induction s rule: quote_body.induct)
  case (2 c s)
  let ?w = "rune_width (c # s)"
  have "length (quote_byte c) \<le> 6" by (simp add: quote_byte_def)
  moreover have "?w \<le> length (c # s)" by (rule rune_width_le) simp
  moreover have "length (drop ?w (c # s)) = length (c # s) - ?w" by simp
  ultimately show ?case
    using 2 unfolding quote_body.simps(2) [of c s] by (auto simp: has_prefix_iff simp del: drop_Suc_Cons take_Suc_Cons)
qed simp

lemma bare_text: "\<exists>t. marshal_state bare_state = Some t \<and> length t < 2 ^ 32"
proof -
  have "\<exists>stamp. rfc3339_nano (seconds 63900000000) = Some stamp \<and> length stamp = 20"
    by (simp add: rfc3339_nano_def date_of_days_def year_day_def day_length_def seconds_def Let_def
        month_lengths_def leap_year_def fraction_text_def)
  then obtain stamp where stamp: "rfc3339_nano (seconds 63900000000) = Some stamp" "length stamp = 20" by blast
  then have "length (quote_body stamp) \<le> 120" using quote_body_length [of stamp] by simp
  then show ?thesis
    by (simp add: bare_state_def marshal_state_def json_state_def stamp json_records json_option_def json_int_def
        zero_fans_def zero_settings_def no_capabilities_def json_quote_def quote_body.simps quote_byte_def itoa_def nat_digits_0)
qed

section \<open>Telemetry\<close>

text \<open>C4. A client that takes what is written gets, from a tick of the telemetry, exactly one text
  frame and stays registered; the frame's payload is JSON, and a state that has that value, among
  states whose strings are UTF-8 and whose numbers fit, is the state that was read.\<close>
theorem telemetry_is_understood:
  assumes "hub_ok (sv_hub s)" "i \<in> set (hub_clients (sv_hub s))" "conn_room (hub_conns (sv_hub s) ! i) = None"
    and "snapshot (sv_controller s) w now = (Inr st, c)" "clean_state st"
    and "marshal_state st = Some t" "length t < 2 ^ 32"
  shows "let h = sv_hub (snd (broadcast_state s w now))
    in i \<in> set (hub_clients h) \<and>
      (\<exists>data j. conn_out (hub_conns h ! i) = conn_out (hub_conns (sv_hub s) ! i) @ data \<and>
         rfc_decode data = Some (\<lparr>rfc_fin = True, rfc_op = 1, rfc_key = None, rfc_payload = t\<rparr>, []) \<and>
         json_parse t = Some (j, []) \<and>
         json_state st = Some j \<and> (\<forall>su. clean_state su \<longrightarrow> json_state su = Some j \<longrightarrow> su = st))"
proof -
  let ?conn = "hub_conns (sv_hub s) ! i"
  have i: "i < length (hub_conns (sv_hub s))" "taking ?conn"
    using assms(1-3) by (auto simp: hub_ok_def taking_def)
  have "has_clients (sv_hub s)" using assms(2) by (auto simp: has_clients_def)
  then have hub: "sv_hub (snd (broadcast_state s w now)) = broadcast t (sv_hub s)"
    using assms(4,6) by (simp add: broadcast_state_def log_degraded_def Let_def)
  have sent: "write_frame text_op t ?conn = (True, ?conn\<lparr>conn_out := conn_out ?conn @ frame_header text_op (length t) @ t\<rparr>)"
    using i(2) by simp
  obtain j where j: "json_state st = Some j" "json_parse t = Some (readable j, [])"
    using marshal_state_parsed [OF assms(6)] by blast
  have "readable j = j" using readable_state [OF j(1) assms(5)] .
  moreover have "su = st" if "clean_state su" "json_state su = Some j" for su
    using json_state_inject [OF that(2) j(1) that(1) assms(5)] .
  moreover have "rfc_decode (frame_header text_op (length t) @ t) =
      Some (\<lparr>rfc_fin = True, rfc_op = 1, rfc_key = None, rfc_payload = t\<rparr>, [])"
    using rfc_decode_frame [of text_op t "[]"] assms(7) by simp
  ultimately show ?thesis
    using broadcast_spec [OF assms(1), of t] i(1) assms(2) j sent unfolding hub by (auto simp: Let_def)
qed

lemma telemetry_is_understood_witness:
  "\<exists>data t j. conn_out (hub_conns (sv_hub (snd (broadcast_state bare_server [] (seconds 63900000000)))) ! 0) = ''x'' @ data \<and>
     rfc_decode data = Some (\<lparr>rfc_fin = True, rfc_op = 1, rfc_key = None, rfc_payload = t\<rparr>, []) \<and>
     json_parse t = Some (j, []) \<and> json_state bare_state = Some j"
proof -
  obtain c where snap: "snapshot (sv_controller bare_server) [] (seconds 63900000000) = (Inr bare_state, c)"
    using bare_snapshot by blast
  obtain t where t: "marshal_state bare_state = Some t" "length t < 2 ^ 32" using bare_text by blast
  have hub: "hub_ok (sv_hub bare_server)" "0 \<in> set (hub_clients (sv_hub bare_server))"
    "conn_room (hub_conns (sv_hub bare_server) ! 0) = None" "conn_out (hub_conns (sv_hub bare_server) ! 0) = ''x''"
    by (simp_all add: bare_server_def hub_ok_def)
  have "clean_state bare_state"
    by (simp add: bare_state_def clean_state_def opt_all_def zero_fans_def zero_settings_def int64_def)
  from telemetry_is_understood [OF hub(1-3) snap this t] hub(4) show ?thesis unfolding Let_def by metis
qed

end
