(* ===== verification/Spec2Isabelle.thy ===== *)
theory Spec2Isabelle
  imports Device_Properties Hardware_Properties Auth_Properties Server_Properties WebSocket_Properties Start_Properties
    State_Properties Push_Properties
begin

text \<open>
  phnctl is a control panel for Acer Predator laptops: one Go program that serves a page, an HTTP
  interface and a WebSocket over the attributes that the \<open>linuwu_sense\<close> kernel driver exports in
  sysfs. This development models the program, the parts of Go's library that it calls, and proves
  what makes each part correct.

  The program and its model. \<open>cmd/phnctl/main.go\<close> reads the environment and builds the server:
  \<open>Config\<close> (\<open>load_config\<close>, \<open>start\<close>) and \<open>Commands\<close> (the other commands and the log filter).
  \<open>internal/auth\<close> hashes passwords, signs sessions and keeps the credentials file: \<open>Passwords\<close>,
  \<open>Sessions\<close>, \<open>Credentials\<close>. \<open>internal/server/server.go\<close> is \<open>Server\<close> (every handler, the
  gate \<open>require_auth\<close>, \<open>routes\<close>, telemetry with \<open>run_telemetry\<close>), with \<open>Limiters\<close> for its two rate limiters and
  \<open>Setup\<close> for first-run setup as interleaving sections; \<open>websocket.go\<close> is \<open>WebSocket\<close>.
  \<open>internal/sysfs\<close> is \<open>Sysfs_FS\<close> (files below a root), \<open>Codecs\<close> (values of attributes),
  \<open>Profiles\<close>, \<open>Sensors\<close> and \<open>Controller\<close> (capabilities, snapshots, the six operations that
  write); \<open>Json_State\<close> is the text that clients get of a state. A handler of the server calls one
  operation of the controller, which reads and writes the world through a record of file
  operations; both states are passed explicitly, and each method that runs under a lock is one
  function.

  The library of Go. \<open>Go_Strings\<close>, \<open>Go_Numbers\<close>, \<open>Go_Utf8\<close>, \<open>Go_Path\<close>, \<open>Go_Base64\<close>,
  \<open>Go_Net\<close>, \<open>Go_Ip\<close>, \<open>Go_Json\<close> with \<open>Json_Print\<close>, \<open>Go_Time\<close>, \<open>Go_Http\<close>, \<open>Sha1\<close> and
  \<open>Sha256\<close> model what the program calls of the packages strings, strconv, unicode, filepath,
  base64, net, url, json, time, http and crypto (Go 1.23). Strings are lists of bytes; case folding
  is exact for ASCII and the few other letters that fold into it. Time is an integer of nanoseconds
  since Go's zero time.

  Groups of lemmas. \<open>*_Laws\<close> and \<open>*_Runs\<close> theories hold what the properties share: laws per
  operation, locales with their interpretations (\<open>store_fs\<close> for storing file systems, \<open>controller_op\<close>
  and \<open>mutation_handler\<close> for operations and handlers that share a contract, \<open>byte_text\<close> for the
  codecs of bytes, \<open>mac32\<close> for PBKDF2's function), step relations (\<open>ctl_step\<close>, \<open>setup_step\<close>,
  \<open>server_reachable\<close>, histories of the hub in \<open>WebSocket_Streams\<close>) and their invariants.
  \<open>*_Properties\<close> theories state the properties, each with an application to a concrete input: who
  may change the hardware and how often, what is answered, the credentials and their file across
  crashes and restarts, WebSocket frames against RFC 6455, PBKDF2 against RFC 8018 (both
  specifications have their own octets: \<open>octet_xor\<close>, \<open>rfc_unmask\<close>, \<open>rfc_int\<close> and \<open>rfc_xor\<close> share
  nothing with the routines that are proved against them), the sensors against \<open>channel_input\<close>, the
  codecs and the paths, what a snapshot reports, that its text loses nothing (\<open>Json_State_Laws\<close>) and reaches
  the clients as such (\<open>Push_Properties\<close>), and what telemetry logs.

  Bounds and fuel. The name of a temporary file is drawn up to ten thousand times, as
  \<open>os.CreateTemp\<close> does; the random parts are a parameter of a save. The JSON parser runs on fuel of twice the length of its text and two more,
  which \<open>body_fuel_suffices\<close> shows to be enough; nesting is limited to 10000 as in Go. Every
  other loop is a total function with a measure. Words are used where the code shifts and masks
  (hashes, WebSocket frames, file modes); Go's \<open>int\<close> has 64 bits where it is parsed.

  Not modelled, and why. Of error replies the status and the code are kept. Of the file server
  inside \<open>handleStatic\<close>, conditional requests and ranges are left out. What \<open>encoding/pem\<close> and
  \<open>crypto/x509\<close> read of a certificate is an argument of \<open>show_certificate\<close>. Signals, time-outs
  and the goroutines that \<open>serve\<close> starts belong to the runtime; a read deadline of a WebSocket is
  the end of what arrives. Temperatures are exact rationals, printed exactly, which is what a
  \<open>float64\<close> prints for a reading of fewer than sixteen digits. Handlers run one after the other,
  except in \<open>Setup\<close> and \<open>Limiters\<close>, where the sections between locks interleave. The disk of
  \<open>Credentials\<close> has no directories and no links. The web interface is JavaScript and is left out.
\<close>

end
